(* ===== verification/Prelude.thy ===== *)
theory Prelude
  imports Main "HOL-Library.List_Lexorder" "HOL-Library.AList"
begin

text \<open>
  Shared vocabulary of the development: the names of the model's base types, the
  function-kind tag of \<open>TypedValue\<close>, and the two combinators that thread Python's
  exceptions through the model.  A computation that may raise returns \<open>'e + 'a\<close>
  (\<open>Inl\<close> is the raised exception); a computation that also threads a state
  (a callback with side effects, a table that is mutated in place) returns
  \<open>'e + ('a \<times> 's)\<close>.  \<open>ebind\<close> and \<open>sbind\<close> sequence such computations and
  stop at the first exception, as Python does.
\<close>

named_theorems result_simps "evaluation rules of the exception-threading combinators"

type_synonym uuid = nat
type_synonym dtype = string
type_synonym opname = string

text \<open>\<open>TypedValue.ftype\<close>: one of \<open>'s'\<close>, \<open>'a'\<close>, \<open>'w'\<close> (scalar, aggregate, window).\<close>

datatype ftype = FScalar | FAggregate | FWindow

definition ebind :: "'e + 'a \<Rightarrow> ('a \<Rightarrow> 'e + 'b) \<Rightarrow> 'e + 'b" where
  "ebind r f = (case r of Inl e \<Rightarrow> Inl e | Inr a \<Rightarrow> f a)"

definition sbind :: "'e + ('a \<times> 's) \<Rightarrow> ('a \<Rightarrow> 's \<Rightarrow> 'e + ('b \<times> 's)) \<Rightarrow> 'e + ('b \<times> 's)" where
  "sbind r f = (case r of Inl e \<Rightarrow> Inl e | Inr (a, s) \<Rightarrow> f a s)"

text \<open>
  Python's \<open>str.strip()\<close> and \<open>str.split(sep)\<close> on byte strings: \<open>strip\<close> removes
  the ASCII whitespace characters at both ends; \<open>split\<close> cuts at every occurrence
  of a non-empty separator, left to right, and always returns at least one piece.
\<close>

definition is_space :: "char \<Rightarrow> bool" where
  "is_space c \<longleftrightarrow> c \<in> set [CHR '' '', CHR 0x09, CHR 0x0A, CHR 0x0B, CHR 0x0C, CHR 0x0D]"

definition py_strip :: "string \<Rightarrow> string" where
  "py_strip s = rev (dropWhile is_space (rev (dropWhile is_space s)))"

fun split_acc :: "string \<Rightarrow> string \<Rightarrow> string \<Rightarrow> string list" where
  "split_acc sep cur [] = [rev cur]"
| "split_acc sep cur (x # xs) =
     (if sep \<noteq> [] \<and> take (length sep) (x # xs) = sep
      then rev cur # split_acc sep [] (drop (length sep - 1) xs)
      else split_acc sep (x # cur) xs)"

definition py_split :: "string \<Rightarrow> string \<Rightarrow> string list" where
  "py_split s sep = split_acc sep [] s"

text \<open>A Python dict built by a comprehension: a later duplicate key replaces the value and
  keeps the key's first position.\<close>

definition dict_of :: "('k \<times> 'v) list \<Rightarrow> ('k \<times> 'v) list" where
  "dict_of kvs = foldl (\<lambda>d (k, v). AList.update k v d) [] kvs"

text \<open>A list comprehension whose element computation may raise: the first failure wins.\<close>

fun emap :: "('a \<Rightarrow> 'e + 'b) \<Rightarrow> 'a list \<Rightarrow> 'e + 'b list" where
  "emap f [] = Inr []"
| "emap f (x # xs) = ebind (f x) (\<lambda>y. ebind (emap f xs) (\<lambda>ys. Inr (y # ys)))"

lemma ebind_Inl [simp, result_simps]: "ebind (Inl e) f = Inl e"
  by (simp add: ebind_def)

lemma ebind_Inr [simp, result_simps]: "ebind (Inr a) f = f a"
  by (simp add: ebind_def)

lemma sbind_Inl [simp, result_simps]: "sbind (Inl e) f = Inl e"
  by (simp add: sbind_def)

lemma sbind_Inr [simp, result_simps]: "sbind (Inr (a, s)) f = f a s"
  by (simp add: sbind_def)

lemma ebind_eq_Inr [result_simps]:
  "ebind r f = Inr b \<longleftrightarrow> (\<exists>a. r = Inr a \<and> f a = Inr b)"
  by (cases r) auto

lemma ebind_eq_Inl [result_simps]:
  "ebind r f = Inl e \<longleftrightarrow> r = Inl e \<or> (\<exists>a. r = Inr a \<and> f a = Inl e)"
  by (cases r) auto

lemma sbind_eq_Inr [result_simps]:
  "sbind r f = Inr b \<longleftrightarrow> (\<exists>a s. r = Inr (a, s) \<and> f a s = Inr b)"
  by (cases r) (auto simp: sbind_def)

lemma sbind_assoc [result_simps]:
  "sbind (sbind r f) g = sbind r (\<lambda>a s. sbind (f a s) g)"
  by (cases r) (auto simp: sbind_def)

lemma emap_Inr_iff:
  "emap f xs = Inr ys \<longleftrightarrow> list_all2 (\<lambda>x y. f x = Inr y) xs ys"
proof (induction xs arbitrary: ys)
  case Nil
  then show ?case by auto
next
  case (Cons x xs)
  then show ?case by (cases ys) (auto simp: ebind_eq_Inr)
qed

lemma emap_Inr_length: "emap f xs = Inr ys \<Longrightarrow> length ys = length xs"
  by (simp add: emap_Inr_iff list_all2_lengthD)

lemma emap_map_Inr [simp]: "emap (\<lambda>x. Inr (g x)) xs = Inr (map g xs)"
  by (induction xs) simp_all

text \<open>Where an element raises, the comprehension raises the first such exception.\<close>

lemma emap_first_error:
  "(\<forall>x \<in> set xs. \<exists>y. f x = Inr y) \<Longrightarrow> f z = Inl e \<Longrightarrow> emap f (xs @ z # zs) = Inl e"
  by (induction xs) auto

lemma set_update_subset: "set (AList.update k v al) \<subseteq> insert (k, v) (set al)"
  by (induction al) auto

lemma emap_total: "(\<forall>x \<in> set xs. \<exists>y. f x = Inr y) \<Longrightarrow> \<exists>ys. emap f xs = Inr ys"
  by (induction xs) auto

lemma emap_Inr_set: "emap f xs = Inr ys \<Longrightarrow> y \<in> set ys \<Longrightarrow> \<exists>x \<in> set xs. f x = Inr y"
  by (induction xs arbitrary: ys) (auto simp: ebind_eq_Inr)

lemma set_foldl_update:
  "set (foldl (\<lambda>d (k, v). AList.update k v d) d0 kvs) \<subseteq> set d0 \<union> set kvs"
proof (induction kvs arbitrary: d0)
  case (Cons kv kvs)
  then show ?case
    using set_update_subset [of "fst kv" "snd kv" d0] by (cases kv) fastforce
qed simp

lemma set_dict_of: "set (dict_of kvs) \<subseteq> set kvs"
  using set_foldl_update [of "[]" kvs] by (simp add: dict_of_def)

lemma emap_cong: "(\<forall>x \<in> set xs. f x = g x) \<Longrightarrow> emap f xs = emap g xs"
  by (induction xs) auto

lemma update_notin: "k \<notin> set (map fst d) \<Longrightarrow> AList.update k v d = d @ [(k, v)]"
  by (induction d) auto

lemma foldl_update_distinct:
  "distinct (map fst kvs) \<Longrightarrow> set (map fst kvs) \<inter> set (map fst d) = {} \<Longrightarrow>
     foldl (\<lambda>d (k, v). AList.update k v d) d kvs = d @ kvs"
  by (induction kvs arbitrary: d) (auto simp: update_notin)

text \<open>A comprehension over distinct keys builds the dict in the order of the pairs.\<close>

lemma dict_of_distinct: "distinct (map fst kvs) \<Longrightarrow> dict_of kvs = kvs"
  using foldl_update_distinct [of kvs "[]"] by (simp add: dict_of_def)

lemma distinct_snd_update:
  "distinct (map snd al) \<Longrightarrow> v \<notin> snd ` set al \<Longrightarrow> distinct (map snd (AList.update k v al))"
proof (induction al)
  case (Cons p ps)
  have "snd ` set (AList.update k v ps) \<subseteq> insert v (snd ` set ps)"
    using set_update_subset [of k v ps] by auto
  moreover have "snd p \<noteq> v" "snd p \<notin> snd ` set ps" using Cons.prems by auto
  ultimately have "snd p \<notin> snd ` set (AList.update k v ps)" by blast
  then show ?case using Cons by auto
qed simp

text \<open>On distinct keys, updating a present key replaces its entry in place.\<close>

lemma update_nth:
  "distinct (map fst al) \<Longrightarrow> i < length al \<Longrightarrow> fst (al ! i) = k \<Longrightarrow> AList.update k v al = al[i := (k, v)]"
proof (induction al arbitrary: i)
  case (Cons p ps)
  show ?case
  proof (cases i)
    case 0
    then show ?thesis using Cons.prems by (cases p) auto
  next
    case (Suc j)
    then have "ps ! j \<in> set ps" using Cons.prems(2) by simp
    then have "fst p \<noteq> k" using Cons.prems Suc by force
    then show ?thesis using Cons Suc by auto
  qed
qed simp

end
