(* ===== verification/Expressions.thy ===== *)
theory Expressions
  imports Prelude
begin

text \<open>
  The expression model (\<open>pdtransform.core.expressions\<close>, \<open>pdtransform.core.column\<close>,
  and the lambda-column getter of \<open>src/pdtransform/core/expressions/lambda_getter.py\<close>).
  A column carries a stable identity (\<open>uuid\<close>), a display name, a dtype and the
  name of the table that defines it.  An expression is a tree whose leaves are
  columns, lambda columns (a reference by name, not yet bound to a table), Python
  literals, or values that are already translated, and whose inner nodes are
  function calls with positional and keyword arguments.  A \<open>node\<close> is what the
  bottom-up rewrite hands to a translator: a leaf unchanged, or a call whose
  arguments are already translated results.
\<close>

record column =
  col_uuid :: uuid
  col_name :: string
  col_dtype :: dtype
  col_table :: string

text \<open>
  Python literals as the translators distinguish them.  \<open>bool\<close> is a subclass of
  \<open>int\<close> in Python, so it is kept apart here; \<open>LOther\<close> is any other Python object
  (a float, \<open>None\<close>, a list), named by its type.
\<close>

datatype lit = LInt int | LBool bool | LStr string | LOther string

datatype 'v leaf =
    Col column
  | LambdaCol string
  | Lit lit
  | Typed 'v

datatype 'v expr =
    Leaf "'v leaf"
  | Call opname "'v expr list" "(string \<times> 'v expr) list"

datatype ('v, 'a) node =
    NLeaf "'v leaf"
  | NCall opname "'a list" "(string \<times> 'a) list"

text \<open>
  The lambda-column getter: \<open>\<lambda>.name\<close> and \<open>\<lambda>['name']\<close> both build a
  \<open>SymbolicExpression(LambdaColumn(name))\<close>.
\<close>

definition lambda_getattr :: "string \<Rightarrow> 'v expr" where
  "lambda_getattr item = Leaf (LambdaCol item)"

definition lambda_getitem :: "string \<Rightarrow> 'v expr" where
  "lambda_getitem item = Leaf (LambdaCol item)"

text \<open>
  Operator overloading on \<open>SymbolicExpression\<close>: \<open>a == b\<close> and \<open>a & b\<close> build
  function-call nodes; nothing is evaluated.
\<close>

definition sym_eq :: "'v expr \<Rightarrow> 'v expr \<Rightarrow> 'v expr" where
  "sym_eq a b = Call ''__eq__'' [a, b] []"

definition sym_and :: "'v expr \<Rightarrow> 'v expr \<Rightarrow> 'v expr" where
  "sym_and a b = Call ''__and__'' [a, b] []"

text \<open>The number of nodes of a tree (leaves and calls).\<close>

fun nodes :: "'v expr \<Rightarrow> nat"
and nodes_args :: "'v expr list \<Rightarrow> nat"
and nodes_kwargs :: "(string \<times> 'v expr) list \<Rightarrow> nat" where
  "nodes (Leaf l) = 1"
| "nodes (Call op args kws) = Suc (nodes_args args + nodes_kwargs kws)"
| "nodes_args [] = 0"
| "nodes_args (e # es) = nodes e + nodes_args es"
| "nodes_kwargs [] = 0"
| "nodes_kwargs ((k, e) # kes) = nodes e + nodes_kwargs kes"

end
