(* ===== verification/Registry.thy ===== *)
theory Registry
  imports Prelude "HOL-Library.AList"
begin

text \<open>
  The operator registry (\<open>pdtransform.core.expressions.operator_registry\<close>, not under
  src/, modelled from the spec) and the window operators of
  \<open>src/pdtransform/core/ops/window.py\<close>.  An operator is registered under a name
  with one or more signatures such as \<open>'T, int -> T'\<close>: argument dtype patterns and a
  return pattern, where a name starting with an upper-case letter is a template
  parameter.  Resolution (\<open>get_implementation\<close>) takes the dtypes of the translated
  arguments and returns a \<open>TypedOperatorImpl\<close>: the implementation, its return dtype
  with the template instantiated, and its function kind.  The rule chosen for the
  spec's open question: a template parameter binds at its first occurrence and must
  equal that dtype at every later one; a signature without templates that equals the
  argument dtypes wins; otherwise exactly one matching signature must exist.
  The registry is a Python dict, here an association list in insertion order.
\<close>

text \<open>The exceptions the registry raises, at registration and at resolution.\<close>

datatype reg_error =
    UnresolvedOperator opname
  | NoMatchingSignature opname "dtype list"
  | AmbiguousSignature opname "dtype list"
  | DuplicateSignature opname
  | MalformedSignature string

datatype dpat = DT dtype | DVar string

record sig =
  sig_args :: "dpat list"
  sig_ret :: dpat

record 'x impl =
  impl_sig :: sig
  impl_fn :: "'x list \<Rightarrow> 'x option"
  impl_ftype :: ftype

record 'x typed_impl =
  ti_name :: opname
  ti_fn :: "'x list \<Rightarrow> 'x option"
  ti_rtype :: dtype
  ti_ftype :: ftype

type_synonym 'x registry = "(opname \<times> 'x impl list) list"

subsection \<open>Signature strings\<close>

definition is_template :: "string \<Rightarrow> bool" where
  "is_template t \<longleftrightarrow> t \<noteq> [] \<and> hd t \<in> set ''ABCDEFGHIJKLMNOPQRSTUVWXYZ''"

definition parse_dpat :: "string \<Rightarrow> dpat" where
  "parse_dpat s = (let t = py_strip s in if is_template t then DVar t else DT t)"

definition parse_signature :: "string \<Rightarrow> reg_error + sig" where
  "parse_signature s =
     (case py_split s ''->'' of
        [lhs, rhs] \<Rightarrow>
          if py_strip rhs = [] then Inl (MalformedSignature s)
          else Inr \<lparr>sig_args = map parse_dpat (filter (\<lambda>a. py_strip a \<noteq> []) (py_split lhs '','')),
                    sig_ret = parse_dpat rhs\<rparr>
      | _ \<Rightarrow> Inl (MalformedSignature s))"

subsection \<open>Template matching\<close>

fun match_args :: "dpat list \<Rightarrow> dtype list \<Rightarrow> (string \<rightharpoonup> dtype) \<Rightarrow> (string \<rightharpoonup> dtype) option" where
  "match_args [] [] b = Some b"
| "match_args (DT t # ps) (d # ds) b = (if t = d then match_args ps ds b else None)"
| "match_args (DVar v # ps) (d # ds) b =
     (case b v of
        None \<Rightarrow> match_args ps ds (b(v \<mapsto> d))
      | Some d' \<Rightarrow> if d' = d then match_args ps ds b else None)"
| "match_args _ _ b = None"

fun inst :: "(string \<rightharpoonup> dtype) \<Rightarrow> dpat \<Rightarrow> dtype option" where
  "inst b (DT t) = Some t"
| "inst b (DVar v) = b v"

text \<open>A return template must occur among the arguments, or it could not be instantiated.\<close>

definition sig_ok :: "sig \<Rightarrow> bool" where
  "sig_ok sg \<longleftrightarrow> (case sig_ret sg of DT _ \<Rightarrow> True | DVar v \<Rightarrow> DVar v \<in> set (sig_args sg))"

definition sig_matches :: "dtype list \<Rightarrow> 'x impl \<Rightarrow> bool" where
  "sig_matches ds i \<longleftrightarrow> match_args (sig_args (impl_sig i)) ds Map.empty \<noteq> None"

subsection \<open>Registration and resolution\<close>

definition impls_of :: "'x registry \<Rightarrow> opname \<Rightarrow> 'x impl list" where
  "impls_of reg name = (case map_of reg name of None \<Rightarrow> [] | Some is \<Rightarrow> is)"

definition register :: "'x registry \<Rightarrow> opname \<Rightarrow> sig \<Rightarrow> ('x list \<Rightarrow> 'x option) \<Rightarrow> ftype
    \<Rightarrow> reg_error + 'x registry" where
  "register reg name sg f ft =
     (if \<not> sig_ok sg then Inl (MalformedSignature name)
      else if list_ex (\<lambda>i. sig_args (impl_sig i) = sig_args sg) (impls_of reg name)
      then Inl (DuplicateSignature name)
      else Inr (AList.update name
                  (impls_of reg name @ [\<lparr>impl_sig = sg, impl_fn = f, impl_ftype = ft\<rparr>]) reg))"

fun register_all :: "'x registry \<Rightarrow> opname \<Rightarrow> string list \<Rightarrow> ('x list \<Rightarrow> 'x option) \<Rightarrow> ftype
    \<Rightarrow> reg_error + 'x registry" where
  "register_all reg name [] f ft = Inr reg"
| "register_all reg name (s # ss) f ft =
     ebind (parse_signature s) (\<lambda>sg. ebind (register reg name sg f ft)
       (\<lambda>reg'. register_all reg' name ss f ft))"

definition typed :: "opname \<Rightarrow> dtype list \<Rightarrow> 'x impl \<Rightarrow> reg_error + 'x typed_impl" where
  "typed name ds i =
     (case match_args (sig_args (impl_sig i)) ds Map.empty of
        None \<Rightarrow> Inl (NoMatchingSignature name ds)
      | Some b \<Rightarrow>
          (case inst b (sig_ret (impl_sig i)) of
             None \<Rightarrow> Inl (MalformedSignature name)
           | Some rt \<Rightarrow> Inr \<lparr>ti_name = name, ti_fn = impl_fn i, ti_rtype = rt,
                             ti_ftype = impl_ftype i\<rparr>))"

definition get_implementation :: "'x registry \<Rightarrow> opname \<Rightarrow> dtype list \<Rightarrow> reg_error + 'x typed_impl" where
  "get_implementation reg name ds =
     (case map_of reg name of
        None \<Rightarrow> Inl (UnresolvedOperator name)
      | Some impls \<Rightarrow>
          (case filter (\<lambda>i. sig_args (impl_sig i) = map DT ds) impls of
             i # _ \<Rightarrow> typed name ds i
           | [] \<Rightarrow>
               (case filter (sig_matches ds) impls of
                  [] \<Rightarrow> Inl (NoMatchingSignature name ds)
                | [i] \<Rightarrow> typed name ds i
                | _ \<Rightarrow> Inl (AmbiguousSignature name ds))))"

text \<open>The registry invariant: no two signatures of one operator have the same arguments,
  every return template is bound, and every operator name occurs once.\<close>

definition reg_wf :: "'x registry \<Rightarrow> bool" where
  "reg_wf reg \<longleftrightarrow> distinct (map fst reg) \<and>
     list_all (\<lambda>(n, impls). distinct (map (sig_args \<circ> impl_sig) impls) \<and>
                            list_all (sig_ok \<circ> impl_sig) impls) reg"

subsection \<open>Window operators (\<open>window.py\<close>)\<close>

record op_class =
  op_name :: opname
  op_signatures :: "string list"
  op_ftype :: ftype

definition Shift :: op_class where
  "Shift = \<lparr>op_name = ''shift'', op_signatures = [''T, int -> T'', ''T, int, T -> T''],
            op_ftype = FWindow\<rparr>"

definition RowNumber :: op_class where
  "RowNumber = \<lparr>op_name = ''row_number'', op_signatures = [''-> int''], op_ftype = FWindow\<rparr>"

definition register_op :: "'x registry \<Rightarrow> op_class \<Rightarrow> ('x list \<Rightarrow> 'x option) \<Rightarrow> reg_error + 'x registry" where
  "register_op reg c f = register_all reg (op_name c) (op_signatures c) f (op_ftype c)"

definition window_registry :: "('x list \<Rightarrow> 'x option) \<Rightarrow> reg_error + 'x registry" where
  "window_registry f = ebind (register_op [] Shift f) (\<lambda>reg. register_op reg RowNumber f)"

subsection \<open>The window operators as registered\<close>

text \<open>Registering \<open>Shift\<close> and \<open>RowNumber\<close> (with one implementation \<open>fn\<close>) parses their
  signature strings into template patterns.\<close>

lemma window_registry_eval:
  "window_registry fn = Inr
     [(''shift'', [\<lparr>impl_sig = \<lparr>sig_args = [DVar ''T'', DT ''int''], sig_ret = DVar ''T''\<rparr>, impl_fn = fn, impl_ftype = FWindow\<rparr>,
                   \<lparr>impl_sig = \<lparr>sig_args = [DVar ''T'', DT ''int'', DVar ''T''], sig_ret = DVar ''T''\<rparr>, impl_fn = fn, impl_ftype = FWindow\<rparr>]),
      (''row_number'', [\<lparr>impl_sig = \<lparr>sig_args = [], sig_ret = DT ''int''\<rparr>, impl_fn = fn, impl_ftype = FWindow\<rparr>])]"
  by (simp add: window_registry_def register_op_def Shift_def RowNumber_def parse_signature_def
      py_split_def py_strip_def parse_dpat_def is_template_def register_def impls_of_def sig_ok_def is_space_def)

subsection \<open>Template matching computes the most general binding\<close>

lemma inst_mono: "inst b p = Some d \<Longrightarrow> b \<subseteq>\<^sub>m c \<Longrightarrow> inst c p = Some d"
  by (cases p) (auto simp: map_le_def dom_def)

lemma match_args_sound:
  "match_args ps ds b = Some b' \<Longrightarrow> b \<subseteq>\<^sub>m b' \<and> map (inst b') ps = map Some ds"
proof (induction ps ds b rule: match_args.induct)
  case (2 t ps d ds b)
  then show ?case by (auto split: if_splits)
next
  case (3 v ps d ds b)
  show ?case
  proof (cases "b v")
    case None
    with "3.prems" have m: "match_args ps ds (b(v \<mapsto> d)) = Some b'" by simp
    from "3.IH"(1)[OF None] m have "b(v \<mapsto> d) \<subseteq>\<^sub>m b'" and "map (inst b') ps = map Some ds"
      by (simp_all add: fun_upd_def)
    moreover from \<open>b(v \<mapsto> d) \<subseteq>\<^sub>m b'\<close> None have "b \<subseteq>\<^sub>m b'" and "b' v = Some d"
      by (auto simp: map_le_def dom_def split: if_splits)
    ultimately show ?thesis by simp
  next
    case (Some d')
    with "3.prems" have "d' = d" and m: "match_args ps ds b = Some b'" by (auto split: if_splits)
    from "3.IH"(2)[OF Some _ m] \<open>d' = d\<close> have "b \<subseteq>\<^sub>m b'" and "map (inst b') ps = map Some ds" by auto
    moreover from \<open>b \<subseteq>\<^sub>m b'\<close> Some \<open>d' = d\<close> have "b' v = Some d" by (auto simp: map_le_def dom_def)
    ultimately show ?thesis by simp
  qed
qed auto

lemma match_args_complete:
  "b \<subseteq>\<^sub>m c \<Longrightarrow> map (inst c) ps = map Some ds \<Longrightarrow> \<exists>b'. match_args ps ds b = Some b' \<and> b' \<subseteq>\<^sub>m c"
proof (induction ps ds b rule: match_args.induct)
  case (3 v ps d ds b)
  then have cv: "c v = Some d" and rest: "map (inst c) ps = map Some ds" by auto
  show ?case
  proof (cases "b v")
    case None
    from "3.prems"(1) cv have "b(v \<mapsto> d) \<subseteq>\<^sub>m c" by (auto simp: map_le_def dom_def)
    with "3.IH"(1)[OF None] rest None show ?thesis by (simp add: fun_upd_def)
  next
    case (Some d')
    with "3.prems"(1) cv have "d' = d" by (auto simp: map_le_def dom_def)
    with "3.IH"(2)[OF Some] "3.prems"(1) rest Some show ?thesis by simp
  qed
qed auto


lemma match_args_iff:
  "match_args ps ds Map.empty \<noteq> None \<longleftrightarrow> (\<exists>b. map (inst b) ps = map Some ds)"
proof
  assume "match_args ps ds Map.empty \<noteq> None"
  then obtain b' where "match_args ps ds Map.empty = Some b'" by blast
  then show "\<exists>b. map (inst b) ps = map Some ds" by (blast dest: match_args_sound)
next
  assume "\<exists>b. map (inst b) ps = map Some ds"
  then obtain c where "map (inst c) ps = map Some ds" by blast
  from match_args_complete[OF map_le_empty this] show "match_args ps ds Map.empty \<noteq> None" by auto
qed

lemma sig_matches_iff:
  "sig_matches ds i \<longleftrightarrow> (\<exists>b. map (inst b) (sig_args (impl_sig i)) = map Some ds)"
  unfolding sig_matches_def by (rule match_args_iff)

lemma typed_Inr:
  "typed name ds i = Inr ti \<longleftrightarrow>
     (\<exists>b rt. match_args (sig_args (impl_sig i)) ds Map.empty = Some b \<and>
             inst b (sig_ret (impl_sig i)) = Some rt \<and>
             ti = \<lparr>ti_name = name, ti_fn = impl_fn i, ti_rtype = rt, ti_ftype = impl_ftype i\<rparr>)"
  by (auto simp: typed_def split: option.splits)

lemma typed_not_unresolved: "typed name ds i \<noteq> Inl (UnresolvedOperator n)"
  by (simp add: typed_def split: option.splits)

lemma typed_matching_not_no_match:
  "sig_matches ds i \<Longrightarrow> typed name ds i \<noteq> Inl (NoMatchingSignature n ds')"
  by (auto simp: typed_def sig_matches_def split: option.splits)

lemma exact_sig_matches: "sig_args (impl_sig i) = map DT ds \<Longrightarrow> sig_matches ds i"
proof -
  have "match_args (map DT ds) ds b = Some b" for b by (induction ds) auto
  then show "sig_args (impl_sig i) = map DT ds \<Longrightarrow> sig_matches ds i"
    by (simp add: sig_matches_def)
qed

lemma get_implementation_cases:
  obtains (unknown) "map_of reg name = None"
      "get_implementation reg name ds = Inl (UnresolvedOperator name)"
  | (found) impls i where "map_of reg name = Some impls" "i \<in> set impls" "sig_matches ds i"
      "get_implementation reg name ds = typed name ds i"
  | (none) impls where "map_of reg name = Some impls" "\<forall>i \<in> set impls. \<not> sig_matches ds i"
      "get_implementation reg name ds = Inl (NoMatchingSignature name ds)"
  | (ambiguous) impls i where "map_of reg name = Some impls" "i \<in> set impls" "sig_matches ds i"
      "get_implementation reg name ds = Inl (AmbiguousSignature name ds)"
proof (cases "map_of reg name")
  case None
  with unknown show ?thesis by (simp add: get_implementation_def)
next
  case (Some impls)
  show ?thesis
  proof (cases "filter (\<lambda>i. sig_args (impl_sig i) = map DT ds) impls")
    case (Cons i rest)
    then have "i \<in> set (filter (\<lambda>i. sig_args (impl_sig i) = map DT ds) impls)" by simp
    then have i: "i \<in> set impls" and ex: "sig_args (impl_sig i) = map DT ds" by simp_all
    from ex have m: "sig_matches ds i" by (rule exact_sig_matches)
    from Cons Some have r: "get_implementation reg name ds = typed name ds i"
      by (simp add: get_implementation_def)
    show ?thesis by (rule found [OF Some i m r])
  next
    case Nil
    show ?thesis
    proof (cases "filter (sig_matches ds) impls")
      case Nil2: Nil
      with Nil Some none show ?thesis
        by (simp add: get_implementation_def filter_empty_conv)
    next
      case (Cons i rest)
      show ?thesis
      proof (cases rest)
        case Nil3: Nil
        from Cons have "i \<in> set (filter (sig_matches ds) impls)" by simp
        then have "i \<in> set impls" "sig_matches ds i" by simp_all
        moreover from Cons Nil3 Nil Some have "get_implementation reg name ds = typed name ds i"
          by (simp add: get_implementation_def)
        ultimately show ?thesis by (blast intro: found [OF Some])
      next
        case (Cons j js)
        from \<open>filter (sig_matches ds) impls = i # rest\<close> have "i \<in> set (filter (sig_matches ds) impls)"
          by simp
        then have "i \<in> set impls" "sig_matches ds i" by simp_all
        moreover from Cons \<open>filter (sig_matches ds) impls = i # rest\<close> Nil Some
        have "get_implementation reg name ds = Inl (AmbiguousSignature name ds)"
          by (simp add: get_implementation_def)
        ultimately show ?thesis by (rule ambiguous [OF Some])
      qed
    qed
  qed
qed

text \<open>when resolution returns an implementation, it is one registered under the operator name, some binding of its template parameters makes its argument patterns equal to the argument dtypes, and the returned return dtype, function and function kind are that implementation's, with the return pattern instantiated under the same binding.\<close>

lemma get_implementation_sound:
  assumes r: "get_implementation reg name ds = Inr ti"
  shows "\<exists>i b. i \<in> set (impls_of reg name) \<and> map (inst b) (sig_args (impl_sig i)) = map Some ds \<and>
         inst b (sig_ret (impl_sig i)) = Some (ti_rtype ti) \<and>
         ti_name ti = name \<and> ti_fn ti = impl_fn i \<and> ti_ftype ti = impl_ftype i"
proof (rule get_implementation_cases [of reg name ds])
  fix impls i
  assume found: "map_of reg name = Some impls" "i \<in> set impls"
    and eq: "get_implementation reg name ds = typed name ds i"
  from r eq have "typed name ds i = Inr ti" by simp
  then obtain b rt where "match_args (sig_args (impl_sig i)) ds Map.empty = Some b"
      "inst b (sig_ret (impl_sig i)) = Some rt"
      "ti = \<lparr>ti_name = name, ti_fn = impl_fn i, ti_rtype = rt, ti_ftype = impl_ftype i\<rparr>"
    by (auto simp: typed_Inr)
  with found show ?thesis
    by (auto simp: impls_of_def dest!: match_args_sound)
qed (use r in auto)

text \<open>resolution fails with NoMatchingSignature exactly when the operator name is known and no registered signature of it matches the argument dtypes under any template binding; there is no silent fallback.\<close>

lemma get_implementation_no_match:
  "get_implementation reg name ds = Inl (NoMatchingSignature name ds) \<longleftrightarrow>
   map_of reg name \<noteq> None \<and>
   (\<forall>i \<in> set (impls_of reg name). \<not> (\<exists>b. map (inst b) (sig_args (impl_sig i)) = map Some ds))"
proof (rule get_implementation_cases [of reg name ds])
  fix impls i
  assume found: "map_of reg name = Some impls" "i \<in> set impls" "sig_matches ds i"
    and eq: "get_implementation reg name ds = typed name ds i"
  have "get_implementation reg name ds \<noteq> Inl (NoMatchingSignature name ds)"
    using eq typed_matching_not_no_match [OF found(3)] by simp
  moreover have "\<exists>b. map (inst b) (sig_args (impl_sig i)) = map Some ds"
    using found(3) by (simp add: sig_matches_iff)
  ultimately show ?thesis using found(1,2) by (auto simp: impls_of_def)
qed (auto simp: impls_of_def sig_matches_iff)

text \<open>resolution fails with UnresolvedOperator exactly when no implementation is registered under the name.\<close>

lemma get_implementation_unresolved:
  "get_implementation reg name ds = Inl (UnresolvedOperator name) \<longleftrightarrow> map_of reg name = None"
proof (rule get_implementation_cases [of reg name ds])
  fix impls i
  assume "map_of reg name = Some impls" "get_implementation reg name ds = typed name ds i"
  then show ?thesis using typed_not_unresolved [of name ds i name] by simp
qed auto


lemma reg_wf_impls:
  "reg_wf reg \<Longrightarrow> distinct (map (sig_args \<circ> impl_sig) (impls_of reg name)) \<and>
                  list_all (sig_ok \<circ> impl_sig) (impls_of reg name)"
  by (auto simp: reg_wf_def impls_of_def list_all_iff split: option.splits dest!: map_of_SomeD)

lemma register_Inr:
  "register reg name sg f ft = Inr reg' \<longleftrightarrow>
   sig_ok sg \<and> (\<forall>i \<in> set (impls_of reg name). sig_args (impl_sig i) \<noteq> sig_args sg) \<and>
   reg' = AList.update name (impls_of reg name @ [\<lparr>impl_sig = sg, impl_fn = f, impl_ftype = ft\<rparr>]) reg"
  by (auto simp: register_def list_ex_iff)

lemma register_wf:
  assumes wf: "reg_wf reg" and r: "register reg name sg f ft = Inr reg'"
  shows "reg_wf reg'"
proof -
  let ?new = "\<lparr>impl_sig = sg, impl_fn = f, impl_ftype = ft\<rparr>"
  from r have ok: "sig_ok sg" and fresh: "\<forall>i \<in> set (impls_of reg name). sig_args (impl_sig i) \<noteq> sig_args sg"
    and reg': "reg' = AList.update name (impls_of reg name @ [?new]) reg"
    by (simp_all add: register_Inr)
  from wf have old: "distinct (map (sig_args \<circ> impl_sig) (impls_of reg name))"
    "list_all (sig_ok \<circ> impl_sig) (impls_of reg name)"
    by (simp_all add: reg_wf_impls)
  with ok fresh have new_ok: "distinct (map (sig_args \<circ> impl_sig) (impls_of reg name @ [?new])) \<and>
      list_all (sig_ok \<circ> impl_sig) (impls_of reg name @ [?new])"
    by auto
  from wf have "distinct (map fst reg')" by (simp add: reg' reg_wf_def distinct_update)
  moreover have "list_all (\<lambda>(n, impls). distinct (map (sig_args \<circ> impl_sig) impls) \<and>
                            list_all (sig_ok \<circ> impl_sig) impls) reg'"
    using set_update_subset [of name "impls_of reg name @ [?new]" reg] wf new_ok
    by (fastforce simp: reg' reg_wf_def list_all_iff)
  ultimately show ?thesis by (simp add: reg_wf_def)
qed

lemma register_duplicate:
  "register reg name sg f ft = Inl (DuplicateSignature name) \<longleftrightarrow>
   sig_ok sg \<and> (\<exists>i \<in> set (impls_of reg name). sig_args (impl_sig i) = sig_args sg)"
  by (auto simp: register_def list_ex_iff)

lemma filter_unique_key:
  "distinct (map g xs) \<Longrightarrow> i \<in> set xs \<Longrightarrow> filter (\<lambda>j. g j = g i) xs = [i]"
  by (induction xs) (auto simp: filter_empty_conv rev_image_eqI)

lemma match_args_exact: "match_args (map DT ds) ds b = Some b"
  by (induction ds) auto

text \<open>in a well-formed registry, a registered signature without templates that equals the argument dtypes is the one resolution returns, with its declared return dtype, even when template signatures also match.\<close>

lemma get_implementation_exact:
  assumes wf: "reg_wf reg" and i: "i \<in> set (impls_of reg name)"
    and ex: "sig_args (impl_sig i) = map DT ds"
  shows "\<exists>rt. sig_ret (impl_sig i) = DT rt \<and>
    get_implementation reg name ds =
      Inr \<lparr>ti_name = name, ti_fn = impl_fn i, ti_rtype = rt, ti_ftype = impl_ftype i\<rparr>"
proof -
  from reg_wf_impls [OF wf, of name] i
  have dist: "distinct (map (sig_args \<circ> impl_sig) (impls_of reg name))"
    and ok: "sig_ok (impl_sig i)"
    by (auto simp: list_all_iff)
  from i obtain impls where some: "map_of reg name = Some impls" and i': "i \<in> set impls"
    by (cases "map_of reg name") (auto simp: impls_of_def)
  from dist some have "distinct (map (sig_args \<circ> impl_sig) impls)" by (simp add: impls_of_def)
  from filter_unique_key [OF this i'] ex
  have filt: "filter (\<lambda>j. sig_args (impl_sig j) = map DT ds) impls = [i]" by simp
  from ok ex obtain rt where rt: "sig_ret (impl_sig i) = DT rt"
    by (cases "sig_ret (impl_sig i)") (auto simp: sig_ok_def)
  from some filt rt ex show ?thesis
    by (simp add: get_implementation_def typed_def match_args_exact)
qed


lemma match_args_deterministic_le:
  "match_args ps ds Map.empty = Some b \<Longrightarrow> map (inst c) ps = map Some ds \<Longrightarrow> b \<subseteq>\<^sub>m c"
  using match_args_complete [OF map_le_empty, of c ps ds] by auto

text \<open>registering the signatures of an operator one after another (the
  \<open>register_op\<close> decorator) keeps the registry invariant: operator names are unique, no two
  signatures of an operator have the same argument patterns, and every return template
  is bound by an argument.\<close>

theorem register_all_wf:
  "reg_wf reg \<Longrightarrow> register_all reg name ss f ft = Inr reg' \<Longrightarrow> reg_wf reg'"
proof (induction ss arbitrary: reg)
  case Nil
  then show ?case by simp
next
  case (Cons s ss)
  from Cons.prems(2) obtain sg reg1 where reg1: "register reg name sg f ft = Inr reg1"
      and rest: "register_all reg1 name ss f ft = Inr reg'"
    by (auto simp: ebind_eq_Inr)
  from Cons.prems(1) reg1 have "reg_wf reg1" by (rule register_wf)
  from Cons.IH [OF this rest] show ?case .
qed

text \<open>the template matcher of signature resolution succeeds exactly
  when some binding of the template parameters makes the signature's argument patterns
  equal to the argument dtypes, and the binding it returns is the least such binding
  (a template binds at its first occurrence and is consistent at all others).\<close>

theorem match_args_mgu:
  "match_args ps ds Map.empty = Some b \<longleftrightarrow>
   map (inst b) ps = map Some ds \<and> (\<forall>c. map (inst c) ps = map Some ds \<longrightarrow> b \<subseteq>\<^sub>m c)"
proof
  assume m: "match_args ps ds Map.empty = Some b"
  then show "map (inst b) ps = map Some ds \<and> (\<forall>c. map (inst c) ps = map Some ds \<longrightarrow> b \<subseteq>\<^sub>m c)"
    by (auto dest: match_args_sound match_args_deterministic_le)
next
  assume r: "map (inst b) ps = map Some ds \<and> (\<forall>c. map (inst c) ps = map Some ds \<longrightarrow> b \<subseteq>\<^sub>m c)"
  then obtain b' where m: "match_args ps ds Map.empty = Some b'" and "b' \<subseteq>\<^sub>m b"
    using match_args_complete [OF map_le_empty, of b ps ds] by auto
  moreover from m have "map (inst b') ps = map Some ds" by (auto dest: match_args_sound)
  with r have "b \<subseteq>\<^sub>m b'" by auto
  ultimately show "match_args ps ds Map.empty = Some b" by (simp add: map_le_antisym)
qed

subsection \<open>Witnesses\<close>

theorem match_args_mgu_witness:
  "match_args [DVar ''T'', DT ''int'', DVar ''T''] [''str'', ''int'', ''str''] Map.empty = Some [''T'' \<mapsto> ''str''] \<and>
   map (inst [''T'' \<mapsto> ''str'']) [DVar ''T'', DT ''int'', DVar ''T''] = map Some [''str'', ''int'', ''str''] \<and>
   (\<forall>c. map (inst c) [DVar ''T'', DT ''int'', DVar ''T''] = map Some [''str'', ''int'', ''str''] \<longrightarrow>
        [''T'' \<mapsto> ''str''] \<subseteq>\<^sub>m c)"
proof -
  have h: "match_args [DVar ''T'', DT ''int'', DVar ''T''] [''str'', ''int'', ''str''] Map.empty = Some [''T'' \<mapsto> ''str'']"
    by simp
  note c = match_args_mgu [THEN iffD1, OF h]
  show ?thesis using h c by blast
qed

theorem register_all_wf_witness:
  "reg_wf ([] :: unit registry) \<and>
   register_all [] ''shift'' [''T, int -> T'', ''int, int -> int'']
     ((\<lambda>_. None) :: unit list \<Rightarrow> unit option) FWindow =
     Inr [(''shift'', [\<lparr>impl_sig = \<lparr>sig_args = [DVar ''T'', DT ''int''], sig_ret = DVar ''T''\<rparr>,
                         impl_fn = \<lambda>_. None, impl_ftype = FWindow\<rparr>,
                       \<lparr>impl_sig = \<lparr>sig_args = [DT ''int'', DT ''int''], sig_ret = DT ''int''\<rparr>,
                         impl_fn = \<lambda>_. None, impl_ftype = FWindow\<rparr>])] \<and>
   reg_wf [(''shift'', [\<lparr>impl_sig = \<lparr>sig_args = [DVar ''T'', DT ''int''], sig_ret = DVar ''T''\<rparr>,
                         impl_fn = (\<lambda>_. None) :: unit list \<Rightarrow> unit option, impl_ftype = FWindow\<rparr>,
                       \<lparr>impl_sig = \<lparr>sig_args = [DT ''int'', DT ''int''], sig_ret = DT ''int''\<rparr>,
                         impl_fn = \<lambda>_. None, impl_ftype = FWindow\<rparr>])]"
proof -
  have h1: "reg_wf ([] :: unit registry)" by (simp add: reg_wf_def)
  have h2: "register_all [] ''shift'' [''T, int -> T'', ''int, int -> int'']
     ((\<lambda>_. None) :: unit list \<Rightarrow> unit option) FWindow =
     Inr [(''shift'', [\<lparr>impl_sig = \<lparr>sig_args = [DVar ''T'', DT ''int''], sig_ret = DVar ''T''\<rparr>,
                         impl_fn = (\<lambda>_. None) :: unit list \<Rightarrow> unit option, impl_ftype = FWindow\<rparr>,
                       \<lparr>impl_sig = \<lparr>sig_args = [DT ''int'', DT ''int''], sig_ret = DT ''int''\<rparr>,
                         impl_fn = \<lambda>_. None, impl_ftype = FWindow\<rparr>])]"
    by (simp add: parse_signature_def py_split_def py_strip_def is_space_def parse_dpat_def
        is_template_def register_def impls_of_def sig_ok_def)
  note c = register_all_wf [OF h1 h2]
  show ?thesis using h1 h2 c by blast
qed

theorem get_implementation_exact_witness:
  "reg_wf [(''shift'', [\<lparr>impl_sig = \<lparr>sig_args = [DVar ''T'', DT ''int''], sig_ret = DVar ''T''\<rparr>,
                         impl_fn = (\<lambda>_. None) :: unit list \<Rightarrow> unit option, impl_ftype = FWindow\<rparr>,
                       \<lparr>impl_sig = \<lparr>sig_args = [DT ''int'', DT ''int''], sig_ret = DT ''int''\<rparr>,
                         impl_fn = \<lambda>_. None, impl_ftype = FWindow\<rparr>])] \<and>
   get_implementation [(''shift'', [\<lparr>impl_sig = \<lparr>sig_args = [DVar ''T'', DT ''int''], sig_ret = DVar ''T''\<rparr>,
                         impl_fn = (\<lambda>_. None) :: unit list \<Rightarrow> unit option, impl_ftype = FWindow\<rparr>,
                       \<lparr>impl_sig = \<lparr>sig_args = [DT ''int'', DT ''int''], sig_ret = DT ''int''\<rparr>,
                         impl_fn = \<lambda>_. None, impl_ftype = FWindow\<rparr>])] ''shift'' [''int'', ''int''] =
     Inr \<lparr>ti_name = ''shift'', ti_fn = \<lambda>_. None, ti_rtype = ''int'', ti_ftype = FWindow\<rparr>"
proof -
  let ?i1 = "\<lparr>impl_sig = \<lparr>sig_args = [DVar ''T'', DT ''int''], sig_ret = DVar ''T''\<rparr>,
              impl_fn = (\<lambda>_. None) :: unit list \<Rightarrow> unit option, impl_ftype = FWindow\<rparr>"
  let ?i2 = "\<lparr>impl_sig = \<lparr>sig_args = [DT ''int'', DT ''int''], sig_ret = DT ''int''\<rparr>,
              impl_fn = (\<lambda>_. None) :: unit list \<Rightarrow> unit option, impl_ftype = FWindow\<rparr>"
  have wf: "reg_wf [(''shift'', [?i1, ?i2])]" by (simp add: reg_wf_def sig_ok_def)
  have i: "?i2 \<in> set (impls_of [(''shift'', [?i1, ?i2])] ''shift'')" by (simp add: impls_of_def)
  have ex: "sig_args (impl_sig ?i2) = map DT [''int'', ''int'']" by simp
  note c = get_implementation_exact [OF wf i ex]
  show ?thesis using wf c by simp
qed

theorem get_implementation_sound_witness:
  "get_implementation [(''shift'', [\<lparr>impl_sig = \<lparr>sig_args = [DVar ''T'', DT ''int''], sig_ret = DVar ''T''\<rparr>,
                         impl_fn = (\<lambda>_. None) :: unit list \<Rightarrow> unit option, impl_ftype = FWindow\<rparr>])]
     ''shift'' [''str'', ''int''] =
     Inr \<lparr>ti_name = ''shift'', ti_fn = \<lambda>_. None, ti_rtype = ''str'', ti_ftype = FWindow\<rparr> \<and>
   (\<exists>i b. i \<in> set (impls_of [(''shift'', [\<lparr>impl_sig = \<lparr>sig_args = [DVar ''T'', DT ''int''], sig_ret = DVar ''T''\<rparr>,
                         impl_fn = (\<lambda>_. None) :: unit list \<Rightarrow> unit option, impl_ftype = FWindow\<rparr>])] ''shift'') \<and>
      map (inst b) (sig_args (impl_sig i)) = map Some [''str'', ''int''] \<and>
      inst b (sig_ret (impl_sig i)) = Some ''str'' \<and>
      ''shift'' = ''shift'' \<and> (\<lambda>_. None) = impl_fn i \<and> FWindow = impl_ftype i)"
proof -
  have h: "get_implementation [(''shift'', [\<lparr>impl_sig = \<lparr>sig_args = [DVar ''T'', DT ''int''], sig_ret = DVar ''T''\<rparr>,
                         impl_fn = (\<lambda>_. None) :: unit list \<Rightarrow> unit option, impl_ftype = FWindow\<rparr>])]
     ''shift'' [''str'', ''int''] =
     Inr \<lparr>ti_name = ''shift'', ti_fn = \<lambda>_. None, ti_rtype = ''str'', ti_ftype = FWindow\<rparr>"
    by (simp add: get_implementation_def typed_def sig_matches_def)
  note c = get_implementation_sound [OF h]
  show ?thesis using h c by simp
qed

theorem get_implementation_no_match_witness:
  "get_implementation [(''shift'', [\<lparr>impl_sig = \<lparr>sig_args = [DVar ''T'', DT ''int''], sig_ret = DVar ''T''\<rparr>,
                         impl_fn = (\<lambda>_. None) :: unit list \<Rightarrow> unit option, impl_ftype = FWindow\<rparr>])]
     ''shift'' [''str'', ''str''] = Inl (NoMatchingSignature ''shift'' [''str'', ''str'']) \<and>
   map_of [(''shift'', [\<lparr>impl_sig = \<lparr>sig_args = [DVar ''T'', DT ''int''], sig_ret = DVar ''T''\<rparr>,
                         impl_fn = (\<lambda>_. None) :: unit list \<Rightarrow> unit option, impl_ftype = FWindow\<rparr>])] ''shift'' \<noteq> None"
proof -
  have h: "get_implementation [(''shift'', [\<lparr>impl_sig = \<lparr>sig_args = [DVar ''T'', DT ''int''], sig_ret = DVar ''T''\<rparr>,
                         impl_fn = (\<lambda>_. None) :: unit list \<Rightarrow> unit option, impl_ftype = FWindow\<rparr>])]
     ''shift'' [''str'', ''str''] = Inl (NoMatchingSignature ''shift'' [''str'', ''str''])"
    by (simp add: get_implementation_def sig_matches_def)
  note c = get_implementation_no_match [THEN iffD1, OF h]
  show ?thesis using h c by simp
qed

end
