(* ===== verification/Translator.thy ===== *)
theory Translator
  imports Expressions Registry
begin

text \<open>
  The translator framework of \<open>src/pdtransform/core/expressions/translator.py\<close>.
  \<open>TypedValue\<close> is a record; \<open>bottom_up_replace\<close> is the clone-and-replace walk
  that hands every node to the callback after its arguments (post-order, positional
  arguments before keyword arguments, left to right); the callback may have effects,
  so it threads a state \<open>'s\<close> and may raise.  \<open>translate\<close> is
  \<open>Translator.translate\<close>: it runs the walk and wraps any exception into one
  \<open>ValueError\<close> naming the top-level expression.  \<open>delegating_translate\<close> is
  \<open>DelegatingTranslator._translate\<close>, which dispatches on the node kind and resolves
  function calls through the operator registry.  \<open>postfix\<close> and \<open>exec\<close> are the
  direct post-order evaluator the spec's design notes propose instead of the rebuilt tree.
\<close>

record 'x typed_value =
  tv_value :: 'x
  tv_dtype :: dtype
  tv_ftype :: ftype

text \<open>\<open>TypedValue(value, dtype)\<close>: the function kind defaults to \<open>'s'\<close>.\<close>

definition TypedValue :: "'x \<Rightarrow> dtype \<Rightarrow> 'x typed_value" where
  "TypedValue v d = \<lparr>tv_value = v, tv_dtype = d, tv_ftype = FScalar\<rparr>"

text \<open>\<open>TypedValue.__iter__\<close>: unpacking yields the value and the dtype.\<close>

definition tv_iter :: "'x typed_value \<Rightarrow> 'x \<times> dtype" where
  "tv_iter tv = (tv_value tv, tv_dtype tv)"

text \<open>The exceptions raised along translation and by the table verbs.\<close>

datatype 'v error =
    NotImplemented string          \<comment> \<open>\<open>NotImplementedError\<close>\<close>
  | KeyError string
  | AssertionError
  | TypeError string
  | ValueError string
  | InvalidOnClause                \<comment> \<open>\<open>Exception('Invalid ON clause element ...')\<close>\<close>
  | JoinColumnMismatch             \<comment> \<open>the bare \<open>raise Exception\<close> of \<open>join\<close>\<close>
  | HowMissing                     \<comment> \<open>\<open>Exception("Must specify how argument")\<close>\<close>
  | RegistryError reg_error
  | IndexError
  | ImplementationError opname     \<comment> \<open>an operator implementation raised\<close>
  | TranslationFailed "'v expr" "'v error"  \<comment> \<open>the \<open>ValueError\<close> raised \<open>from\<close> the cause\<close>

subsection \<open>The bottom-up rewrite\<close>

fun bottom_up_replace ::
    "('s \<Rightarrow> ('v, 'a) node \<Rightarrow> 'e + ('a \<times> 's)) \<Rightarrow> 's \<Rightarrow> 'v expr \<Rightarrow> 'e + ('a \<times> 's)"
and clone_args ::
    "('s \<Rightarrow> ('v, 'a) node \<Rightarrow> 'e + ('a \<times> 's)) \<Rightarrow> 's \<Rightarrow> 'v expr list \<Rightarrow> 'e + ('a list \<times> 's)"
and clone_kwargs ::
    "('s \<Rightarrow> ('v, 'a) node \<Rightarrow> 'e + ('a \<times> 's)) \<Rightarrow> 's \<Rightarrow> (string \<times> 'v expr) list
     \<Rightarrow> 'e + ((string \<times> 'a) list \<times> 's)" where
  "bottom_up_replace r s (Leaf l) = r s (NLeaf l)"
| "bottom_up_replace r s (Call op args kws) =
     sbind (clone_args r s args) (\<lambda>as s1.
       sbind (clone_kwargs r s1 kws) (\<lambda>ks s2. r s2 (NCall op as ks)))"
| "clone_args r s [] = Inr ([], s)"
| "clone_args r s (e # es) =
     sbind (bottom_up_replace r s e) (\<lambda>a s1.
       sbind (clone_args r s1 es) (\<lambda>as s2. Inr (a # as, s2)))"
| "clone_kwargs r s [] = Inr ([], s)"
| "clone_kwargs r s ((k, e) # kes) =
     sbind (bottom_up_replace r s e) (\<lambda>a s1.
       sbind (clone_kwargs r s1 kes) (\<lambda>ks s2. Inr ((k, a) # ks, s2)))"

definition translate ::
    "('s \<Rightarrow> ('v, 'a) node \<Rightarrow> 'v error + ('a \<times> 's)) \<Rightarrow> 's \<Rightarrow> 'v expr \<Rightarrow> 'v error + ('a \<times> 's)" where
  "translate tr s expr =
     (case bottom_up_replace tr s expr of
        Inl e \<Rightarrow> Inl (TranslationFailed expr e)
      | Inr r \<Rightarrow> Inr r)"

text \<open>A callback without effects, as the translators of the pandas backend are.\<close>

definition pure_cb :: "(('v, 'a) node \<Rightarrow> 'e + 'a) \<Rightarrow> unit \<Rightarrow> ('v, 'a) node \<Rightarrow> 'e + ('a \<times> unit)" where
  "pure_cb f u n = ebind (f n) (\<lambda>a. Inr (a, u))"

subsection \<open>The direct post-order evaluator\<close>

datatype 'v instr = ILeaf "'v leaf" | ICall opname nat "string list"

fun postfix :: "'v expr \<Rightarrow> 'v instr list"
and postfix_args :: "'v expr list \<Rightarrow> 'v instr list"
and postfix_kwargs :: "(string \<times> 'v expr) list \<Rightarrow> 'v instr list" where
  "postfix (Leaf l) = [ILeaf l]"
| "postfix (Call op args kws) =
     postfix_args args @ postfix_kwargs kws @ [ICall op (length args) (map fst kws)]"
| "postfix_args [] = []"
| "postfix_args (e # es) = postfix e @ postfix_args es"
| "postfix_kwargs [] = []"
| "postfix_kwargs ((k, e) # kes) = postfix e @ postfix_kwargs kes"

fun exec ::
    "('s \<Rightarrow> ('v, 'a) node \<Rightarrow> 'e + ('a \<times> 's)) \<Rightarrow> 'v instr list \<Rightarrow> 'a list \<Rightarrow> 's
     \<Rightarrow> 'e + ('a list \<times> 's)" where
  "exec r [] st s = Inr (st, s)"
| "exec r (ILeaf l # is) st s = sbind (r s (NLeaf l)) (\<lambda>a s'. exec r is (a # st) s')"
| "exec r (ICall op n ks # is) st s =
     (let m = n + length ks; vals = rev (take m st) in
      sbind (r s (NCall op (take n vals) (zip ks (drop n vals))))
        (\<lambda>a s'. exec r is (a # drop m st) s'))"

text \<open>The shape of a node: what an instrumented callback can observe of the tree walk.\<close>

fun shape :: "('v, 'a) node \<Rightarrow> 'v instr" where
  "shape (NLeaf l) = ILeaf l"
| "shape (NCall op as ks) = ICall op (length as) (map fst ks)"

definition logged ::
    "(('v, 'a) node \<Rightarrow> 'e + 'a) \<Rightarrow> ('v, 'a) node list \<Rightarrow> ('v, 'a) node \<Rightarrow> 'e + ('a \<times> ('v, 'a) node list)" where
  "logged f log n = ebind (f n) (\<lambda>a. Inr (a, log @ [n]))"

subsection \<open>Lemmas\<close>


subsection \<open>The delegating translator\<close>

text \<open>
  The three hooks a backend overrides.  \<open>_translate_literal\<close> handles every leaf
  that is not a column; its result is used only when it is truthy, and a
  \<open>TypedValue\<close> always is, so \<open>None\<close> here stands for a falsy result.
\<close>

record ('v, 'x) delegating_hooks =
  translate_col :: "column \<Rightarrow> 'v error + 'x typed_value"
  translate_function :: "opname \<Rightarrow> 'x typed_value list \<Rightarrow> (string \<times> 'x typed_value) list
                          \<Rightarrow> 'x list \<Rightarrow> 'x typed_impl \<Rightarrow> 'v error + 'x typed_value"
  translate_literal :: "'v leaf \<Rightarrow> 'v error + 'x typed_value option"

fun delegating_translate ::
    "('v, 'x) delegating_hooks \<Rightarrow> 'x registry \<Rightarrow> ('v, 'x typed_value) node
     \<Rightarrow> 'v error + 'x typed_value" where
  "delegating_translate h reg (NLeaf (Col c)) = translate_col h c"
| "delegating_translate h reg (NCall op args kws) =
     (case get_implementation reg op (map tv_dtype args) of
        Inl e \<Rightarrow> Inl (RegistryError e)
      | Inr impl \<Rightarrow> translate_function h op args kws (map tv_value args) impl)"
| "delegating_translate h reg (NLeaf l) =
     (case translate_literal h l of
        Inl e \<Rightarrow> Inl e
      | Inr (Some v) \<Rightarrow> Inr v
      | Inr None \<Rightarrow> Inl (NotImplemented ''Couldn't find a way to translate object''))"

subsection \<open>Properties of the walk and of the translator\<close>

lemma clone_args_length:
  "clone_args r s es = Inr (as, s') \<Longrightarrow> length as = length es"
proof (induction es arbitrary: s as)
  case (Cons e es)
  then show ?case by (auto simp: sbind_eq_Inr)
qed simp

lemma clone_kwargs_keys:
  "clone_kwargs r s kes = Inr (ks, s') \<Longrightarrow> map fst ks = map fst kes"
proof (induction kes arbitrary: s ks)
  case (Cons ke kes)
  then show ?case by (cases ke) (auto simp: sbind_eq_Inr)
qed simp

lemma exec_call_step:
  assumes n: "length as = n" and names: "map fst ks = names"
  shows "exec r (ICall op n names # ins) (rev (map snd ks) @ rev as @ st) s =
         sbind (r s (NCall op as ks)) (\<lambda>a s'. exec r ins (a # st) s')"
proof -
  define xs where "xs = rev (map snd ks) @ rev as"
  have stk: "rev (map snd ks) @ rev as @ st = xs @ st" by (simp add: xs_def)
  have "length xs = n + length names"
    using n names by (auto simp: xs_def dest: arg_cong [where f = length])
  then have tk: "take (n + length names) (xs @ st) = xs"
    and dr: "drop (n + length names) (xs @ st) = st"
    by (metis append_eq_conv_conj)+
  have "rev xs = as @ map snd ks" by (simp add: xs_def)
  then have t: "take n (rev xs) = as" and d: "drop n (rev xs) = map snd ks"
    using n by simp_all
  have z: "zip names (map snd ks) = ks"
    using names by (metis zip_map_fst_snd)
  have "exec r (ICall op n names # ins) (xs @ st) s =
        sbind (r s (NCall op (take n (rev (take (n + length names) (xs @ st))))
                          (zip names (drop n (rev (take (n + length names) (xs @ st)))))))
          (\<lambda>a s'. exec r ins (a # drop (n + length names) (xs @ st)) s')"
    by (simp only: exec.simps Let_def)
  also have "\<dots> = sbind (r s (NCall op as ks)) (\<lambda>a s'. exec r ins (a # st) s')"
    by (simp only: tk dr t d z)
  finally show ?thesis by (simp only: stk)
qed

lemma exec_postfix:
  "exec r (postfix e @ ins) st s = sbind (bottom_up_replace r s e) (\<lambda>a s'. exec r ins (a # st) s')"
  "exec r (postfix_args es @ ins) st s =
     sbind (clone_args r s es) (\<lambda>as s'. exec r ins (rev as @ st) s')"
  "exec r (postfix_kwargs kes @ ins) st s =
     sbind (clone_kwargs r s kes) (\<lambda>ks s'. exec r ins (rev (map snd ks) @ st) s')"
proof (induct r s e and r s es and r s kes arbitrary: ins st and ins st and ins st
    rule: bottom_up_replace_clone_args_clone_kwargs.induct)
  case (2 r s op args kws)
  show ?case
  proof (cases "clone_args r s args")
    case (Inl err)
    then show ?thesis using "2.hyps" by simp
  next
    case (Inr p)
    obtain as s1 where p: "p = (as, s1)" by (cases p)
    with Inr have len: "length as = length args" by (simp add: clone_args_length)
    show ?thesis
    proof (cases "clone_kwargs r s1 kws")
      case Inl2: (Inl err)
      with Inr p show ?thesis by (simp add: "2.hyps")
    next
      case Inr2: (Inr q)
      obtain ks s2 where q: "q = (ks, s2)" by (cases q)
      with Inr2 have keys: "map fst ks = map fst kws" by (simp add: clone_kwargs_keys)
      have "exec r (ICall op (length args) (map fst kws) # ins) (rev (map snd ks) @ rev as @ st) s2 =
            sbind (r s2 (NCall op as ks)) (\<lambda>a s'. exec r ins (a # st) s')"
        by (rule exec_call_step [OF len keys])
      with Inr p Inr2 q show ?thesis by (simp add: "2.hyps" del: exec.simps)
    qed
  qed
qed (simp_all add: sbind_def split: sum.split)


lemma length_postfix:
  "length (postfix (e :: 'v expr)) = nodes e"
  "length (postfix_args (es :: 'v expr list)) = nodes_args es"
  "length (postfix_kwargs (kes :: (string \<times> 'v expr) list)) = nodes_kwargs kes"
  by (induct e and es and kes rule: postfix_postfix_args_postfix_kwargs.induct) simp_all

lemma bottom_up_trace_general:
  shows "(\<And>lg n a lg'. r lg n = Inr (a, lg') \<Longrightarrow> lg' = lg @ [n]) \<Longrightarrow>
         bottom_up_replace r lg e = Inr (a, lg') \<Longrightarrow>
           \<exists>calls. lg' = lg @ calls \<and> map shape calls = postfix e"
    and "(\<And>lg n a lg'. r lg n = Inr (a, lg') \<Longrightarrow> lg' = lg @ [n]) \<Longrightarrow>
         clone_args r lg es = Inr (as, lg') \<Longrightarrow>
           \<exists>calls. lg' = lg @ calls \<and> map shape calls = postfix_args es"
    and "(\<And>lg n a lg'. r lg n = Inr (a, lg') \<Longrightarrow> lg' = lg @ [n]) \<Longrightarrow>
         clone_kwargs r lg kes = Inr (ks, lg') \<Longrightarrow>
           \<exists>calls. lg' = lg @ calls \<and> map shape calls = postfix_kwargs kes"
proof (induct r lg e and r lg es and r lg kes arbitrary: a lg' and as lg' and ks lg'
    rule: bottom_up_replace_clone_args_clone_kwargs.induct)
  case (1 r s l)
  from "1.prems"(2) have "r s (NLeaf l) = Inr (a, lg')" by simp
  then have "lg' = s @ [NLeaf l]" by (rule "1.prems"(1))
  then show ?case by simp
next
  case (2 r s op args kws)
  note log = "2.prems"(1)
  from "2.prems"(2) obtain as s1 ks s2 where ca: "clone_args r s args = Inr (as, s1)"
      and ck: "clone_kwargs r s1 kws = Inr (ks, s2)" and call: "r s2 (NCall op as ks) = Inr (a, lg')"
    by (auto simp: sbind_eq_Inr)
  have "\<exists>calls. s1 = s @ calls \<and> map shape calls = postfix_args args"
    by (rule "2.hyps"(1)) (fact log, fact ca)
  then obtain c1 where c1: "s1 = s @ c1" "map shape c1 = postfix_args args" by blast
  have "\<exists>calls. s2 = s1 @ calls \<and> map shape calls = postfix_kwargs kws"
    by (rule "2.hyps"(2)) (fact log, fact ck)
  then obtain c2 where c2: "s2 = s1 @ c2" "map shape c2 = postfix_kwargs kws" by blast
  from call have "lg' = s2 @ [NCall op as ks]" by (rule log)
  moreover have "length as = length args" using ca by (rule clone_args_length)
  moreover have "map fst ks = map fst kws" using ck by (rule clone_kwargs_keys)
  ultimately show ?case using c1 c2 by auto
next
  case (4 r s e es)
  note log = "4.prems"(1)
  from "4.prems"(2) obtain a1 s1 as1 where b: "bottom_up_replace r s e = Inr (a1, s1)"
      and c: "clone_args r s1 es = Inr (as1, lg')"
    by (auto simp: sbind_eq_Inr)
  have "\<exists>calls. s1 = s @ calls \<and> map shape calls = postfix e"
    by (rule "4.hyps"(1)) (fact log, fact b)
  moreover have "\<exists>calls. lg' = s1 @ calls \<and> map shape calls = postfix_args es"
    by (rule "4.hyps"(2)) (fact log, fact c)
  ultimately show ?case by force
next
  case (6 r s k e kes)
  note log = "6.prems"(1)
  from "6.prems"(2) obtain a1 s1 ks1 where b: "bottom_up_replace r s e = Inr (a1, s1)"
      and c: "clone_kwargs r s1 kes = Inr (ks1, lg')"
    by (auto simp: sbind_eq_Inr)
  have "\<exists>calls. s1 = s @ calls \<and> map shape calls = postfix e"
    by (rule "6.hyps"(1)) (fact log, fact b)
  moreover have "\<exists>calls. lg' = s1 @ calls \<and> map shape calls = postfix_kwargs kes"
    by (rule "6.hyps"(2)) (fact log, fact c)
  ultimately show ?case by force
qed simp_all

lemma bottom_up_error_origin:
  "bottom_up_replace r s e = Inl c \<Longrightarrow> \<exists>s' n. r s' n = Inl c"
  "clone_args r s es = Inl c \<Longrightarrow> \<exists>s' n. r s' n = Inl c"
  "clone_kwargs r s kes = Inl c \<Longrightarrow> \<exists>s' n. r s' n = Inl c"
  by (induct r s e and r s es and r s kes rule: bottom_up_replace_clone_args_clone_kwargs.induct)
     (force simp: sbind_def split: sum.splits)+




lemma pure_cb_Inr [simp]: "pure_cb f u n = Inr (a, u') \<longleftrightarrow> f n = Inr a \<and> u' = u"
  by (auto simp: pure_cb_def ebind_eq_Inr)

lemma translate_Inr: "translate tr s e = Inr r \<longleftrightarrow> bottom_up_replace tr s e = Inr r"
  by (auto simp: translate_def split: sum.splits)

lemma clone_args_pure:
  "clone_args (pure_cb f) () es = Inr (as, u) \<Longrightarrow>
     list_all2 (\<lambda>e a. bottom_up_replace (pure_cb f) () e = Inr (a, ())) es as"
proof (induction es arbitrary: as)
  case (Cons e es)
  then show ?case by (auto simp: sbind_eq_Inr)
qed simp

lemma clone_kwargs_pure:
  "clone_kwargs (pure_cb f) () kes = Inr (ks, u) \<Longrightarrow>
     list_all2 (\<lambda>(k, e) (k', a). k = k' \<and> bottom_up_replace (pure_cb f) () e = Inr (a, ())) kes ks"
proof (induction kes arbitrary: ks)
  case (Cons ke kes)
  then show ?case by (cases ke) (auto simp: sbind_eq_Inr)
qed simp

text \<open>A pure callback that succeeds wherever another one does, with the same value,
  makes the whole walk succeed wherever the other one's does.\<close>

lemma bottom_up_replace_mono:
  fixes f g :: "('v, 'a) node \<Rightarrow> 'e + 'a"
  assumes fg: "\<And>n a. f n = Inr a \<Longrightarrow> g n = Inr a"
  shows "bottom_up_replace r u e = Inr x \<Longrightarrow> r = pure_cb f \<Longrightarrow> bottom_up_replace (pure_cb g) u e = Inr x"
    and "clone_args r u es = Inr y \<Longrightarrow> r = pure_cb f \<Longrightarrow> clone_args (pure_cb g) u es = Inr y"
    and "clone_kwargs r u kes = Inr z \<Longrightarrow> r = pure_cb f \<Longrightarrow> clone_kwargs (pure_cb g) u kes = Inr z"
proof (induction r u e and r u es and r u kes arbitrary: x and y and z
    rule: bottom_up_replace_clone_args_clone_kwargs.induct)
  case (1 r u l)
  then show ?case by (cases x) (auto simp: fg)
next
  case (2 r u op args kws)
  then show ?case by (cases x) (auto simp: sbind_eq_Inr fg)
next
  case (4 r u e es)
  then show ?case by (auto simp: sbind_eq_Inr)
next
  case (6 r u k e kes)
  then show ?case by (auto simp: sbind_eq_Inr)
qed simp_all

lemma clone_args_pure_rev:
  "list_all2 (\<lambda>e a. bottom_up_replace (pure_cb f) () e = Inr (a, ())) es as \<Longrightarrow>
     clone_args (pure_cb f) () es = Inr (as, ())"
  by (induction es arbitrary: as) (auto simp: list_all2_Cons1)

lemma clone_kwargs_pure_rev:
  "list_all2 (\<lambda>(k, e) (k', a). k = k' \<and> bottom_up_replace (pure_cb f) () e = Inr (a, ())) kes ks \<Longrightarrow>
     clone_kwargs (pure_cb f) () kes = Inr (ks, ())"
  by (induction kes arbitrary: ks) (auto simp: list_all2_Cons1)

text \<open>C2: the clone-and-replace walk of bottom_up_replace is equivalent to the direct post-order evaluator the design notes propose: running the post-order instruction list of a tree on an empty stack calls the callback on the same nodes, in the same order, threads the same state, raises the same first exception, and leaves exactly the translated result on the stack.\<close>

theorem exec_postfix_equiv:
  "exec r (postfix e) [] s = sbind (bottom_up_replace r s e) (\<lambda>a s'. Inr ([a], s'))"
  using exec_postfix(1) [of r e "[]" "[]" s] by simp

text \<open>C1: an instrumented callback that records every node it is given observes a post-order walk: each node of the tree is handed to the callback exactly once, every call after all its arguments, positional arguments before keyword arguments, left to right, and the recorded call carries the operator, the number of positional arguments and the keyword names of the source node.\<close>

theorem bottom_up_replace_trace:
  assumes "bottom_up_replace (logged f) log e = Inr (a, log')"
  shows "\<exists>calls. log' = log @ calls \<and> map shape calls = postfix e \<and> length calls = nodes e"
proof -
  have step: "\<And>lg n a lg'. logged f lg n = Inr (a, lg') \<Longrightarrow> lg' = lg @ [n]"
    by (auto simp: logged_def ebind_eq_Inr)
  have "\<exists>calls. log' = log @ calls \<and> map shape calls = postfix e"
    by (rule bottom_up_trace_general(1) [OF step assms])
  then show ?thesis by (metis length_map length_postfix(1))
qed

text \<open>C3: when Translator.translate fails, the exception is a single ValueError that names the original top-level expression and chains, as its cause, an exception the node-level callback itself raised; no raw internal exception escapes.\<close>

theorem translate_error_wrapped:
  "translate tr s e = Inl err \<Longrightarrow> \<exists>c s' n. err = TranslationFailed e c \<and> tr s' n = Inl c"
  by (auto simp: translate_def split: sum.splits dest: bottom_up_error_origin(1))

text \<open>C4: translating a function-call node with the DelegatingTranslator first translates every positional and keyword argument, then resolves the implementation in the operator registry from the dtypes of the translated positional arguments (keyword arguments take no part in the signature), and hands the translated values and the resolved implementation to the backend hook translate_function, whose result is the result.\<close>

theorem delegating_call:
  assumes "translate (pure_cb (delegating_translate h reg)) () (Call op args kws) = Inr (v, ())"
  shows "\<exists>tvs ktvs impl.
    list_all2 (\<lambda>e tv. translate (pure_cb (delegating_translate h reg)) () e = Inr (tv, ())) args tvs \<and>
    list_all2 (\<lambda>(k, e) (k', tv). k = k' \<and> translate (pure_cb (delegating_translate h reg)) () e = Inr (tv, ()))
      kws ktvs \<and>
    get_implementation reg op (map tv_dtype tvs) = Inr impl \<and>
    translate_function h op tvs ktvs (map tv_value tvs) impl = Inr v"
proof -
  from assms obtain tvs u1 ktvs u2 where ca: "clone_args (pure_cb (delegating_translate h reg)) () args = Inr (tvs, u1)"
    and ck: "clone_kwargs (pure_cb (delegating_translate h reg)) u1 kws = Inr (ktvs, u2)"
    and call: "delegating_translate h reg (NCall op tvs ktvs) = Inr v"
    by (auto simp: translate_Inr sbind_eq_Inr)
  from ca have "list_all2 (\<lambda>e tv. translate (pure_cb (delegating_translate h reg)) () e = Inr (tv, ())) args tvs"
    by (auto simp: translate_Inr dest: clone_args_pure)
  moreover from ck have "list_all2 (\<lambda>(k, e) (k', tv). k = k' \<and>
      translate (pure_cb (delegating_translate h reg)) () e = Inr (tv, ())) kws ktvs"
    by (auto simp: translate_Inr dest: clone_kwargs_pure)
  moreover from call obtain impl where "get_implementation reg op (map tv_dtype tvs) = Inr impl"
      "translate_function h op tvs ktvs (map tv_value tvs) impl = Inr v"
    by (auto split: sum.splits)
  ultimately show ?thesis by blast
qed

subsection \<open>Witnesses\<close>

theorem bottom_up_replace_trace_witness:
  "bottom_up_replace (logged (\<lambda>n :: (unit, nat) node. (Inr (0::nat) :: unit error + nat))) []
     (Call ''__add__'' [Leaf (Lit (LInt 1)), Leaf (Lit (LInt 2))] [(''k'', Leaf (Lit (LStr ''x'')))])
   = Inr (0, [NLeaf (Lit (LInt 1)), NLeaf (Lit (LInt 2)), NLeaf (Lit (LStr ''x'')),
              NCall ''__add__'' [0, 0] [(''k'', 0)]]) \<and>
   (\<exists>calls. [NLeaf (Lit (LInt 1)), NLeaf (Lit (LInt 2)), NLeaf (Lit (LStr ''x'')),
              NCall ''__add__'' [0, 0] [(''k'', 0)]] = [] @ calls \<and>
     map shape calls = postfix (Call ''__add__'' [Leaf (Lit (LInt 1)), Leaf (Lit (LInt 2))]
                                  [(''k'', Leaf (Lit (LStr ''x'')))]) \<and>
     length calls = nodes (Call ''__add__'' [Leaf (Lit (LInt 1)), Leaf (Lit (LInt 2))]
                                  [(''k'', Leaf (Lit (LStr ''x'')))] :: unit expr))"
proof -
  have h: "bottom_up_replace (logged (\<lambda>n :: (unit, nat) node. (Inr (0::nat) :: unit error + nat))) []
     (Call ''__add__'' [Leaf (Lit (LInt 1)), Leaf (Lit (LInt 2))] [(''k'', Leaf (Lit (LStr ''x'')))])
   = Inr (0, [NLeaf (Lit (LInt 1)), NLeaf (Lit (LInt 2)), NLeaf (Lit (LStr ''x'')),
              NCall ''__add__'' [0, 0] [(''k'', 0)]])"
    by (simp add: logged_def)
  note c = bottom_up_replace_trace [OF h]
  show ?thesis using h c by simp
qed

theorem translate_error_wrapped_witness:
  "translate (pure_cb (\<lambda>n :: (unit, nat) node. (Inl (KeyError ''x'') :: unit error + nat))) () (Leaf (Lit (LInt 1)))
     = Inl (TranslationFailed (Leaf (Lit (LInt 1))) (KeyError ''x'')) \<and>
   (\<exists>c s' n. TranslationFailed (Leaf (Lit (LInt 1))) (KeyError ''x'') = TranslationFailed (Leaf (Lit (LInt 1))) c \<and>
      pure_cb (\<lambda>n :: (unit, nat) node. (Inl (KeyError ''x'') :: unit error + nat)) s' n = Inl c)"
proof -
  have h: "translate (pure_cb (\<lambda>n :: (unit, nat) node. (Inl (KeyError ''x'') :: unit error + nat))) () (Leaf (Lit (LInt 1)))
     = Inl (TranslationFailed (Leaf (Lit (LInt 1))) (KeyError ''x''))"
    by (simp add: translate_def pure_cb_def)
  note c = translate_error_wrapped [OF h]
  show ?thesis by (intro conjI h c)
qed

theorem delegating_call_witness:
  "\<exists>tvs ktvs impl.
    list_all2 (\<lambda>e tv. translate (pure_cb (delegating_translate (\<lparr>translate_col = \<lambda>c. Inl (KeyError (col_name c)),
        translate_function = \<lambda>op tvs ktvs vs impl. Inr (TypedValue (0::int) (ti_rtype impl)),
        translate_literal = \<lambda>l. (case l of Lit (LInt i) \<Rightarrow> Inr (Some (TypedValue i ''int'')) | _ \<Rightarrow> Inr None)\<rparr> :: (unit, int) delegating_hooks)
        [(''shift'', [\<lparr>impl_sig = \<lparr>sig_args = [DVar ''T'', DT ''int''], sig_ret = DVar ''T''\<rparr>,
                   impl_fn = (\<lambda>_. None) :: int list \<Rightarrow> int option, impl_ftype = FWindow\<rparr>])])) () e = Inr (tv, ()))
      [Leaf (Lit (LInt 5)), Leaf (Lit (LInt 1))] tvs \<and>
    list_all2 (\<lambda>(k, e) (k', tv). k = k' \<and> translate (pure_cb (delegating_translate (\<lparr>translate_col = \<lambda>c. Inl (KeyError (col_name c)),
        translate_function = \<lambda>op tvs ktvs vs impl. Inr (TypedValue (0::int) (ti_rtype impl)),
        translate_literal = \<lambda>l. (case l of Lit (LInt i) \<Rightarrow> Inr (Some (TypedValue i ''int'')) | _ \<Rightarrow> Inr None)\<rparr> :: (unit, int) delegating_hooks)
        [(''shift'', [\<lparr>impl_sig = \<lparr>sig_args = [DVar ''T'', DT ''int''], sig_ret = DVar ''T''\<rparr>,
                   impl_fn = (\<lambda>_. None) :: int list \<Rightarrow> int option, impl_ftype = FWindow\<rparr>])])) () e = Inr (tv, ()))
      [] ktvs \<and>
    get_implementation [(''shift'', [\<lparr>impl_sig = \<lparr>sig_args = [DVar ''T'', DT ''int''], sig_ret = DVar ''T''\<rparr>,
                   impl_fn = (\<lambda>_. None) :: int list \<Rightarrow> int option, impl_ftype = FWindow\<rparr>])] ''shift'' (map tv_dtype tvs) = Inr impl \<and>
    translate_function (\<lparr>translate_col = \<lambda>c. Inl (KeyError (col_name c)),
        translate_function = \<lambda>op tvs ktvs vs impl. Inr (TypedValue (0::int) (ti_rtype impl)),
        translate_literal = \<lambda>l. (case l of Lit (LInt i) \<Rightarrow> Inr (Some (TypedValue i ''int'')) | _ \<Rightarrow> Inr None)\<rparr> :: (unit, int) delegating_hooks) ''shift'' tvs ktvs (map tv_value tvs) impl =
      Inr (TypedValue 0 ''int'')"
proof -
  have h: "translate (pure_cb (delegating_translate (\<lparr>translate_col = \<lambda>c. Inl (KeyError (col_name c)),
        translate_function = \<lambda>op tvs ktvs vs impl. Inr (TypedValue (0::int) (ti_rtype impl)),
        translate_literal = \<lambda>l. (case l of Lit (LInt i) \<Rightarrow> Inr (Some (TypedValue i ''int'')) | _ \<Rightarrow> Inr None)\<rparr> :: (unit, int) delegating_hooks)
        [(''shift'', [\<lparr>impl_sig = \<lparr>sig_args = [DVar ''T'', DT ''int''], sig_ret = DVar ''T''\<rparr>,
                   impl_fn = (\<lambda>_. None) :: int list \<Rightarrow> int option, impl_ftype = FWindow\<rparr>])])) () (Call ''shift'' [Leaf (Lit (LInt 5)), Leaf (Lit (LInt 1))] [] :: unit expr) = Inr (TypedValue 0 ''int'', ())"
    by (simp add: translate_def pure_cb_def get_implementation_def typed_def sig_matches_def TypedValue_def)
  show ?thesis by (rule delegating_call [OF h])
qed

end
