(* ===== verification/Values.thy ===== *)
theory Values
  imports Prelude "HOL-Library.Product_Lexorder" "HOL-Library.Char_ord"
begin

text \<open>
  Cell values of a pandas frame as the backend sees them: Python ints, bools, strings,
  and the missing value (\<open>NaN\<close>) that a left or right merge inserts.  Values are
  ordered as \<open>sort_values\<close> orders one column: numbers, bools and strings by their
  natural order (a column holds one kind), missing values last.  A sort key is a value
  with its direction; in descending order the values are reversed but missing values
  still come last (\<open>na_position='last'\<close>).
\<close>

datatype val = VInt int | VBool bool | VStr string | VNull

fun val_enc :: "val \<Rightarrow> nat \<times> int \<times> bool \<times> string" where
  "val_enc (VInt i) = (0, i, False, [])"
| "val_enc (VBool b) = (1, 0, b, [])"
| "val_enc (VStr s) = (2, 0, False, s)"
| "val_enc VNull = (3, 0, False, [])"

instantiation val :: linorder
begin

definition less_eq_val :: "val \<Rightarrow> val \<Rightarrow> bool" where
  "less_eq_val a b \<longleftrightarrow> val_enc a \<le> val_enc b"

definition less_val :: "val \<Rightarrow> val \<Rightarrow> bool" where
  "less_val a b \<longleftrightarrow> val_enc a < val_enc b"

instance
proof
  have inj: "val_enc a = val_enc b \<Longrightarrow> a = b" for a b
    by (cases a; cases b) auto
  fix x y z :: val
  show "x < y \<longleftrightarrow> x \<le> y \<and> \<not> y \<le> x" by (auto simp: less_eq_val_def less_val_def)
  show "x \<le> x" by (simp add: less_eq_val_def)
  show "x \<le> y \<Longrightarrow> y \<le> z \<Longrightarrow> x \<le> z" by (auto simp: less_eq_val_def)
  show "x \<le> y \<Longrightarrow> y \<le> x \<Longrightarrow> x = y" by (auto simp: less_eq_val_def intro: inj)
  show "x \<le> y \<or> y \<le> x" by (auto simp: less_eq_val_def)
qed

end

datatype skey = KAsc val | KDesc val

fun skey_le :: "skey \<Rightarrow> skey \<Rightarrow> bool" where
  "skey_le (KAsc a) (KAsc b) \<longleftrightarrow> a \<le> b"
| "skey_le (KDesc a) (KDesc b) \<longleftrightarrow> b = VNull \<or> (a \<noteq> VNull \<and> b \<le> a)"
| "skey_le (KAsc a) (KDesc b) \<longleftrightarrow> True"
| "skey_le (KDesc a) (KAsc b) \<longleftrightarrow> False"

instantiation skey :: linorder
begin

definition less_eq_skey :: "skey \<Rightarrow> skey \<Rightarrow> bool" where
  "less_eq_skey a b \<longleftrightarrow> skey_le a b"

definition less_skey :: "skey \<Rightarrow> skey \<Rightarrow> bool" where
  "less_skey a b \<longleftrightarrow> skey_le a b \<and> \<not> skey_le b a"

instance
proof
  fix x y z :: skey
  show "x < y \<longleftrightarrow> x \<le> y \<and> \<not> y \<le> x" by (simp add: less_eq_skey_def less_skey_def)
  show "x \<le> x" by (cases x) (simp_all add: less_eq_skey_def)
  show "x \<le> y \<Longrightarrow> y \<le> z \<Longrightarrow> x \<le> z"
    by (cases x; cases y; cases z) (auto simp: less_eq_skey_def)
  show "x \<le> y \<Longrightarrow> y \<le> x \<Longrightarrow> x = y"
    by (cases x; cases y) (auto simp: less_eq_skey_def)
  show "x \<le> y \<or> y \<le> x"
    by (cases x; cases y) (auto simp: less_eq_skey_def)
qed

end

end
