(* ===== verification/Frame.thy ===== *)
theory Frame
  imports Values "HOL-Library.Multiset"
begin

text \<open>
  The pandas primitives the backend calls, on a column-major frame: an ordered list of
  named columns of equal length.  A backend value is a whole column (\<open>Series\<close>) or a
  Python scalar.  Where pandas raises, a primitive returns \<open>None\<close> and the table layer
  names the exception.  \<open>sort_values(kind='mergesort')\<close> is a stable sort of the
  row positions by the key columns, most significant first, each in its own
  direction; \<open>merge\<close> is modelled for \<open>how\<close> in \<open>inner\<close>, \<open>left\<close> and \<open>right\<close>
  (rows in the order pandas documents: left keys' order, right keys' order for
  \<open>right\<close>), with \<open>NaN\<close> filling an unmatched side.  Sorting a key column that mixes
  kinds of cells and merging a string key with a numeric key raise, as in pandas.
  \<open>outer\<close> is not modelled (the model reports it as failing); \<open>cross\<close> with key
  columns raises in pandas too.
\<close>

datatype pval = Series "val list" | Scalar val

record frame =
  fcols :: "(string \<times> val list) list"
  nrows :: nat

definition frame_wf :: "frame \<Rightarrow> bool" where
  "frame_wf f \<longleftrightarrow> distinct (map fst (fcols f)) \<and> list_all (\<lambda>(k, c). length c = nrows f) (fcols f)"

text \<open>\<open>df[k]\<close>\<close>

definition get_col :: "frame \<Rightarrow> string \<Rightarrow> val list option" where
  "get_col f k = map_of (fcols f) k"

text \<open>\<open>df.assign(k=v)\<close>: a series replaces the column in place or is appended; a scalar is
  broadcast to every row.\<close>

definition assign_col :: "frame \<Rightarrow> string \<Rightarrow> pval \<Rightarrow> frame option" where
  "assign_col f k v =
     (case v of
        Series c \<Rightarrow> if length c = nrows f then Some (f\<lparr>fcols := AList.update k c (fcols f)\<rparr>) else None
      | Scalar x \<Rightarrow> Some (f\<lparr>fcols := AList.update k (replicate (nrows f) x) (fcols f)\<rparr>))"

fun assign :: "frame \<Rightarrow> (string \<times> pval) list \<Rightarrow> frame option" where
  "assign f [] = Some f"
| "assign f ((k, v) # kvs) = (case assign_col f k v of None \<Rightarrow> None | Some f' \<Rightarrow> assign f' kvs)"

text \<open>\<open>df.loc[mask]\<close> with a boolean series of the frame's length.\<close>

fun is_vbool :: "val \<Rightarrow> bool" where
  "is_vbool (VBool b) = True"
| "is_vbool _ = False"

definition mask_rows :: "bool list \<Rightarrow> 'a list \<Rightarrow> 'a list" where
  "mask_rows m xs = map snd (filter fst (zip m xs))"

definition loc_mask :: "frame \<Rightarrow> val list \<Rightarrow> frame option" where
  "loc_mask f cond =
     (if length cond = nrows f \<and> list_all is_vbool cond
      then (let m = map (\<lambda>v. v = VBool True) cond in
            Some \<lparr>fcols = map (\<lambda>(k, c). (k, mask_rows m c)) (fcols f), nrows = count_list m True\<rparr>)
      else None)"

text \<open>The kind of a cell, as Python compares it: a missing value has none.  An object
  column whose cells are of two kinds cannot be sorted (Python raises \<open>TypeError\<close> on
  \<open>'<'\<close> between an int and a str), and merging a column of strings with a column of
  numbers raises pandas' \<open>ValueError\<close> ("You are trying to merge on int64 and object
  columns").\<close>

datatype vkind = KInt | KBool | KStr

primrec val_kind :: "val \<Rightarrow> vkind option" where
  "val_kind (VInt i) = Some KInt"
| "val_kind (VBool b) = Some KBool"
| "val_kind (VStr s) = Some KStr"
| "val_kind VNull = None"

definition one_kind :: "val list \<Rightarrow> bool" where
  "one_kind c \<longleftrightarrow> (\<forall>v \<in> set c. \<forall>w \<in> set c. val_kind v = None \<or> val_kind w = None \<or> val_kind v = val_kind w)"

definition str_col :: "val list \<Rightarrow> bool" where
  "str_col c \<longleftrightarrow> (\<exists>v \<in> set c. val_kind v = Some KStr) \<and> (\<forall>v \<in> set c. val_kind v \<in> {None, Some KStr})"

definition num_col :: "val list \<Rightarrow> bool" where
  "num_col c \<longleftrightarrow> (\<exists>v \<in> set c. val_kind v \<noteq> None) \<and> (\<forall>v \<in> set c. val_kind v \<noteq> Some KStr)"

definition merge_compatible :: "val list \<Rightarrow> val list \<Rightarrow> bool" where
  "merge_compatible a b \<longleftrightarrow> \<not> (str_col a \<and> num_col b) \<and> \<not> (num_col a \<and> str_col b)"

text \<open>\<open>df.sort_values(by=ks, ascending=ascs, kind='mergesort')\<close>\<close>

definition row_key :: "val list list \<Rightarrow> bool list \<Rightarrow> nat \<Rightarrow> skey list" where
  "row_key cols ascs i = map2 (\<lambda>c asc. if asc then KAsc (c ! i) else KDesc (c ! i)) cols ascs"

definition sort_perm :: "val list list \<Rightarrow> bool list \<Rightarrow> nat \<Rightarrow> nat list" where
  "sort_perm cols ascs n = sort_key (row_key cols ascs) [0..<n]"

definition reindex :: "frame \<Rightarrow> nat list \<Rightarrow> frame" where
  "reindex f p = \<lparr>fcols = map (\<lambda>(k, c). (k, map (\<lambda>i. c ! i) p)) (fcols f), nrows = length p\<rparr>"

definition sort_values :: "frame \<Rightarrow> string list \<Rightarrow> bool list \<Rightarrow> frame option" where
  "sort_values f ks ascs =
     (case those (map (get_col f) ks) of
        None \<Rightarrow> None
      | Some cols \<Rightarrow>
          if list_all one_kind cols then Some (reindex f (sort_perm cols ascs (nrows f))) else None)"

text \<open>\<open>df.merge(right, how, left_on, right_on)\<close>: the row pairs, then the combined columns.\<close>

definition key_at :: "val list list \<Rightarrow> nat \<Rightarrow> val list" where
  "key_at cols i = map (\<lambda>c. c ! i) cols"

definition merge_pairs ::
    "val list list \<Rightarrow> nat \<Rightarrow> val list list \<Rightarrow> nat \<Rightarrow> string \<Rightarrow> (nat option \<times> nat option) list option" where
  "merge_pairs lk nl rk nr how =
     (let matches_r = (\<lambda>i. filter (\<lambda>j. key_at lk i = key_at rk j) [0..<nr]);
          matches_l = (\<lambda>j. filter (\<lambda>i. key_at lk i = key_at rk j) [0..<nl]) in
      if how = ''inner'' then Some (concat (map (\<lambda>i. map (\<lambda>j. (Some i, Some j)) (matches_r i)) [0..<nl]))
      else if how = ''left'' then
        Some (concat (map (\<lambda>i. if matches_r i = [] then [(Some i, None)]
                              else map (\<lambda>j. (Some i, Some j)) (matches_r i)) [0..<nl]))
      else if how = ''right'' then
        Some (concat (map (\<lambda>j. if matches_l j = [] then [(None, Some j)]
                              else map (\<lambda>i. (Some i, Some j)) (matches_l j)) [0..<nr]))
      else None)"

definition pick :: "val list \<Rightarrow> nat option \<Rightarrow> val" where
  "pick c i = (case i of None \<Rightarrow> VNull | Some i \<Rightarrow> c ! i)"

definition merge :: "frame \<Rightarrow> frame \<Rightarrow> string \<Rightarrow> string list \<Rightarrow> string list \<Rightarrow> frame option" where
  "merge l r how lon ron =
     (case (those (map (get_col l) lon), those (map (get_col r) ron)) of
        (Some lk, Some rk) \<Rightarrow>
          if set (map fst (fcols l)) \<inter> set (map fst (fcols r)) \<noteq> {} then None
          else if \<not> list_all (\<lambda>(a, b). merge_compatible a b) (zip lk rk) then None
          else (case merge_pairs lk (nrows l) rk (nrows r) how of
                  None \<Rightarrow> None
                | Some ps \<Rightarrow> Some \<lparr>fcols = map (\<lambda>(k, c). (k, map (\<lambda>p. pick c (fst p)) ps)) (fcols l) @
                                         map (\<lambda>(k, c). (k, map (\<lambda>p. pick c (snd p)) ps)) (fcols r),
                                 nrows = length ps\<rparr>)
      | _ \<Rightarrow> None)"

text \<open>\<open>df[[k1, ..., kn]]\<close> and \<open>df.rename(columns=m)\<close>\<close>

definition select_cols :: "frame \<Rightarrow> string list \<Rightarrow> frame option" where
  "select_cols f ks =
     (case those (map (get_col f) ks) of
        None \<Rightarrow> None
      | Some cs \<Rightarrow> Some (f\<lparr>fcols := zip ks cs\<rparr>))"

definition rename_cols :: "frame \<Rightarrow> (string \<rightharpoonup> string) \<Rightarrow> frame" where
  "rename_cols f m = f\<lparr>fcols := map (\<lambda>(k, c). (case m k of None \<Rightarrow> k | Some k' \<Rightarrow> k', c)) (fcols f)\<rparr>"

text \<open>The column \<open>assign\<close> stores for a value: the series itself, or the scalar broadcast.\<close>

definition series_of :: "pval \<Rightarrow> nat \<Rightarrow> val list" where
  "series_of v n = (case v of Series c \<Rightarrow> c | Scalar x \<Rightarrow> replicate n x)"

text \<open>A row-wise operation applied to every column (what \<open>loc\<close> and \<open>reindex\<close> do).\<close>

definition map_rows :: "(val list \<Rightarrow> val list) \<Rightarrow> nat \<Rightarrow> frame \<Rightarrow> frame" where
  "map_rows g n f = \<lparr>fcols = map (\<lambda>(k, c). (k, g c)) (fcols f), nrows = n\<rparr>"

subsection \<open>Properties of the primitives\<close>

text \<open>The sort permutation is a permutation of the row positions, sorted by the row keys,
  stable, and the only permutation with these three properties.\<close>

lemma frame_wf_lengths: "frame_wf f \<Longrightarrow> get_col f k = Some c \<Longrightarrow> length c = nrows f"
  by (auto simp: frame_wf_def get_col_def list_all_iff dest: map_of_SomeD)

lemma sort_perm_mset: "mset (sort_perm cols ascs n) = mset [0..<n]"
  by (simp add: sort_perm_def)

lemma sort_perm_set: "set (sort_perm cols ascs n) = {..<n}"
  by (metis atLeast0LessThan set_mset_mset set_upt sort_perm_mset)

lemma sort_perm_length: "length (sort_perm cols ascs n) = n"
  by (simp add: sort_perm_def)

lemma sort_perm_sorted: "sorted (map (row_key cols ascs) (sort_perm cols ascs n))"
  by (simp add: sort_perm_def)

lemma sort_perm_stable:
  "filter (\<lambda>i. row_key cols ascs i = k) (sort_perm cols ascs n) = filter (\<lambda>i. row_key cols ascs i = k) [0..<n]"
  by (simp add: sort_perm_def sort_key_stable)

lemma get_col_reindex: "get_col (reindex f p) k = map_option (\<lambda>c. map (\<lambda>i. c ! i) p) (get_col f k)"
  by (simp add: get_col_def reindex_def map_of_map case_prod_beta)

lemma frame_wf_reindex: "frame_wf f \<Longrightarrow> frame_wf (reindex f p)"
  by (simp add: frame_wf_def reindex_def list_all_iff case_prod_beta comp_def)

lemma get_col_loc_mask:
  "loc_mask f cond = Some f' \<Longrightarrow>
     get_col f' k = map_option (mask_rows (map (\<lambda>v. v = VBool True) cond)) (get_col f k)"
  by (auto simp: loc_mask_def get_col_def map_of_map case_prod_beta Let_def split: if_splits)

lemma length_mask_rows: "length m = length xs \<Longrightarrow> length (mask_rows m xs) = count_list m True"
proof (induction m arbitrary: xs)
  case Nil then show ?case by (simp add: mask_rows_def)
next
  case (Cons b m) then show ?case by (cases xs) (auto simp: mask_rows_def)
qed

lemma frame_wf_loc_mask: "frame_wf f \<Longrightarrow> loc_mask f cond = Some f' \<Longrightarrow> frame_wf f'"
  unfolding frame_wf_def loc_mask_def
  by (auto simp: list_all_iff comp_def case_prod_beta Let_def intro!: length_mask_rows split: if_splits)
     (metis snd_conv)

lemma frame_wf_assign_col: "frame_wf f \<Longrightarrow> assign_col f k v = Some f' \<Longrightarrow> frame_wf f'"
  by (auto simp: frame_wf_def assign_col_def list_all_iff distinct_update dest!: set_update_subset [THEN subsetD]
           split: pval.splits if_splits)

lemma frame_wf_assign: "frame_wf f \<Longrightarrow> assign f kvs = Some f' \<Longrightarrow> frame_wf f'"
  by (induction f kvs rule: assign.induct) (auto split: option.splits dest: frame_wf_assign_col)

text \<open>Which column names each primitive keeps, adds or leaves untouched.\<close>

lemma names_reindex: "map fst (fcols (reindex f p)) = map fst (fcols f)"
  by (simp add: reindex_def comp_def case_prod_beta)

lemma names_loc_mask: "loc_mask f c = Some f' \<Longrightarrow> map fst (fcols f') = map fst (fcols f)"
  by (auto simp: loc_mask_def Let_def comp_def case_prod_beta split: if_splits)

lemma assign_col_update:
  "assign_col f k v = Some f' \<Longrightarrow> \<exists>c. f' = f\<lparr>fcols := AList.update k c (fcols f)\<rparr>"
  by (cases v) (auto simp: assign_col_def split: if_splits)

lemma names_assign_col:
  assumes "assign_col f k v = Some f'"
  shows "set (map fst (fcols f')) = insert k (set (map fst (fcols f)))"
proof -
  obtain c where "f' = f\<lparr>fcols := AList.update k c (fcols f)\<rparr>"
    using assign_col_update [OF assms] by blast
  then show ?thesis by (simp add: AList.dom_update)
qed

lemma names_assign:
  "assign f kvs = Some f' \<Longrightarrow> set (map fst (fcols f')) = set (map fst (fcols f)) \<union> set (map fst kvs)"
proof (induction f kvs rule: assign.induct)
  case (2 f k v kvs)
  then obtain f1 where f1: "assign_col f k v = Some f1" and r: "assign f1 kvs = Some f'"
    by (auto split: option.splits)
  have "set (map fst (fcols f1)) = insert k (set (map fst (fcols f)))"
    using f1 by (rule names_assign_col)
  then show ?case using 2(1) [OF f1 r] by auto
qed simp

lemma get_col_assign_col:
  "assign_col f k v = Some f' \<Longrightarrow> k' \<noteq> k \<Longrightarrow> get_col f' k' = get_col f k'"
  by (auto dest!: assign_col_update simp: get_col_def update_conv')

lemma get_col_assign_other:
  "assign f kvs = Some f' \<Longrightarrow> k \<notin> set (map fst kvs) \<Longrightarrow> get_col f' k = get_col f k"
  by (induction f kvs arbitrary: f' rule: assign.induct) (auto split: option.splits dest: get_col_assign_col)

lemma merge_shape:
  assumes "merge l r h lon ron = Some f"
  shows "map fst (fcols f) = map fst (fcols l) @ map fst (fcols r) \<and>
         set (map fst (fcols l)) \<inter> set (map fst (fcols r)) = {} \<and>
         list_all (\<lambda>(k, c). length c = nrows f) (fcols f)"
  using assms by (auto simp: merge_def comp_def case_prod_beta list_all_iff split: option.splits if_splits)

lemma frame_wf_merge: "frame_wf l \<Longrightarrow> frame_wf r \<Longrightarrow> merge l r h lon ron = Some f \<Longrightarrow> frame_wf f"
  unfolding frame_wf_def by (auto dest!: merge_shape)

lemma get_col_assign_in:
  "assign f kvs = Some f' \<Longrightarrow> k \<in> set (map fst kvs) \<Longrightarrow> get_col f' k \<noteq> None"
proof -
  assume a: "assign f kvs = Some f'" and k: "k \<in> set (map fst kvs)"
  then have "k \<in> set (map fst (fcols f'))" using names_assign [OF a] by blast
  then show "get_col f' k \<noteq> None" by (simp add: get_col_def map_of_eq_None_iff)
qed

text \<open>Row operations commute with column selection and renaming.\<close>

lemma reindex_map_rows: "reindex f p = map_rows (\<lambda>c. map (\<lambda>i. c ! i) p) (length p) f"
  by (simp add: reindex_def map_rows_def)

lemma loc_mask_map_rows:
  "loc_mask f cond = Some f' \<Longrightarrow>
     f' = map_rows (mask_rows (map (\<lambda>v. v = VBool True) cond)) (count_list (map (\<lambda>v. v = VBool True) cond) True) f"
  by (simp add: loc_mask_def map_rows_def Let_def split: if_splits)

lemma loc_mask_Some_iff:
  "loc_mask f cond \<noteq> None \<longleftrightarrow> length cond = nrows f \<and> list_all is_vbool cond"
  by (simp add: loc_mask_def Let_def)

lemma get_col_map_rows: "get_col (map_rows g n f) k = map_option g (get_col f k)"
  by (simp add: get_col_def map_rows_def map_of_map)

lemma those_map_option: "those (map (\<lambda>k. map_option g (h k)) ks) = map_option (map g) (those (map h ks))"
  by (induction ks) (auto split: option.splits simp: option.map_comp comp_def)

lemma select_cols_map_rows:
  "select_cols (map_rows g n f) ks = map_option (map_rows g n) (select_cols f ks)"
proof -
  have "get_col (map_rows g n f) = (\<lambda>k. map_option g (get_col f k))"
    by (rule ext) (simp add: get_col_map_rows)
  then have "those (map (get_col (map_rows g n f)) ks) = map_option (map g) (those (map (get_col f) ks))"
    using those_map_option [of g "get_col f" ks] by simp
  then show ?thesis
    by (simp add: select_cols_def map_rows_def zip_map2 split: option.splits)
qed

lemma map_keys_vals_commute:
  "map (\<lambda>(k, c). (r k, c)) (map (\<lambda>(k, c). (k, g c)) xs) = map (\<lambda>(k, c). (k, g c)) (map (\<lambda>(k, c). (r k, c)) xs)"
  by (induction xs) auto

lemma rename_cols_map_rows: "rename_cols (map_rows g n f) m = map_rows g n (rename_cols f m)"
  using map_keys_vals_commute [of "\<lambda>k. case m k of None \<Rightarrow> k | Some k' \<Rightarrow> k'" g "fcols f"]
  by (simp add: rename_cols_def map_rows_def)

lemma nrows_select_cols: "select_cols f ks = Some f' \<Longrightarrow> nrows f' = nrows f"
  by (auto simp: select_cols_def split: option.splits)

lemma nrows_rename_cols [simp]: "nrows (rename_cols f m) = nrows f"
  by (simp add: rename_cols_def)

lemma map_rename_zip: "map (\<lambda>(k, c). (r k, c)) xs = zip (map r (map fst xs)) (map snd xs)"
  by (induction xs) auto

lemma those_map_Some: "those (map Some xs) = Some xs"
  by (induction xs) auto

lemma those_map_of_zip:
  "distinct ks \<Longrightarrow> length ks = length vs \<Longrightarrow> those (map (map_of (zip ks vs)) ks) = Some vs"
proof -
  assume d: "distinct ks" and l: "length ks = length vs"
  have "map (map_of (zip ks vs)) ks = map Some vs"
    using d l by (intro nth_equalityI) (auto simp: map_of_zip_nth)
  then show ?thesis by (simp add: those_map_Some)
qed

lemma assign_col_Some:
  "assign_col f k v = Some f' \<longleftrightarrow>
     (case v of Series c \<Rightarrow> length c = nrows f | Scalar x \<Rightarrow> True) \<and>
     f' = f\<lparr>fcols := AList.update k (series_of v (nrows f)) (fcols f)\<rparr>"
  by (auto simp: assign_col_def series_of_def split: pval.splits)

lemma get_col_assign_col_self: "assign_col f k v = Some f' \<Longrightarrow> get_col f' k = Some (series_of v (nrows f))"
  by (simp add: assign_col_Some get_col_def update_conv')

lemma nrows_assign_col: "assign_col f k v = Some f' \<Longrightarrow> nrows f' = nrows f"
  by (simp add: assign_col_Some)

lemma those_eq_Some: "those xs = Some ys \<longleftrightarrow> xs = map Some ys"
proof (induction xs arbitrary: ys)
  case (Cons x xs)
  then show ?case by (cases ys) (auto split: option.splits)
qed auto

end
