(* ===== verification/PandasTable.thy ===== *)
theory PandasTable
  imports Frame Translator
begin

text \<open>
  The pandas backend of \<open>src/pdtransform/eager/pandas_table.py\<close>.  A table is the
  record \<open>ptable\<close>: its name, the frame \<open>df\<close> whose columns are stored under
  collision-free keys, \<open>df_name_mapping\<close> from column identity to storage key, and
  the bookkeeping of the abstract table layer it inherits (\<open>col_dtype\<close>,
  \<open>named_cols\<close>, \<open>col_expr\<close>, the selected columns) and the operator registry.
  \<open>uuid.uuid4()\<close> never repeats: the operations that create columns take the start
  \<open>s\<close> of a supply of fresh identities \<open>s, s+1, ...\<close> as an argument.
  Verbs mutate the table in place, so each returns the table after the call together
  with the exception it raised, if any: a verb that raises halfway leaves what it had
  already changed.
\<close>

type_synonym ptv = "pval typed_value"
type_synonym pexpr = "ptv expr"
type_synonym perror = "ptv error"

record np_dtype =
  np_kind :: char
  np_name :: string

record ptable =
  tname :: string
  df :: frame
  df_name_mapping :: "uuid \<rightharpoonup> string"
  col_dtypes :: "uuid \<rightharpoonup> dtype"
  named_cols :: "string \<rightharpoonup> uuid"
  col_expr :: "uuid \<rightharpoonup> pexpr"
  selected_cols :: "(string \<times> uuid) list"
  operator_registry :: "pval registry"

subsection \<open>Column identities and storage keys\<close>

fun hex_str :: "nat \<Rightarrow> string" where
  "hex_str n = (if n < 16 then [''0123456789abcdef'' ! n] else hex_str (n div 16) @ [''0123456789abcdef'' ! (n mod 16)])"

declare hex_str.simps [simp del]

definition uuid_to_str :: "uuid \<Rightarrow> string" where
  "uuid_to_str u = hex_str u"

definition init_key :: "string \<Rightarrow> string \<Rightarrow> uuid \<Rightarrow> string" where
  "init_key t c u = t @ ''_'' @ c @ ''_'' @ uuid_to_str u"

definition mutate_key :: "string \<Rightarrow> string \<Rightarrow> uuid \<Rightarrow> string" where
  "mutate_key t c u = t @ ''_mutate_'' @ c @ ''_'' @ uuid_to_str u"

subsection \<open>Construction\<close>

definition convert_dtype :: "np_dtype \<Rightarrow> dtype" where
  "convert_dtype d =
     (if np_kind d = CHR ''b'' then ''bool''
      else if np_kind d = CHR ''i'' then ''int''
      else if np_kind d = CHR ''f'' then ''float''
      else if np_kind d = CHR ''O'' then ''object''
      else np_name d)"

text \<open>pandas' dtype of a column (library behaviour): ints, bools, ints with \<open>NaN\<close>
  promoted to float, anything else object.\<close>

fun is_vint :: "val \<Rightarrow> bool" where
  "is_vint (VInt i) = True"
| "is_vint _ = False"

definition infer_dtype :: "val list \<Rightarrow> np_dtype" where
  "infer_dtype c =
     (if c \<noteq> [] \<and> list_all is_vint c then \<lparr>np_kind = CHR ''i'', np_name = ''int64''\<rparr>
      else if c \<noteq> [] \<and> list_all is_vbool c then \<lparr>np_kind = CHR ''b'', np_name = ''bool''\<rparr>
      else if c \<noteq> [] \<and> list_all (\<lambda>v. v = VNull \<or> is_vint v) c then \<lparr>np_kind = CHR ''f'', np_name = ''float64''\<rparr>
      else \<lparr>np_kind = CHR ''O'', np_name = ''object''\<rparr>)"

definition pandas_init :: "pval registry \<Rightarrow> nat \<Rightarrow> string \<Rightarrow> frame \<Rightarrow> ptable" where
  "pandas_init reg s name f =
     (let cs = fcols f;
          us = [s..<s + length cs];
          cols = map2 (\<lambda>u (k, c). \<lparr>col_uuid = u, col_name = k, col_dtype = convert_dtype (infer_dtype c),
                                   col_table = name\<rparr>) us cs;
          keys = map2 (\<lambda>u (k, c). init_key name k u) us cs in
      \<lparr>tname = name,
       df = rename_cols f (map_of (zip (map fst cs) keys)),
       df_name_mapping = map_of (zip us keys),
       col_dtypes = map_of (map (\<lambda>c. (col_uuid c, col_dtype c)) cols),
       named_cols = map_of (zip (map fst cs) us),
       col_expr = map_of (map (\<lambda>c. (col_uuid c, Leaf (Col c))) cols),
       selected_cols = zip (map fst cs) us,
       operator_registry = reg\<rparr>)"

subsection \<open>The expression translator\<close>

text \<open>\<open>ExpressionTranslator._translate\<close>: a column reads its storage key's series; a call
  resolves its implementation from the arguments' dtypes and applies it, typing the result
  with the implementation's return dtype; a \<open>TypedValue\<close> is kept; an \<open>int\<close> literal is
  \<open>'int'\<close> and a \<open>str\<close> literal \<open>'str'\<close>.  \<open>bool\<close> is a subclass of \<open>int\<close>, so
  a \<open>bool\<close> literal takes the \<open>int\<close> branch.\<close>

fun expr_translate :: "ptable \<Rightarrow> (ptv, ptv) node \<Rightarrow> perror + ptv" where
  "expr_translate t (NLeaf (Col c)) =
     (case df_name_mapping t (col_uuid c) of
        None \<Rightarrow> Inl (KeyError (uuid_to_str (col_uuid c)))
      | Some k \<Rightarrow>
          (case get_col (df t) k of
             None \<Rightarrow> Inl (KeyError k)
           | Some s \<Rightarrow> Inr (TypedValue (Series s) (col_dtype c))))"
| "expr_translate t (NCall op args kws) =
     (case get_implementation (operator_registry t) op (map tv_dtype args) of
        Inl e \<Rightarrow> Inl (RegistryError e)
      | Inr impl \<Rightarrow>
          (case ti_fn impl (map tv_value args) of
             None \<Rightarrow> Inl (ImplementationError op)
           | Some v \<Rightarrow> Inr (TypedValue v (ti_rtype impl))))"
| "expr_translate t (NLeaf (Typed tv)) = Inr tv"
| "expr_translate t (NLeaf (Lit (LInt i))) = Inr (TypedValue (Scalar (VInt i)) ''int'')"
| "expr_translate t (NLeaf (Lit (LBool b))) = Inr (TypedValue (Scalar (VBool b)) ''int'')"
| "expr_translate t (NLeaf (Lit (LStr s))) = Inr (TypedValue (Scalar (VStr s)) ''str'')"
| "expr_translate t (NLeaf (Lit (LOther ty))) = Inl (NotImplemented ty)"
| "expr_translate t (NLeaf (LambdaCol n)) = Inl (NotImplemented ''LambdaColumn'')"

text \<open>\<open>self.translator.translate(expr)\<close>\<close>

definition pd_translate :: "ptable \<Rightarrow> pexpr \<Rightarrow> perror + ptv" where
  "pd_translate t e = ebind (translate (pure_cb (expr_translate t)) () e) (\<lambda>(v, u). Inr v)"

subsection \<open>The join translator\<close>

text \<open>\<open>JoinTranslator._translate\<close>: a column stays a column, \<open>__eq__\<close> of two columns
  is one pair, \<open>__and__\<close> chains the pairs of its arguments; anything else is rejected.
  A \<open>Column\<close> is not iterable, so chaining one raises \<open>TypeError\<close>.\<close>

datatype jval = JCol column | JPairs "(column \<times> column) list"

fun jpairs :: "jval \<Rightarrow> (column \<times> column) list option" where
  "jpairs (JPairs ps) = Some ps"
| "jpairs (JCol c) = None"

fun join_translate :: "(ptv, jval) node \<Rightarrow> perror + jval" where
  "join_translate (NLeaf (Col c)) = Inr (JCol c)"
| "join_translate (NCall op args kws) =
     (if op = ''__eq__'' then
        (case args of
           a1 # a2 # _ \<Rightarrow>
             (case (a1, a2) of
                (JCol c1, JCol c2) \<Rightarrow> Inr (JPairs [(c1, c2)])
              | _ \<Rightarrow> Inl AssertionError)
         | _ \<Rightarrow> Inl IndexError)
      else if op = ''__and__'' then
        (case those (map jpairs args) of
           None \<Rightarrow> Inl (TypeError ''Column object is not iterable'')
         | Some pss \<Rightarrow> Inr (JPairs (concat pss)))
      else Inl InvalidOnClause)"
| "join_translate (NLeaf _) = Inl InvalidOnClause"

subsection \<open>Verbs\<close>

definition lookup_key :: "ptable \<Rightarrow> column \<Rightarrow> perror + string" where
  "lookup_key t c =
     (case df_name_mapping t (col_uuid c) of
        None \<Rightarrow> Inl (KeyError (uuid_to_str (col_uuid c)))
      | Some k \<Rightarrow> Inr k)"

definition collect :: "ptable \<Rightarrow> perror + frame" where
  "collect t =
     (case emap (\<lambda>(n, u). case df_name_mapping t u of
                            None \<Rightarrow> Inl (KeyError (uuid_to_str u))
                          | Some k \<Rightarrow> Inr (k, n)) (selected_cols t) of
        Inl e \<Rightarrow> Inl e
      | Inr kns \<Rightarrow>
          (let m = dict_of kns in
           case select_cols (df t) (map fst m) of
             None \<Rightarrow> Inl (KeyError ''column'')
           | Some f \<Rightarrow> Inr (rename_cols f (map_of m))))"

definition alias_table :: "ptable \<Rightarrow> nat \<Rightarrow> string \<Rightarrow> perror + ptable" where
  "alias_table t s name = ebind (collect t) (\<lambda>f. Inr (pandas_init (operator_registry t) s name f))"

definition mutate :: "ptable \<Rightarrow> (string \<times> pexpr) list \<Rightarrow> perror option \<times> ptable" where
  "mutate t kwargs =
     (case emap (\<lambda>(k, v). case named_cols t k of
                            None \<Rightarrow> Inl (KeyError k)
                          | Some u \<Rightarrow> Inr (u, k, v)) kwargs of
        Inl e \<Rightarrow> (Some e, t)
      | Inr ukv0 \<Rightarrow>
          (let ukv = dict_of ukv0;
               t1 = t\<lparr>df_name_mapping := df_name_mapping t ++
                        map_of (map (\<lambda>(u, k, v). (u, mutate_key (tname t) k u)) ukv)\<rparr> in
           case emap (\<lambda>(u, k, v). ebind (pd_translate t1 v) (\<lambda>tv. Inr (u, k, tv))) ukv of
             Inl e \<Rightarrow> (Some e, t1)
           | Inr tvs \<Rightarrow>
               (case assign (df t1) (map (\<lambda>(u, k, tv). (mutate_key (tname t) k u, tv_value tv)) tvs) of
                  None \<Rightarrow> (Some (ValueError ''Length of values does not match''), t1)
                | Some f \<Rightarrow> (None, t1\<lparr>df := f, col_dtypes := col_dtypes t1 ++
                                         map_of (map (\<lambda>(u, k, tv). (u, tv_dtype tv)) tvs)\<rparr>))))"

definition pd_filter :: "ptable \<Rightarrow> pexpr list \<Rightarrow> perror option \<times> ptable" where
  "pd_filter t args =
     (case args of
        [] \<Rightarrow> (None, t)
      | a # as \<Rightarrow>
          (case pd_translate t (foldl sym_and a as) of
             Inl e \<Rightarrow> (Some e, t)
           | Inr tv \<Rightarrow>
               (case tv_iter tv of
                  (condition, cond_type) \<Rightarrow>
                    if cond_type \<noteq> ''bool'' then (Some AssertionError, t)
                    else (case condition of
                            Series c \<Rightarrow>
                              (case loc_mask (df t) c of
                                 None \<Rightarrow> (Some (KeyError ''loc''), t)
                               | Some f \<Rightarrow> (None, t\<lparr>df := f\<rparr>))
                          | Scalar v \<Rightarrow> (Some (KeyError ''loc''), t)))))"

definition arrange :: "ptable \<Rightarrow> (column \<times> bool) list \<Rightarrow> perror option \<times> ptable" where
  "arrange t ords =
     (if ords = [] then (Some (ValueError ''not enough values to unpack''), t)
      else (case emap (\<lambda>(c, asc). lookup_key t c) ords of
              Inl e \<Rightarrow> (Some e, t)
            | Inr ks \<Rightarrow>
                (case sort_values (df t) ks (map snd ords) of
                   None \<Rightarrow> (Some (if those (map (get_col (df t)) ks) = None then KeyError ''sort_values''
                                 else TypeError ''sort_values''), t)
                 | Some f \<Rightarrow> (None, t\<lparr>df := f\<rparr>))))"

text \<open>One step of the loop over the translated \<open>on\<close> clause: the pair is oriented
  left table first; a pair not across the two tables raises.\<close>

definition orient_pair :: "ptable \<Rightarrow> ptable \<Rightarrow> column \<times> column \<Rightarrow> perror + (column \<times> column)" where
  "orient_pair t right p =
     (case p of (c1, c2) \<Rightarrow>
        if col_expr t (col_uuid c1) \<noteq> None \<and> col_expr right (col_uuid c2) \<noteq> None then Inr (c1, c2)
        else if col_expr t (col_uuid c2) \<noteq> None \<and> col_expr right (col_uuid c1) \<noteq> None then Inr (c2, c1)
        else Inl JoinColumnMismatch)"

definition join :: "ptable \<Rightarrow> ptable \<Rightarrow> pexpr \<Rightarrow> string option \<Rightarrow> perror option \<times> ptable" where
  "join t right on how =
     (case translate (pure_cb join_translate) () on of
        Inl e \<Rightarrow> (Some e, t)
      | Inr (jv, u) \<Rightarrow>
          (case jpairs jv of
             None \<Rightarrow> (Some (TypeError ''Column object is not iterable''), t)
           | Some ps \<Rightarrow>
               (case emap (orient_pair t right) ps of
                  Inl e \<Rightarrow> (Some e, t)
                | Inr on_cols \<Rightarrow>
                    (case how of
                       None \<Rightarrow> (Some HowMissing, t)
                     | Some h \<Rightarrow>
                         if on_cols = [] then (Some (ValueError ''not enough values to unpack''), t)
                         else (case emap (lookup_key t) (map fst on_cols) of
                                 Inl e \<Rightarrow> (Some e, t)
                               | Inr left_on \<Rightarrow>
                                   (case emap (lookup_key right) (map snd on_cols) of
                                      Inl e \<Rightarrow> (Some e, t)
                                    | Inr right_on \<Rightarrow>
                                        (let t1 = t\<lparr>df_name_mapping := df_name_mapping t ++ df_name_mapping right\<rparr> in
                                         case merge (df t) (df right) h left_on right_on of
                                           None \<Rightarrow> (Some (ValueError ''merge''), t1)
                                         | Some f \<Rightarrow> (None, t1\<lparr>df := f\<rparr>))))))))"

text \<open>The abstract table layer's part of \<open>mutate\<close> (not under src/): every new name gets a
  fresh identity, is selected, and records its expression; then the backend's
  \<open>mutate\<close> runs.\<close>

definition mutate_verb :: "ptable \<Rightarrow> nat \<Rightarrow> (string \<times> pexpr) list \<Rightarrow> perror option \<times> ptable" where
  "mutate_verb t s kwargs =
     (let us = [s..<s + length kwargs];
          t1 = t\<lparr>named_cols := named_cols t ++ map_of (zip (map fst kwargs) us),
                 col_expr := col_expr t ++ map_of (zip us (map snd kwargs)),
                 selected_cols := foldl (\<lambda>sel (nm, u). AList.update nm u sel) (selected_cols t)
                                    (zip (map fst kwargs) us)\<rparr> in
      mutate t1 kwargs)"

subsection \<open>The registered operator\<close>

text \<open>\<open>@PandasTableImpl.register_op('str.strip', 'object -> object')\<close>: \<open>x.str.strip()\<close>
  strips every string cell and turns every other cell into \<open>NaN\<close>; the \<open>.str\<close>
  accessor raises on a column that holds no string (unless it holds only missing values).\<close>

fun str_strip_val :: "val \<Rightarrow> val" where
  "str_strip_val (VStr s) = VStr (py_strip s)"
| "str_strip_val v = VNull"

fun str_strip :: "pval list \<Rightarrow> pval option" where
  "str_strip [Series c] =
     (if (\<exists>v \<in> set c. val_kind v = Some KStr) \<or> (\<forall>v \<in> set c. v = VNull)
      then Some (Series (map str_strip_val c)) else None)"
| "str_strip _ = None"

definition pandas_registry :: "reg_error + pval registry" where
  "pandas_registry = register_all [] ''str.strip'' [''object -> object''] str_strip FScalar"

subsection \<open>Decoding a storage key\<close>

text \<open>The identity a storage key was generated from: the hexadecimal text after the last
  underscore.  It is not part of the backend; it states that keys never collide.\<close>

definition hex_digits :: string where
  "hex_digits = ''0123456789abcdef''"

fun digit_val :: "string \<Rightarrow> nat \<Rightarrow> char \<Rightarrow> nat option" where
  "digit_val [] i c = None"
| "digit_val (d # ds) i c = (if c = d then Some i else digit_val ds (Suc i) c)"

fun hex_parse :: "nat \<Rightarrow> string \<Rightarrow> nat option" where
  "hex_parse acc [] = Some acc"
| "hex_parse acc (c # cs) =
     (case digit_val hex_digits 0 c of None \<Rightarrow> None | Some d \<Rightarrow> hex_parse (16 * acc + d) cs)"

definition key_uuid :: "string \<Rightarrow> uuid option" where
  "key_uuid k =
     (let d = rev (takeWhile (\<lambda>c. c \<noteq> CHR ''_'') (rev k)) in
      if d = [] then None else hex_parse 0 d)"

text \<open>A conjunction of column equalities as a user writes it:
  \<open>(a == c) & (b == d) & ...\<close>, folded to the left like \<open>functools.reduce(operator.and_)\<close>.\<close>

definition col_eq :: "column \<times> column \<Rightarrow> pexpr" where
  "col_eq p = sym_eq (Leaf (Col (fst p))) (Leaf (Col (snd p)))"

definition eq_conj :: "column \<times> column \<Rightarrow> (column \<times> column) list \<Rightarrow> pexpr" where
  "eq_conj p ps = foldl sym_and (col_eq p) (map col_eq ps)"

subsection \<open>Lemmas\<close>

lemma digit_val_hex: "n < 16 \<Longrightarrow> digit_val hex_digits 0 (hex_digits ! n) = Some n"
proof -
  assume "n < 16"
  then have "n \<in> {0..<16}" by simp
  then show ?thesis
    by (simp add: hex_digits_def atLeastLessThan_nat_numeral) (elim disjE; simp)
qed

lemma hex_parse_append:
  "hex_parse acc (xs @ ys) = (case hex_parse acc xs of None \<Rightarrow> None | Some a \<Rightarrow> hex_parse a ys)"
  by (induction acc xs rule: hex_parse.induct) (auto split: option.splits)

lemma hex_str_eq: "hex_str n = (if n < 16 then [hex_digits ! n] else hex_str (n div 16) @ [hex_digits ! (n mod 16)])"
  by (simp add: hex_digits_def hex_str.simps)

lemma hex_parse_hex_str: "hex_parse 0 (hex_str n) = Some n"
proof (induction n rule: hex_str.induct)
  case (1 n)
  show ?case
  proof (cases "n < 16")
    case True
    then show ?thesis by (subst hex_str_eq) (simp add: digit_val_hex)
  next
    case False
    then have "hex_parse 0 (hex_str (n div 16)) = Some (n div 16)" using 1 by simp
    then show ?thesis using False
      by (subst hex_str_eq) (simp add: hex_parse_append digit_val_hex)
  qed
qed

lemma hex_str_chars: "set (hex_str n) \<subseteq> set hex_digits"
proof (induction n rule: hex_str.induct)
  case (1 n)
  have len: "length hex_digits = 16" by (simp add: hex_digits_def)
  show ?case
    using 1 by (subst hex_str_eq) (auto intro!: nth_mem simp: len)
qed

lemma hex_str_not_Nil: "hex_str n \<noteq> []"
  by (subst hex_str_eq) simp

lemma underscore_not_hex: "CHR ''_'' \<notin> set hex_digits"
  by (simp add: hex_digits_def)

lemma key_uuid_suffix: "key_uuid (p @ ''_'' @ uuid_to_str u) = Some u"
proof -
  have nu: "\<forall>c \<in> set (rev (hex_str u)). c \<noteq> CHR ''_''"
    using hex_str_chars [of u] underscore_not_hex by auto
  have "takeWhile (\<lambda>c. c \<noteq> CHR ''_'') (rev (p @ ''_'' @ hex_str u)) = rev (hex_str u)"
      proof -
    have "rev (p @ ''_'' @ hex_str u) = rev (hex_str u) @ CHR ''_'' # rev p" by simp
    then show ?thesis using takeWhile_append2 [of "rev (hex_str u)" "\<lambda>c. c \<noteq> CHR ''_''"] nu by simp
  qed
  then show ?thesis
    by (simp add: key_uuid_def uuid_to_str_def hex_parse_hex_str hex_str_not_Nil)
qed

lemma key_uuid_init_key: "key_uuid (init_key t c u) = Some u"
  using key_uuid_suffix [of "t @ ''_'' @ c"] by (simp add: init_key_def)

lemma key_uuid_mutate_key: "key_uuid (mutate_key t c u) = Some u"
  using key_uuid_suffix [of "t @ ''_mutate_'' @ c"] by (simp add: mutate_key_def)


text \<open>C15: the storage keys that the constructor and mutate generate name the identity they were generated from: decoding the key gives the identity back, whatever the table and column names.\<close>

theorem storage_key_roundtrip: "key_uuid (init_key t c u) = Some u \<and> key_uuid (mutate_key t c' u) = Some u"
  by (simp add: key_uuid_init_key key_uuid_mutate_key)

lemma pd_translate_Inr:
  "pd_translate t e = Inr tv \<longleftrightarrow> bottom_up_replace (pure_cb (expr_translate t)) () e = Inr (tv, ())"
  by (auto simp: pd_translate_def translate_Inr ebind_eq_Inr)

lemma pd_translate_Inl:
  "pd_translate t e = Inl err \<longleftrightarrow> translate (pure_cb (expr_translate t)) () e = Inl err"
  by (auto simp: pd_translate_def ebind_eq_Inl split: sum.splits)

text \<open>the pandas expression translator types an int literal as int and a str literal as str; a bool literal, being a Python int, is typed int; any other literal is rejected with NotImplementedError, chained with the expression.\<close>

lemma pd_translate_literals:
  "pd_translate t (Leaf (Lit (LInt i))) = Inr (TypedValue (Scalar (VInt i)) ''int'') \<and>
   pd_translate t (Leaf (Lit (LStr s))) = Inr (TypedValue (Scalar (VStr s)) ''str'') \<and>
   pd_translate t (Leaf (Lit (LBool b))) = Inr (TypedValue (Scalar (VBool b)) ''int'') \<and>
   pd_translate t (Leaf (Lit (LOther ty))) =
     Inl (TranslationFailed (Leaf (Lit (LOther ty))) (NotImplemented ty))"
  by (simp add: pd_translate_def translate_def pure_cb_def)

text \<open>C5: a function call translated by the pandas backend is the resolved implementation applied to the values of the translated positional arguments, typed with the implementation's return dtype and the scalar function kind, where the implementation is resolved from the dtypes of the translated positional arguments.\<close>

theorem pd_translate_call:
  assumes "pd_translate t (Call op args kws) = Inr tv"
  shows "\<exists>tvs impl v.
    list_all2 (\<lambda>e tv. pd_translate t e = Inr tv) args tvs \<and>
    get_implementation (operator_registry t) op (map tv_dtype tvs) = Inr impl \<and>
    ti_fn impl (map tv_value tvs) = Some v \<and>
    tv = TypedValue v (ti_rtype impl)"
proof -
  from assms obtain tvs u1 ktvs u2 where ca: "clone_args (pure_cb (expr_translate t)) () args = Inr (tvs, u1)"
    and call: "expr_translate t (NCall op tvs ktvs) = Inr tv"
    by (auto simp: pd_translate_Inr sbind_eq_Inr)
  from ca have "list_all2 (\<lambda>e tv. pd_translate t e = Inr tv) args tvs"
    by (auto simp: pd_translate_Inr dest: clone_args_pure)
  moreover from call obtain impl v where "get_implementation (operator_registry t) op (map tv_dtype tvs) = Inr impl"
      "ti_fn impl (map tv_value tvs) = Some v" "tv = TypedValue v (ti_rtype impl)"
    by (auto split: sum.splits option.splits)
  ultimately show ?thesis by blast
qed


text \<open>C6: when the arguments of a call translate but no signature registered for the operator matches their dtypes, the pandas translator fails with NoMatchingSignature for those dtypes, chained with the whole expression; it never falls back to another implementation.\<close>

theorem pd_translate_no_match:
  assumes args: "list_all2 (\<lambda>e tv. pd_translate t e = Inr tv) args tvs"
    and kws: "list_all2 (\<lambda>(k, e) (k', tv). k = k' \<and> pd_translate t e = Inr tv) kws ktvs"
    and known: "map_of (operator_registry t) op \<noteq> None"
    and none: "\<forall>i \<in> set (impls_of (operator_registry t) op). \<not> sig_matches (map tv_dtype tvs) i"
  shows "pd_translate t (Call op args kws) =
    Inl (TranslationFailed (Call op args kws) (RegistryError (NoMatchingSignature op (map tv_dtype tvs))))"
proof -
  have ca: "clone_args (pure_cb (expr_translate t)) () args = Inr (tvs, ())"
    using args by (intro clone_args_pure_rev) (simp add: pd_translate_Inr)
  have ck: "clone_kwargs (pure_cb (expr_translate t)) () kws = Inr (ktvs, ())"
    using kws by (intro clone_kwargs_pure_rev) (simp add: pd_translate_Inr case_prod_beta)
  have "get_implementation (operator_registry t) op (map tv_dtype tvs) =
        Inl (NoMatchingSignature op (map tv_dtype tvs))"
    using known none by (simp add: get_implementation_no_match sig_matches_iff)
  then show ?thesis
    by (simp add: pd_translate_def translate_def ca ck pure_cb_def)
qed


lemma join_col_eq: "bottom_up_replace (pure_cb join_translate) () (col_eq p) = Inr (JPairs [p], ())"
  by (cases p) (simp add: col_eq_def sym_eq_def pure_cb_def)

lemma join_sym_and:
  "bottom_up_replace (pure_cb join_translate) () a = Inr (JPairs xs, ()) \<Longrightarrow>
   bottom_up_replace (pure_cb join_translate) () b = Inr (JPairs ys, ()) \<Longrightarrow>
   bottom_up_replace (pure_cb join_translate) () (sym_and a b) = Inr (JPairs (xs @ ys), ())"
  by (simp add: sym_and_def pure_cb_def)

lemma join_eq_conj_walk:
  "bottom_up_replace (pure_cb join_translate) () (eq_conj p ps) = Inr (JPairs (p # ps), ())"
proof (induction ps rule: rev_induct)
  case Nil
  then show ?case by (simp add: eq_conj_def join_col_eq)
next
  case (snoc q ps)
  then show ?case by (simp add: eq_conj_def join_sym_and join_col_eq)
qed

lemma join_translate_call_not_col: "join_translate (NCall op as ks) \<noteq> Inr (JCol c)"
  by (auto split: list.splits jval.splits option.splits)

lemma join_walk_col:
  assumes that: "bottom_up_replace (pure_cb join_translate) u e = Inr (JCol c, u')"
  shows "e = Leaf (Col c)"
proof (cases e)
  case (Leaf l)
  then show ?thesis
    using that by (cases l) (auto simp: pure_cb_def)
next
  case (Call op args kws)
  then show ?thesis
    using that join_translate_call_not_col by (auto simp: pure_cb_def sbind_eq_Inr ebind_eq_Inr)
qed

text \<open>C7: the join translator turns a left-folded conjunction of column equalities (a == c) & (b == d) & ... into exactly the list of column pairs, in the order written.\<close>

theorem join_on_pairs:
  "translate (pure_cb join_translate) () (eq_conj p ps) = Inr (JPairs (p # ps), ())"
  by (simp add: translate_def join_eq_conj_walk)

text \<open>C9: an ON clause whose equality has a side that is not a plain column (e.g. a + b == c) makes join raise an error chained with the clause, and leaves the table unchanged.\<close>

theorem join_rejects_non_column:
  assumes "\<forall>c. e \<noteq> Leaf (Col c)"
  shows "\<exists>c. join t r (sym_eq e (Leaf (Col d))) how =
           (Some (TranslationFailed (sym_eq e (Leaf (Col d))) c), t)"
proof (cases "bottom_up_replace (pure_cb join_translate) () e")
  case (Inl c)
  then show ?thesis by (simp add: join_def translate_def sym_eq_def)
next
  case (Inr res)
  obtain v u where r: "res = (v, u)" by (cases res) blast
  have "\<forall>c. v \<noteq> JCol c"
    using Inr r assms join_walk_col by blast
  then have "join_translate (NCall ''__eq__'' [v, JCol d] []) = Inl AssertionError"
    by (cases v) auto
  then show ?thesis
    using Inr r by (simp add: join_def translate_def sym_eq_def pure_cb_def)
qed

lemma orient_pair_total:
  "col_expr t (col_uuid c1) \<noteq> None \<and> col_expr r (col_uuid c2) \<noteq> None \<or>
   col_expr t (col_uuid c2) \<noteq> None \<and> col_expr r (col_uuid c1) \<noteq> None \<Longrightarrow>
     \<exists>q. orient_pair t r (c1, c2) = Inr q"
  by (auto simp: orient_pair_def)

text \<open>C10: a join on a conjunction of cross-table column equalities with how unset raises the missing-how error and leaves the table unchanged.\<close>

theorem join_how_required:
  assumes "list_all (\<lambda>(c1, c2). col_expr t (col_uuid c1) \<noteq> None \<and> col_expr r (col_uuid c2) \<noteq> None \<or>
                               col_expr t (col_uuid c2) \<noteq> None \<and> col_expr r (col_uuid c1) \<noteq> None) (p # ps)"
  shows "join t r (eq_conj p ps) None = (Some HowMissing, t)"
proof -
  have "\<forall>x \<in> set (p # ps). \<exists>q. orient_pair t r x = Inr q"
  proof
    fix x assume x: "x \<in> set (p # ps)"
    obtain c1 c2 where xc: "x = (c1, c2)" by (cases x)
    have "col_expr t (col_uuid c1) \<noteq> None \<and> col_expr r (col_uuid c2) \<noteq> None \<or>
          col_expr t (col_uuid c2) \<noteq> None \<and> col_expr r (col_uuid c1) \<noteq> None"
      using assms x unfolding list_all_iff xc by fast
    then show "\<exists>q. orient_pair t r x = Inr q" unfolding xc by (rule orient_pair_total)
  qed
  then obtain on_cols where oc: "emap (orient_pair t r) (p # ps) = Inr on_cols"
    by (rule emap_total [THEN exE])
  show ?thesis
    unfolding join_def translate_def join_eq_conj_walk by (simp only: jpairs.simps option.case oc sum.case prod.case)
qed


lemma orient_pair_Inr:
  "orient_pair t r p = Inr q \<Longrightarrow>
     (q = p \<or> q = prod.swap p) \<and> col_expr t (col_uuid (fst q)) \<noteq> None \<and> col_expr r (col_uuid (snd q)) \<noteq> None"
  by (cases p) (auto simp: orient_pair_def split: if_splits)

lemma join_Some_steps:
  assumes "join t r on (Some h) = (None, t')"
  obtains ps on_cols lon ron where
    "translate (pure_cb join_translate) () on = Inr (JPairs ps, ())"
    "emap (orient_pair t r) ps = Inr on_cols" "on_cols \<noteq> []"
    "emap (lookup_key t) (map fst on_cols) = Inr lon"
    "emap (lookup_key r) (map snd on_cols) = Inr ron"
    "merge (df t) (df r) h lon ron = Some (df t')"
    "t' = t\<lparr>df_name_mapping := df_name_mapping t ++ df_name_mapping r, df := df t'\<rparr>"
proof -
  obtain jv where tr: "translate (pure_cb join_translate) () on = Inr (jv, ())"
    using assms by (cases "translate (pure_cb join_translate) () on") (auto simp: join_def)
  obtain ps where ps: "jv = JPairs ps"
    using assms tr by (cases jv) (auto simp: join_def)
  obtain on_cols where oc: "emap (orient_pair t r) ps = Inr on_cols"
    using assms tr ps by (cases "emap (orient_pair t r) ps") (auto simp: join_def)
  have ne: "on_cols \<noteq> []"
    using assms tr ps oc by (auto simp: join_def)
  obtain lon where lon: "emap (lookup_key t) (map fst on_cols) = Inr lon"
    using assms tr ps oc ne by (cases "emap (lookup_key t) (map fst on_cols)") (auto simp: join_def)
  obtain ron where ron: "emap (lookup_key r) (map snd on_cols) = Inr ron"
    using assms tr ps oc ne lon by (cases "emap (lookup_key r) (map snd on_cols)") (auto simp: join_def)
  show ?thesis
    using assms tr ps oc ne lon ron
    by (intro that [OF tr [unfolded ps] oc ne lon ron])
       (auto simp: join_def Let_def split: option.splits)
qed

text \<open>C8: a successful join translates ON into pairs, orients each pair left table first (both columns must come from different sides), looks up both sides storage keys, merges the frames on them, and extends the left table's identity-to-key mapping by the right table's; nothing else of the table changes.\<close>

theorem join_result:
  assumes "join t r on (Some h) = (None, t')"
  shows "\<exists>ps on_cols lon ron.
    translate (pure_cb join_translate) () on = Inr (JPairs ps, ()) \<and>
    list_all2 (\<lambda>p q. (q = p \<or> q = prod.swap p) \<and>
                     col_expr t (col_uuid (fst q)) \<noteq> None \<and> col_expr r (col_uuid (snd q)) \<noteq> None) ps on_cols \<and>
    on_cols \<noteq> [] \<and>
    emap (lookup_key t) (map fst on_cols) = Inr lon \<and>
    emap (lookup_key r) (map snd on_cols) = Inr ron \<and>
    merge (df t) (df r) h lon ron = Some (df t') \<and>
    t' = t\<lparr>df_name_mapping := df_name_mapping t ++ df_name_mapping r, df := df t'\<rparr>"
proof -
  obtain ps on_cols lon ron where s:
    "translate (pure_cb join_translate) () on = Inr (JPairs ps, ())"
    "emap (orient_pair t r) ps = Inr on_cols" "on_cols \<noteq> []"
    "emap (lookup_key t) (map fst on_cols) = Inr lon"
    "emap (lookup_key r) (map snd on_cols) = Inr ron"
    "merge (df t) (df r) h lon ron = Some (df t')"
    "t' = t\<lparr>df_name_mapping := df_name_mapping t ++ df_name_mapping r, df := df t'\<rparr>"
    using join_Some_steps [OF assms] by blast
  have "list_all2 (\<lambda>p q. (q = p \<or> q = prod.swap p) \<and>
          col_expr t (col_uuid (fst q)) \<noteq> None \<and> col_expr r (col_uuid (snd q)) \<noteq> None) ps on_cols"
    using s(2) by (auto simp: emap_Inr_iff elim: list_all2_mono dest: orient_pair_Inr)
  then show ?thesis using s by blast
qed


text \<open>C12: filter with a condition that translates to a non-bool dtype raises (an AssertionError, where the spec asks for TypeError) and leaves the table unchanged.\<close>

theorem filter_non_bool:
  assumes "pd_translate t (foldl sym_and a as) = Inr tv" and "tv_dtype tv \<noteq> ''bool''"
  shows "pd_filter t (a # as) = (Some AssertionError, t)"
  using assms by (simp add: pd_filter_def tv_iter_def)

text \<open>C13: whenever filter raises, the table is left exactly as it was.\<close>

theorem filter_atomic:
  assumes "pd_filter t args = (Some err, t')"
  shows "t' = t"
  using assms by (auto simp: pd_filter_def tv_iter_def split: list.splits sum.splits if_splits pval.splits option.splits)

text \<open>C11: a successful filter translates the conjunction of its conditions to a bool series of the frame's length and keeps exactly the rows where it is True, in order, in every column; nothing else of the table changes.\<close>

theorem filter_rows:
  assumes "pd_filter t (a # as) = (None, t')"
  shows "\<exists>tv c. pd_translate t (foldl sym_and a as) = Inr tv \<and> tv_dtype tv = ''bool'' \<and>
           tv_value tv = Series c \<and> length c = nrows (df t) \<and> list_all is_vbool c \<and>
           t' = t\<lparr>df := df t'\<rparr> \<and>
           nrows (df t') = count_list (map (\<lambda>v. v = VBool True) c) True \<and>
           (\<forall>k. get_col (df t') k = map_option (mask_rows (map (\<lambda>v. v = VBool True) c)) (get_col (df t) k))"
proof -
  obtain tv where tv: "pd_translate t (foldl sym_and a as) = Inr tv"
    using assms by (cases "pd_translate t (foldl sym_and a as)") (auto simp: pd_filter_def)
  obtain c where c: "tv_value tv = Series c" and b: "tv_dtype tv = ''bool''"
    using assms tv by (cases "tv_value tv") (auto simp: pd_filter_def tv_iter_def split: if_splits)
  obtain f where f: "loc_mask (df t) c = Some f" and t': "t' = t\<lparr>df := f\<rparr>"
    using assms tv c b by (auto simp: pd_filter_def tv_iter_def split: option.splits)
  have "length c = nrows (df t) \<and> list_all is_vbool c \<and> nrows f = count_list (map (\<lambda>v. v = VBool True) c) True"
    using f by (auto simp: loc_mask_def Let_def split: if_splits)
  then show ?thesis
    using tv c b t' get_col_loc_mask [OF f] by auto
qed

text \<open>C14: a successful arrange reorders the rows by a permutation of the row positions that is sorted by the key columns (most significant first, each in its own direction, missing values last) and stable: rows with equal keys keep their relative order.\<close>

theorem arrange_stable_sort:
  assumes "arrange t ords = (None, t')"
  shows "\<exists>ks cols. emap (\<lambda>(c, asc). lookup_key t c) ords = Inr ks \<and>
           those (map (get_col (df t)) ks) = Some cols \<and>
           t' = t\<lparr>df := reindex (df t) (sort_perm cols (map snd ords) (nrows (df t)))\<rparr> \<and>
           mset (sort_perm cols (map snd ords) (nrows (df t))) = mset [0..<nrows (df t)] \<and>
           sorted (map (row_key cols (map snd ords)) (sort_perm cols (map snd ords) (nrows (df t)))) \<and>
           (\<forall>i \<in> set [0..<nrows (df t)].
              filter (\<lambda>j. row_key cols (map snd ords) j = row_key cols (map snd ords) i)
                (sort_perm cols (map snd ords) (nrows (df t))) =
              filter (\<lambda>j. row_key cols (map snd ords) j = row_key cols (map snd ords) i) [0..<nrows (df t)])"
proof -
  obtain ks where ks: "emap (\<lambda>(c, asc). lookup_key t c) ords = Inr ks"
    using assms by (cases "emap (\<lambda>(c, asc). lookup_key t c) ords") (auto simp: arrange_def split: if_splits)
  obtain cols where cols: "those (map (get_col (df t)) ks) = Some cols"
    and t': "t' = t\<lparr>df := reindex (df t) (sort_perm cols (map snd ords) (nrows (df t)))\<rparr>"
    using assms ks by (auto simp: arrange_def sort_values_def split: if_splits option.splits)
  show ?thesis
    using ks cols t' sort_perm_mset sort_perm_sorted sort_perm_stable by blast
qed

end
