(* ===== verification/Invariant.thy ===== *)
theory Invariant
  imports PandasTable
begin

text \<open>
  The bookkeeping invariant of a pandas table and the tables a program can reach.
  \<open>ptable_wf s t\<close> says, for a supply of fresh identities starting at \<open>s\<close>: the frame is
  well formed; every storage key of the frame and every key of \<open>df_name_mapping\<close>
  names an identity below \<open>s\<close>, and each key of the mapping names the identity it is
  stored under; the identities the table knows (expressions, names, selection) are all
  below \<open>s\<close>.  \<open>reachable s t\<close> is generated by the constructor and by every verb,
  failing or not (a failing verb leaves its partial update in the table).
\<close>

definition key_below :: "nat \<Rightarrow> string \<Rightarrow> bool" where
  "key_below s k \<longleftrightarrow> (case key_uuid k of Some u \<Rightarrow> u < s | None \<Rightarrow> False)"

definition keys_ok :: "nat \<Rightarrow> (uuid \<rightharpoonup> string) \<Rightarrow> bool" where
  "keys_ok s m \<longleftrightarrow> (\<forall>u \<in> dom m. u < s \<and> map_option key_uuid (m u) = Some (Some u))"

definition ptable_wf :: "nat \<Rightarrow> ptable \<Rightarrow> bool" where
  "ptable_wf s t \<longleftrightarrow>
     frame_wf (df t) \<and>
     list_all (key_below s) (map fst (fcols (df t))) \<and>
     keys_ok s (df_name_mapping t) \<and>
     (\<forall>u \<in> dom (col_expr t). u < s) \<and>
     (\<forall>n \<in> dom (named_cols t). case named_cols t n of Some u \<Rightarrow> u < s | None \<Rightarrow> False) \<and>
     list_all (\<lambda>(n, u). u < s) (selected_cols t) \<and>
     distinct (map fst (selected_cols t)) \<and> distinct (map snd (selected_cols t))"

inductive reachable :: "nat \<Rightarrow> ptable \<Rightarrow> bool" where
  init: "frame_wf f \<Longrightarrow> reachable (s + length (fcols f)) (pandas_init reg s name f)"
| mutate: "reachable s t \<Longrightarrow> mutate_verb t s kws = (r, t') \<Longrightarrow> reachable (s + length kws) t'"
| filter: "reachable s t \<Longrightarrow> pd_filter t args = (r, t') \<Longrightarrow> reachable s t'"
| arrange: "reachable s t \<Longrightarrow> arrange t ords = (r, t') \<Longrightarrow> reachable s t'"
| join: "reachable s t \<Longrightarrow> reachable s' rt \<Longrightarrow> join t rt on how = (r, t') \<Longrightarrow> reachable (max s s') t'"
| alias_step: "reachable s t \<Longrightarrow> collect t = Inr f \<Longrightarrow> frame_wf f \<Longrightarrow> alias_table t s name = Inr t' \<Longrightarrow>
          reachable (s + length (fcols f)) t'"

lemma key_below_mono: "key_below s k \<Longrightarrow> s \<le> s' \<Longrightarrow> key_below s' k"
  by (auto simp: key_below_def split: option.splits)

lemma keys_okD:
  assumes "keys_ok s m" and "m u = Some k"
  shows "u < s \<and> key_uuid k = Some u"
proof -
  have "u \<in> dom m" using assms(2) by blast
  then have "u < s \<and> map_option key_uuid (m u) = Some (Some u)"
    using assms(1) unfolding keys_ok_def by blast
  then show ?thesis using assms(2) by simp
qed

lemma keys_okI: "(\<And>u k. m u = Some k \<Longrightarrow> u < s \<and> key_uuid k = Some u) \<Longrightarrow> keys_ok s m"
  unfolding keys_ok_def by fastforce

lemma keys_ok_mono: "keys_ok s m \<Longrightarrow> s \<le> s' \<Longrightarrow> keys_ok s' m"
  unfolding keys_ok_def using order_less_le_trans by blast

lemma ptable_wf_mono:
  assumes wf: "ptable_wf s t" and le: "s \<le> s'"
  shows "ptable_wf s' t"
proof -
  from wf have f: "frame_wf (df t)"
    and k: "list_all (key_below s) (map fst (fcols (df t)))"
    and m: "keys_ok s (df_name_mapping t)"
    and e: "\<forall>u \<in> dom (col_expr t). u < s"
    and n: "\<forall>n \<in> dom (named_cols t). case named_cols t n of Some u \<Rightarrow> u < s | None \<Rightarrow> False"
    and sel: "list_all (\<lambda>(n, u). u < s) (selected_cols t)"
    and d: "distinct (map fst (selected_cols t))" "distinct (map snd (selected_cols t))"
    unfolding ptable_wf_def by blast+
  have k': "list_all (key_below s') (map fst (fcols (df t)))"
    using k le by (auto simp: list_all_iff intro: key_below_mono)
  have m': "keys_ok s' (df_name_mapping t)"
    using m le by (rule keys_ok_mono)
  have e': "\<forall>u \<in> dom (col_expr t). u < s'"
    using e le order_less_le_trans by blast
  have n': "\<forall>n \<in> dom (named_cols t). case named_cols t n of Some u \<Rightarrow> u < s' | None \<Rightarrow> False"
  proof
    fix x assume x: "x \<in> dom (named_cols t)"
    then obtain u where u: "named_cols t x = Some u" by blast
    then have "u < s" using n x by force
    then show "case named_cols t x of Some u \<Rightarrow> u < s' | None \<Rightarrow> False" using u le by simp
  qed
  have sel': "list_all (\<lambda>(n, u). u < s') (selected_cols t)"
    using sel le by (auto simp: list_all_iff)
  show ?thesis
    unfolding ptable_wf_def using f k' m' e' n' sel' d by blast
qed

lemma keys_ok_inj: "keys_ok s m \<Longrightarrow> m u = Some k \<Longrightarrow> m u' = Some k \<Longrightarrow> u = u'"
  using keys_okD [of s m u k] keys_okD [of s m u' k] by simp

lemma keys_ok_add:
  assumes "keys_ok s m" and "keys_ok s m'"
  shows "keys_ok s (m ++ m')"
proof (rule keys_okI)
  fix u k assume "(m ++ m') u = Some k"
  then show "u < s \<and> key_uuid k = Some u"
    using assms by (cases "m' u") (auto dest: keys_okD)
qed

lemma map_of_zip_rename:
  "distinct xs \<Longrightarrow> length xs = length ys \<Longrightarrow>
     map (\<lambda>x. case map_of (zip xs ys) x of None \<Rightarrow> x | Some y \<Rightarrow> y) xs = ys"
proof (induction xs arbitrary: ys)
  case (Cons x xs)
  then obtain y ys' where ys: "ys = y # ys'" by (cases ys) auto
  have "map (\<lambda>z. case map_of (zip (x # xs) ys) z of None \<Rightarrow> z | Some y \<Rightarrow> y) xs =
        map (\<lambda>z. case map_of (zip xs ys') z of None \<Rightarrow> z | Some y \<Rightarrow> y) xs"
    using Cons.prems(1) ys by (intro map_cong) auto
  also have "\<dots> = ys'"
    using Cons.IH [of ys'] Cons.prems ys by simp
  finally have "map (\<lambda>z. case map_of (zip (x # xs) ys) z of None \<Rightarrow> z | Some y \<Rightarrow> y) xs = ys'" .
  then show ?case
    using ys by simp
qed simp

lemma fcols_rename_cols: "map fst (fcols (rename_cols f m)) = map (\<lambda>k. case m k of None \<Rightarrow> k | Some k' \<Rightarrow> k') (map fst (fcols f))"
  by (simp add: rename_cols_def case_prod_beta)

lemma frame_wf_rename_cols:
  "frame_wf f \<Longrightarrow> distinct (map fst (fcols (rename_cols f m))) \<Longrightarrow> frame_wf (rename_cols f m)"
  by (auto simp: frame_wf_def rename_cols_def list_all_iff case_prod_beta)

lemma zip_key_uuid:
  "map key_uuid ys = map Some xs \<Longrightarrow> (x, y) \<in> set (zip xs ys) \<Longrightarrow> key_uuid y = Some x"
proof (induction xs arbitrary: ys)
  case (Cons a xs)
  then show ?case by (cases ys) auto
qed simp

lemma init_keys_uuid:
  "map key_uuid (map2 (\<lambda>u (k, c). init_key name k u) us cs) = map Some (take (length cs) us)"
proof (induction us arbitrary: cs)
  case (Cons u us)
  then show ?case by (cases cs) (auto simp: key_uuid_init_key)
qed simp

lemma keys_ok_map_of_zip:
  "map key_uuid ys = map Some xs \<Longrightarrow> \<forall>x \<in> set xs. x < s \<Longrightarrow> keys_ok s (map_of (zip xs ys))"
  by (rule keys_okI) (auto dest: map_of_SomeD zip_key_uuid set_zip_leftD)

lemma ptable_wf_pandas_init:
  assumes f: "frame_wf f"
  shows "ptable_wf (s + length (fcols f)) (pandas_init reg s name f)"
proof -
  define cs where "cs = fcols f"
  define us where "us = [s..<s + length cs]"
  define keys where "keys = map2 (\<lambda>u (k, c). init_key name k u) us cs"
  have len: "length us = length cs" "length keys = length cs"
    by (simp_all add: us_def keys_def)
  have ku: "map key_uuid keys = map Some us"
    using init_keys_uuid [of name us cs] len by (simp add: keys_def)
  have dk: "distinct keys"
  proof -
    have "distinct (map key_uuid keys)" using ku by (simp add: us_def distinct_map)
    then show ?thesis by (simp add: distinct_map)
  qed
  have dn: "distinct (map fst cs)" using f by (simp add: frame_wf_def cs_def)
  have "map fst (fcols (rename_cols f (map_of (zip (map fst cs) keys)))) =
        map (\<lambda>k. case map_of (zip (map fst cs) keys) k of None \<Rightarrow> k | Some k' \<Rightarrow> k') (map fst cs)"
    unfolding fcols_rename_cols cs_def ..
  also have "\<dots> = keys"
    using map_of_zip_rename [OF dn, of keys] len by simp
  finally have names: "map fst (fcols (rename_cols f (map_of (zip (map fst cs) keys)))) = keys" .
  have below: "list_all (key_below (s + length cs)) keys"
  proof -
    have "key_below (s + length cs) k" if kin: "k \<in> set keys" for k
    proof -
      obtain i where i: "i < length keys" "k = keys ! i" using kin in_set_conv_nth [of k keys] by blast
      have "map key_uuid keys ! i = map Some us ! i" using ku by simp
      then have "key_uuid k = Some (us ! i)" using i len by simp
      then show ?thesis using \<open>i < length keys\<close> len by (simp add: key_below_def us_def)
    qed
    then show ?thesis by (simp add: list_all_iff)
  qed
  have ok: "keys_ok (s + length cs) (map_of (zip us keys))"
    using ku by (intro keys_ok_map_of_zip) (auto simp: us_def)
  define t where "t = pandas_init reg s name f"
  have t_df: "df t = rename_cols f (map_of (zip (map fst cs) keys))"
    and t_m: "df_name_mapping t = map_of (zip us keys)"
    and t_e: "dom (col_expr t) \<subseteq> set us"
    and t_n: "named_cols t = map_of (zip (map fst cs) us)"
    and t_s: "selected_cols t = zip (map fst cs) us"
    by (auto simp: t_def pandas_init_def Let_def cs_def us_def keys_def dom_map_of_conv_image_fst
             dest: set_zip_leftD)
  have "frame_wf (df t)"
    using f dk names by (simp add: t_df frame_wf_rename_cols)
  moreover have "list_all (key_below (s + length cs)) (map fst (fcols (df t)))"
    using below names by (simp add: t_df)
  moreover have "\<forall>u \<in> dom (col_expr t). u < s + length cs"
    using t_e by (auto simp: us_def)
  moreover have "\<forall>n \<in> dom (named_cols t). case named_cols t n of Some u \<Rightarrow> u < s + length cs | None \<Rightarrow> False"
  proof
    fix x assume "x \<in> dom (named_cols t)"
    then obtain u where u: "named_cols t x = Some u" by blast
    then have "u \<in> set us" unfolding t_n by (blast dest: map_of_SomeD set_zip_rightD)
    then show "case named_cols t x of Some u \<Rightarrow> u < s + length cs | None \<Rightarrow> False"
      using u by (simp add: us_def)
  qed
  moreover have "list_all (\<lambda>(n, u). u < s + length cs) (selected_cols t)"
    by (auto simp: t_s us_def list_all_iff dest!: set_zip_rightD)
  moreover have "distinct (map fst (selected_cols t)) \<and> distinct (map snd (selected_cols t))"
    using dn len by (simp add: t_s us_def)
  ultimately show ?thesis
    using ok by (simp add: ptable_wf_def t_m flip: t_def cs_def)
qed

lemma ptable_wf_set_df:
  assumes "ptable_wf s t" and "frame_wf f" and "map fst (fcols f) = map fst (fcols (df t))"
  shows "ptable_wf s (t\<lparr>df := f\<rparr>)"
  using assms by (simp add: ptable_wf_def)

lemma ptable_wf_pd_filter:
  assumes wf: "ptable_wf s t" and st: "pd_filter t args = (r, t')"
  shows "ptable_wf s t'"
proof (cases "t' = t")
  case False
  then obtain c f where m: "loc_mask (df t) c = Some f" and t': "t' = t\<lparr>df := f\<rparr>"
    using st by (auto simp: pd_filter_def tv_iter_def split: list.splits sum.splits if_splits pval.splits option.splits)
  have "frame_wf (df t)" using wf by (simp add: ptable_wf_def)
  then show ?thesis
    unfolding t' using wf frame_wf_loc_mask [OF _ m] names_loc_mask [OF m] by (simp add: ptable_wf_set_df)
qed (use wf in simp)

lemma sort_values_reindex: "sort_values f ks ascs = Some f' \<Longrightarrow> \<exists>p. f' = reindex f p"
  by (auto simp: sort_values_def split: option.splits if_splits)

lemma ptable_wf_arrange:
  assumes wf: "ptable_wf s t" and st: "arrange t ords = (r, t')"
  shows "ptable_wf s t'"
proof (cases "t' = t")
  case False
  then obtain ks f where "sort_values (df t) ks (map snd ords) = Some f" and t': "t' = t\<lparr>df := f\<rparr>"
    using st by (auto simp: arrange_def split: if_splits sum.splits option.splits)
  then obtain p where f: "f = reindex (df t) p" by (blast dest: sort_values_reindex)
  have "frame_wf (df t)" using wf by (simp add: ptable_wf_def)
  then show ?thesis
    unfolding t' f using wf by (simp add: ptable_wf_set_df frame_wf_reindex names_reindex)
qed (use wf in simp)

lemma join_cases:
  assumes "join t rt on how = (r, t')"
  shows "t' = t \<or> t' = t\<lparr>df_name_mapping := df_name_mapping t ++ df_name_mapping rt\<rparr> \<or>
         (\<exists>h lon ron f. merge (df t) (df rt) h lon ron = Some f \<and>
            t' = t\<lparr>df_name_mapping := df_name_mapping t ++ df_name_mapping rt, df := f\<rparr>)"
  using assms
  by (auto simp: join_def Let_def split: sum.splits option.splits if_splits prod.splits jval.splits)

lemma ptable_wf_add_mapping:
  "ptable_wf s t \<Longrightarrow> keys_ok s m \<Longrightarrow> ptable_wf s (t\<lparr>df_name_mapping := df_name_mapping t ++ m\<rparr>)"
  by (simp add: ptable_wf_def keys_ok_add)

lemma ptable_wf_join:
  assumes wt: "ptable_wf s t" and wr: "ptable_wf s' rt" and st: "join t rt on how = (r, t')"
  shows "ptable_wf (max s s') t'"
proof -
  have wt': "ptable_wf (max s s') t" and wr': "ptable_wf (max s s') rt"
    using wt wr by (auto intro: ptable_wf_mono)
  have ok: "keys_ok (max s s') (df_name_mapping rt)"
    using wr' by (simp add: ptable_wf_def)
  have t1: "ptable_wf (max s s') (t\<lparr>df_name_mapping := df_name_mapping t ++ df_name_mapping rt\<rparr>)"
    using wt' ok by (rule ptable_wf_add_mapping)
  consider "t' = t" | "t' = t\<lparr>df_name_mapping := df_name_mapping t ++ df_name_mapping rt\<rparr>"
    | h lon ron f where "merge (df t) (df rt) h lon ron = Some f"
        "t' = t\<lparr>df_name_mapping := df_name_mapping t ++ df_name_mapping rt, df := f\<rparr>"
    using join_cases [OF st] by blast
  then show ?thesis
  proof cases
    case 3
    have "frame_wf f"
      using 3(1) wt' wr' by (auto simp: ptable_wf_def intro: frame_wf_merge)
    moreover have "map fst (fcols f) = map fst (fcols (df t)) @ map fst (fcols (df rt))"
      using merge_shape [OF 3(1)] by blast
    moreover have "list_all (key_below (max s s')) (map fst (fcols f))"
      using calculation(2) wt' wr' by (simp add: ptable_wf_def)
    ultimately show ?thesis
      using t1 unfolding 3(2) by (simp add: ptable_wf_def)
  qed (use wt' t1 in simp_all)
qed

lemma mutate_cases:
  assumes st: "mutate t kws = (r, t')"
  shows "t' = t \<or>
    (\<exists>ukv :: (uuid \<times> string \<times> pexpr) list.
      (\<forall>x \<in> set ukv. named_cols t (fst (snd x)) = Some (fst x) \<and> fst (snd x) \<in> set (map fst kws)) \<and>
      (t' = t\<lparr>df_name_mapping := df_name_mapping t ++
                 map_of (map (\<lambda>(u, k, v). (u, mutate_key (tname t) k u)) ukv)\<rparr> \<or>
       (\<exists>(tvs :: (uuid \<times> string \<times> ptv) list) f. (\<forall>x \<in> set tvs. \<exists>v. (fst x, fst (snd x), v) \<in> set ukv) \<and>
          assign (df t) (map (\<lambda>(u, k, tv). (mutate_key (tname t) k u, tv_value tv)) tvs) = Some f \<and>
          t' = t\<lparr>df_name_mapping := df_name_mapping t ++
                   map_of (map (\<lambda>(u, k, v). (u, mutate_key (tname t) k u)) ukv), df := f,
                 col_dtypes := col_dtypes t ++ map_of (map (\<lambda>(u, k, tv). (u, tv_dtype tv)) tvs)\<rparr>)))"
proof (cases "emap (\<lambda>(k, v). case named_cols t k of None \<Rightarrow> Inl (KeyError k :: perror) | Some u \<Rightarrow> Inr (u, k, v)) kws")
  case (Inl e)
  then show ?thesis using st unfolding mutate_def Inl by simp
next
  case (Inr ukv0)
  have src: "\<forall>x \<in> set (dict_of ukv0). named_cols t (fst (snd x)) = Some (fst x) \<and> fst (snd x) \<in> set (map fst kws)"
  proof
    fix x assume "x \<in> set (dict_of ukv0)"
    then have "x \<in> set ukv0" using set_dict_of by blast
    then obtain kv where "kv \<in> set kws" "(case kv of (k, v) \<Rightarrow> case named_cols t k of None \<Rightarrow> Inl (KeyError k :: perror)
                                          | Some u \<Rightarrow> Inr (u, k, v)) = Inr x"
      using emap_Inr_set [OF Inr] by blast
    then show "named_cols t (fst (snd x)) = Some (fst x) \<and> fst (snd x) \<in> set (map fst kws)"
      by (cases kv rule: prod.exhaust) (force split: option.splits)
  qed
  define m where "m = map_of (map (\<lambda>(u, k, v). (u, mutate_key (tname t) k u)) (dict_of ukv0))"
  have tv: "\<forall>x \<in> set tvs. \<exists>v. (fst x, fst (snd x), v) \<in> set (dict_of ukv0)"
    if Inr2: "emap (\<lambda>(u, k, v). ebind (pd_translate (t\<lparr>df_name_mapping := df_name_mapping t ++ m\<rparr>) v)
                  (\<lambda>tv. Inr (u, k, tv))) (dict_of ukv0) = Inr tvs" for tvs
  proof
    fix x assume "x \<in> set tvs"
    then obtain y where "y \<in> set (dict_of ukv0)"
      "(case y of (u, k, v) \<Rightarrow> ebind (pd_translate (t\<lparr>df_name_mapping := df_name_mapping t ++ m\<rparr>) v)
                  (\<lambda>tv. Inr (u, k, tv))) = Inr x"
      using emap_Inr_set [OF Inr2] by blast
    then show "\<exists>v. (fst x, fst (snd x), v) \<in> set (dict_of ukv0)"
      by (cases y rule: prod_cases3) (auto simp: ebind_eq_Inr)
  qed
  define t1 where "t1 = t\<lparr>df_name_mapping := df_name_mapping t ++ m\<rparr>"
  define tr where "tr = emap (\<lambda>(u, k, v). ebind (pd_translate t1 v) (\<lambda>tv. Inr (u, k, tv))) (dict_of ukv0)"
  have st1: "(case tr of
                Inl e \<Rightarrow> (Some e, t1)
              | Inr tvs \<Rightarrow>
                  (case assign (df t1) (map (\<lambda>(u, k, tv). (mutate_key (tname t) k u, tv_value tv)) tvs) of
                     None \<Rightarrow> (Some (ValueError ''Length of values does not match''), t1)
                   | Some f \<Rightarrow> (None, t1\<lparr>df := f, col_dtypes := col_dtypes t1 ++
                                           map_of (map (\<lambda>(u, k, tv). (u, tv_dtype tv)) tvs)\<rparr>))) = (r, t')"
    using st Inr unfolding mutate_def Let_def t1_def m_def tr_def by simp
  have "t' = t\<lparr>df_name_mapping := df_name_mapping t ++ m\<rparr> \<or>
        (\<exists>(tvs :: (uuid \<times> string \<times> ptv) list) f. (\<forall>x \<in> set tvs. \<exists>v. (fst x, fst (snd x), v) \<in> set (dict_of ukv0)) \<and>
          assign (df t) (map (\<lambda>(u, k, tv). (mutate_key (tname t) k u, tv_value tv)) tvs) = Some f \<and>
          t' = t\<lparr>df_name_mapping := df_name_mapping t ++ m, df := f,
                 col_dtypes := col_dtypes t ++ map_of (map (\<lambda>(u, k, tv). (u, tv_dtype tv)) tvs)\<rparr>)"
  proof (cases tr)
    case (Inl e)
    then show ?thesis using st1 by (simp add: t1_def)
  next
    case (Inr tvs)
    note tvs = tv [OF Inr [unfolded tr_def t1_def]]
    show ?thesis
    proof (cases "assign (df t1) (map (\<lambda>(u, k, tv). (mutate_key (tname t) k u, tv_value tv)) tvs)")
      case None
      then show ?thesis using st1 Inr by (simp add: t1_def)
    next
      case (Some f)
      then have "assign (df t) (map (\<lambda>(u, k, tv). (mutate_key (tname t) k u, tv_value tv)) tvs) = Some f \<and>
          t' = t\<lparr>df_name_mapping := df_name_mapping t ++ m, df := f,
                 col_dtypes := col_dtypes t ++ map_of (map (\<lambda>(u, k, tv). (u, tv_dtype tv)) tvs)\<rparr>"
        using st1 Inr by (simp add: t1_def)
      then show ?thesis
        using tvs by blast
    qed
  qed
  then show ?thesis
    using src unfolding m_def by blast
qed

lemma ptable_wf_named: "ptable_wf s t \<Longrightarrow> named_cols t n = Some u \<Longrightarrow> u < s"
  unfolding ptable_wf_def by (metis domI option.simps(5))

lemma keys_ok_mutate_keys:
  assumes wf: "ptable_wf s t"
    and src: "\<forall>x \<in> set ukv. named_cols t (fst (snd x)) = Some (fst x)"
  shows "keys_ok s (map_of (map (\<lambda>(u, k, v). (u, mutate_key (tname t) k u)) ukv))"
proof (rule keys_okI)
  fix u k assume "map_of (map (\<lambda>(u, k, v). (u, mutate_key (tname t) k u)) ukv) u = Some k"
  then have "(u, k) \<in> set (map (\<lambda>(u, k, v). (u, mutate_key (tname t) k u)) ukv)"
    by (rule map_of_SomeD)
  then obtain n v where x: "(u, n, v) \<in> set ukv" and k: "k = mutate_key (tname t) n u" by auto
  have "u < s" using src x ptable_wf_named [OF wf] by fastforce
  then show "u < s \<and> key_uuid k = Some u" by (simp add: k key_uuid_mutate_key)
qed

lemma ptable_wf_mutate:
  assumes wf: "ptable_wf s t" and st: "mutate t kws = (r, t')"
  shows "ptable_wf s t'"
  using mutate_cases [OF st]
proof (elim disjE exE conjE)
  fix ukv :: "(uuid \<times> string \<times> pexpr) list"
  assume src0: "\<forall>x \<in> set ukv. named_cols t (fst (snd x)) = Some (fst x) \<and> fst (snd x) \<in> set (map fst kws)"
  then have src: "\<forall>x \<in> set ukv. named_cols t (fst (snd x)) = Some (fst x)" by blast
  define m where "m = map_of (map (\<lambda>(u, k, v). (u, mutate_key (tname t) k u)) ukv)"
  have ok: "keys_ok s m" unfolding m_def using wf src by (rule keys_ok_mutate_keys)
  have t1: "ptable_wf s (t\<lparr>df_name_mapping := df_name_mapping t ++ m\<rparr>)"
    using wf ok by (rule ptable_wf_add_mapping)
  {
    assume "t' = t\<lparr>df_name_mapping := df_name_mapping t ++ m\<rparr>"
    then show ?thesis using t1 by simp
  next
    fix tvs :: "(uuid \<times> string \<times> ptv) list" and f
    assume tv: "\<forall>x \<in> set tvs. \<exists>v. (fst x, fst (snd x), v) \<in> set ukv"
      and a: "assign (df t) (map (\<lambda>(u, k, tv). (mutate_key (tname t) k u, tv_value tv)) tvs) = Some f"
      and t': "t' = t\<lparr>df_name_mapping := df_name_mapping t ++ m, df := f,
                 col_dtypes := col_dtypes t ++ map_of (map (\<lambda>(u, k, tv). (u, tv_dtype tv)) tvs)\<rparr>"
    have "frame_wf f" using a wf by (auto simp: ptable_wf_def intro: frame_wf_assign)
    moreover have "list_all (key_below s) (map fst (fcols f))"
    proof -
      have "\<forall>x \<in> set tvs. key_below s (mutate_key (tname t) (fst (snd x)) (fst x))"
      proof
        fix x assume x: "x \<in> set tvs"
        obtain v where "(fst x, fst (snd x), v) \<in> set ukv" using tv x by blast
        then have "fst x < s" using src ptable_wf_named [OF wf] by fastforce
        then show "key_below s (mutate_key (tname t) (fst (snd x)) (fst x))"
          by (simp add: key_below_def key_uuid_mutate_key)
      qed
      moreover have "list_all (key_below s) (map fst (fcols (df t)))" using wf by (simp add: ptable_wf_def)
      ultimately show ?thesis using names_assign [OF a] by (auto simp: list_all_iff)
    qed
    ultimately show ?thesis using t1 unfolding t' by (simp add: ptable_wf_def)
  }
qed (use wf in simp)

text \<open>Selecting fresh identities one name after another keeps names and identities distinct.\<close>

lemma foldl_update_fresh:
  "distinct (map fst sel) \<Longrightarrow> distinct (map snd sel) \<Longrightarrow> (\<forall>u \<in> snd ` set sel. u < s) \<Longrightarrow>
   length ns = k \<Longrightarrow>
   distinct (map fst (foldl (\<lambda>sel (nm, u). AList.update nm u sel) sel (zip ns [s..<s + k]))) \<and>
   distinct (map snd (foldl (\<lambda>sel (nm, u). AList.update nm u sel) sel (zip ns [s..<s + k])))"
proof (induction ns arbitrary: sel s k)
  case (Cons n ns)
  then obtain k' where k: "k = Suc k'" "length ns = k'" by auto
  have z: "zip (n # ns) [s..<s + k] = (n, s) # zip ns [Suc s..<Suc s + k']"
    using k by (simp add: upt_conv_Cons)
  have "s \<notin> snd ` set sel" using Cons.prems(3) by blast
  then have d: "distinct (map fst (AList.update n s sel))" "distinct (map snd (AList.update n s sel))"
    using Cons.prems(1,2) by (simp_all add: distinct_update distinct_snd_update)
  have "\<forall>u \<in> snd ` set (AList.update n s sel). u < Suc s"
    using Cons.prems(3) set_update_subset [of n s sel] by fastforce
  then have "distinct (map fst (foldl (\<lambda>sel (nm, u). AList.update nm u sel) (AList.update n s sel)
                (zip ns [Suc s..<Suc s + k']))) \<and>
             distinct (map snd (foldl (\<lambda>sel (nm, u). AList.update nm u sel) (AList.update n s sel)
                (zip ns [Suc s..<Suc s + k'])))"
    using Cons.IH [OF d] k(2) by blast
  then show ?case by (simp only: z foldl_Cons prod.case)
qed simp

lemma ptable_wf_fresh_names:
  assumes wf: "ptable_wf s t"
  shows "ptable_wf (s + length kws)
           (t\<lparr>named_cols := named_cols t ++ map_of (zip (map fst kws) [s..<s + length kws]),
               col_expr := col_expr t ++ map_of (zip [s..<s + length kws] (map snd kws)),
               selected_cols := foldl (\<lambda>sel (nm, u). AList.update nm u sel) (selected_cols t)
                                  (zip (map fst kws) [s..<s + length kws])\<rparr>)"
    (is "ptable_wf ?s ?t1")
proof -
  have w: "ptable_wf ?s t" using wf by (rule ptable_wf_mono) simp
  have n: "\<forall>n \<in> dom (named_cols ?t1). case named_cols ?t1 n of Some u \<Rightarrow> u < ?s | None \<Rightarrow> False"
  proof
    fix x assume "x \<in> dom (named_cols ?t1)"
    then obtain u where u: "named_cols ?t1 x = Some u" by blast
    have "u < ?s"
    proof (cases "map_of (zip (map fst kws) [s..<s + length kws]) x")
      case None
      have "named_cols t x = Some u" using u by (simp add: map_add_def None)
      then show ?thesis using ptable_wf_named [OF w] by blast
    next
      case (Some u')
      then have "u' \<in> set [s..<s + length kws]" by (blast dest: map_of_SomeD set_zip_rightD)
      then show ?thesis using u Some by simp
    qed
    then show "case named_cols ?t1 x of Some u \<Rightarrow> u < ?s | None \<Rightarrow> False" using u by simp
  qed
  have e: "\<forall>u \<in> dom (col_expr ?t1). u < ?s"
    using w by (auto simp: ptable_wf_def dom_map_of_conv_image_fst dest: set_zip_leftD)
  have sel: "list_all (\<lambda>(n, u). u < ?s) (selected_cols ?t1)"
  proof -
    have "set (selected_cols ?t1) \<subseteq> set (selected_cols t) \<union> set (zip (map fst kws) [s..<s + length kws])"
      by (simp add: set_foldl_update)
    then show ?thesis
      using w by (fastforce simp: ptable_wf_def list_all_iff dest: set_zip_rightD)
  qed
  have d: "distinct (map fst (selected_cols ?t1)) \<and> distinct (map snd (selected_cols ?t1))"
    using wf foldl_update_fresh [of "selected_cols t" s "map fst kws" "length kws"]
    by (simp add: ptable_wf_def list_all_iff case_prod_beta)
  show ?thesis
    using w n e sel d by (simp add: ptable_wf_def)
qed

lemma ptable_wf_mutate_verb:
  "ptable_wf s t \<Longrightarrow> mutate_verb t s kws = (r, t') \<Longrightarrow> ptable_wf (s + length kws) t'"
  unfolding mutate_verb_def Let_def by (erule ptable_wf_mutate [OF ptable_wf_fresh_names])

lemma ptable_wf_alias:
  "collect t = Inr f \<Longrightarrow> frame_wf f \<Longrightarrow> alias_table t s name = Inr t' \<Longrightarrow>
     ptable_wf (s + length (fcols f)) t'"
  by (auto simp: alias_table_def intro: ptable_wf_pandas_init)

lemma fresh_named:
  assumes "k \<in> set (map fst kws)"
    and "(named_cols t ++ map_of (zip (map fst kws) [s..<s + length kws])) k = Some u"
  shows "s \<le> u"
proof -
  have "map_of (zip (map fst kws) [s..<s + length kws]) k \<noteq> None"
    using assms(1) by (simp add: map_of_zip_is_None)
  then obtain u' where u': "map_of (zip (map fst kws) [s..<s + length kws]) k = Some u'" by blast
  then have "u' \<in> set [s..<s + length kws]" by (blast dest: map_of_SomeD set_zip_rightD)
  then show ?thesis using assms(2) u' by simp
qed

subsection \<open>The invariant and the guarantees it gives\<close>

lemma mutate_single:
  assumes "mutate_verb t s [(n, e)] = (None, t')"
  shows "named_cols t' n = Some s \<and> tname t' = tname t \<and>
         df_name_mapping t' = (df_name_mapping t)(s \<mapsto> mutate_key (tname t) n s) \<and>
         (\<exists>v. assign_col (df t) (mutate_key (tname t) n s) v = Some (df t'))"
  using assms
  by (auto simp: mutate_verb_def mutate_def dict_of_def Let_def ebind_eq_Inr
           split: sum.splits option.splits)


lemma get_col_assign_col_same: "assign_col f k v = Some f' \<Longrightarrow> get_col f' k \<noteq> None"
  using names_assign_col [of f k v f'] by (simp add: get_col_def map_of_eq_None_iff)

lemma mutate_key_inj: "mutate_key t n u = mutate_key t' n' u' \<Longrightarrow> u = u'"
  using key_uuid_mutate_key [of t n u] key_uuid_mutate_key [of t' n' u'] by simp

lemma mutate_verb_effect:
  assumes st: "mutate_verb t s kws = (r, t')"
  shows "\<exists>ukv :: (uuid \<times> string \<times> pexpr) list. (\<forall>x \<in> set ukv. s \<le> fst x) \<and>
           df_name_mapping t' = df_name_mapping t ++ map_of (map (\<lambda>(u, k, v). (u, mutate_key (tname t) k u)) ukv) \<and>
           (df t' = df t \<or>
            (\<exists>kvs. (\<forall>k \<in> set (map fst kvs). \<exists>u n. s \<le> u \<and> k = mutate_key (tname t) n u) \<and>
                   assign (df t) kvs = Some (df t')))"
proof -
  define t1 where "t1 = t\<lparr>named_cols := named_cols t ++ map_of (zip (map fst kws) [s..<s + length kws]),
               col_expr := col_expr t ++ map_of (zip [s..<s + length kws] (map snd kws)),
               selected_cols := foldl (\<lambda>sel (nm, u). AList.update nm u sel) (selected_cols t)
                                  (zip (map fst kws) [s..<s + length kws])\<rparr>"
  have st1: "mutate t1 kws = (r, t')" using st by (simp add: mutate_verb_def Let_def t1_def)
  show ?thesis
    using mutate_cases [OF st1]
  proof (elim disjE exE conjE)
    assume "t' = t1" then show ?thesis by (intro exI [of _ "[]"]) (simp add: t1_def)
  next
    fix ukv :: "(uuid \<times> string \<times> pexpr) list"
    assume src: "\<forall>x \<in> set ukv. named_cols t1 (fst (snd x)) = Some (fst x) \<and> fst (snd x) \<in> set (map fst kws)"
    have fresh: "\<forall>x \<in> set ukv. s \<le> fst x"
    proof
      fix x assume "x \<in> set ukv"
      then have "named_cols t1 (fst (snd x)) = Some (fst x)" "fst (snd x) \<in> set (map fst kws)"
        using src by blast+
      then show "s \<le> fst x"
        using fresh_named [of "fst (snd x)" kws t s "fst x"] by (simp add: t1_def)
    qed
    {
      assume "t' = t1\<lparr>df_name_mapping := df_name_mapping t1 ++
                 map_of (map (\<lambda>(u, k, v). (u, mutate_key (tname t1) k u)) ukv)\<rparr>"
      then show ?thesis using fresh by (intro exI [of _ ukv]) (simp add: t1_def)
    next
      fix tvs :: "(uuid \<times> string \<times> ptv) list" and f
      assume tv: "\<forall>x \<in> set tvs. \<exists>v. (fst x, fst (snd x), v) \<in> set ukv"
        and a: "assign (df t1) (map (\<lambda>(u, k, tv). (mutate_key (tname t1) k u, tv_value tv)) tvs) = Some f"
        and t': "t' = t1\<lparr>df_name_mapping := df_name_mapping t1 ++
                   map_of (map (\<lambda>(u, k, v). (u, mutate_key (tname t1) k u)) ukv), df := f,
                 col_dtypes := col_dtypes t1 ++ map_of (map (\<lambda>(u, k, tv). (u, tv_dtype tv)) tvs)\<rparr>"
      define kvs where "kvs = map (\<lambda>(u, k, tv). (mutate_key (tname t) k u, tv_value tv)) tvs"
      have kk: "\<forall>k \<in> set (map fst kvs). \<exists>u n. s \<le> u \<and> k = mutate_key (tname t) n u"
      proof
        fix k assume "k \<in> set (map fst kvs)"
        then obtain u n tv where x: "(u, n, tv) \<in> set tvs" and kk: "k = mutate_key (tname t) n u"
          by (auto simp: kvs_def)
        obtain v where "(u, n, v) \<in> set ukv" using tv x by fastforce
        then show "\<exists>u n. s \<le> u \<and> k = mutate_key (tname t) n u" using fresh kk by fastforce
      qed
      have as: "assign (df t) kvs = Some (df t')" using a t' by (simp add: t1_def kvs_def)
      have mp: "df_name_mapping t' = df_name_mapping t ++ map_of (map (\<lambda>(u, k, v). (u, mutate_key (tname t) k u)) ukv)"
        using t' by (simp add: t1_def)
      show ?thesis using fresh kk as mp by blast
    }
  qed
qed

lemma reachable_ptable_wf: "reachable s t \<Longrightarrow> ptable_wf s t"
proof (induction rule: reachable.induct)
  case (init f s reg name)
  then show ?case by (rule ptable_wf_pandas_init)
next
  case (mutate s t kws r t')
  then show ?case by (blast intro: ptable_wf_mutate_verb)
next
  case (filter s t args r t')
  then show ?case by (blast intro: ptable_wf_pd_filter)
next
  case (arrange s t ords r t')
  then show ?case by (blast intro: ptable_wf_arrange)
next
  case (join s t s' rt on how r t')
  then show ?case by (blast intro: ptable_wf_join)
next
  case (alias_step s t f name t')
  then show ?case by (blast intro: ptable_wf_alias)
qed

text \<open>C16: every table a program can reach (built by the constructor, then changed by mutate, filter, arrange, join and alias, each failing or not) satisfies the table invariant for the current supply of fresh identities: its frame is well formed, every storage key names an identity below the supply, and every key of the identity-to-key mapping names the identity it is stored under.\<close>

theorem reachable_wf: "reachable s t \<Longrightarrow> ptable_wf s t"
  by (rule reachable_ptable_wf)

text \<open>C17: no two live columns share a storage key: in every table a program can reach (constructor, then any mutate, filter, arrange, join and alias, failing or not) the identity-to-key mapping is injective, as the spec requires of mutate's collision-free keys.\<close>

theorem storage_keys_injective:
  "reachable s t \<Longrightarrow> inj_on (df_name_mapping t) (dom (df_name_mapping t))"
proof -
  assume "reachable s t"
  then have "keys_ok s (df_name_mapping t)" using reachable_ptable_wf by (simp add: ptable_wf_def)
  then show ?thesis by (auto intro!: inj_onI dest: keys_ok_inj)
qed

text \<open>C18: mutate on a well-formed table never overwrites a stored column and never remaps an existing column identity: every storage key of the frame keeps its data and every identity below the supply keeps its key, whether mutate succeeds or fails.\<close>

theorem mutate_never_clobbers:
  assumes wf: "ptable_wf s t" and st: "mutate_verb t s kws = (r, t')"
  shows "(\<forall>k \<in> set (map fst (fcols (df t))). get_col (df t') k = get_col (df t) k) \<and>
         (\<forall>u < s. df_name_mapping t' u = df_name_mapping t u)"
proof -
  obtain ukv :: "(uuid \<times> string \<times> pexpr) list" where fresh: "\<forall>x \<in> set ukv. s \<le> fst x"
    and m: "df_name_mapping t' = df_name_mapping t ++ map_of (map (\<lambda>(u, k, v). (u, mutate_key (tname t) k u)) ukv)"
    and d: "df t' = df t \<or> (\<exists>kvs. (\<forall>k \<in> set (map fst kvs). \<exists>u n. s \<le> u \<and> k = mutate_key (tname t) n u) \<and>
                   assign (df t) kvs = Some (df t'))"
    using mutate_verb_effect [OF st] by blast
  have "map_of (map (\<lambda>(u, k, v). (u, mutate_key (tname t) k u)) ukv) u = None" if "u < s" for u
    using fresh that by (auto simp: map_of_eq_None_iff)
  then have "\<forall>u < s. df_name_mapping t' u = df_name_mapping t u" by (simp add: m map_add_def)
  moreover have "get_col (df t') k = get_col (df t) k" if k: "k \<in> set (map fst (fcols (df t)))" for k
  proof -
    have "key_below s k" using wf k by (auto simp: ptable_wf_def list_all_iff)
    then have nk: "\<not> (\<exists>u n. s \<le> u \<and> k = mutate_key (tname t) n u)"
      by (auto simp: key_below_def key_uuid_mutate_key)
    show ?thesis
    proof (cases "df t' = df t")
      case False
      then obtain kvs where kvs: "\<forall>k \<in> set (map fst kvs). \<exists>u n. s \<le> u \<and> k = mutate_key (tname t) n u"
        and as: "assign (df t) kvs = Some (df t')" using d by blast
      have "k \<notin> set (map fst kvs)" using kvs nk by blast
      then show ?thesis using get_col_assign_other [OF as] by blast
    qed simp
  qed
  ultimately show ?thesis by blast
qed

text \<open>C19: two successive mutates that assign the same display name give it two distinct identities with two distinct storage keys, and both columns stay stored.\<close>

theorem mutate_twice_fresh:
  assumes m1: "mutate_verb t s [(n, e1)] = (None, t1)"
    and m2: "mutate_verb t1 (Suc s) [(n, e2)] = (None, t2)"
  shows "named_cols t1 n = Some s \<and> named_cols t2 n = Some (Suc s) \<and>
         df_name_mapping t2 s = Some (mutate_key (tname t) n s) \<and>
         df_name_mapping t2 (Suc s) = Some (mutate_key (tname t) n (Suc s)) \<and>
         mutate_key (tname t) n s \<noteq> mutate_key (tname t) n (Suc s) \<and>
         get_col (df t2) (mutate_key (tname t) n s) \<noteq> None \<and>
         get_col (df t2) (mutate_key (tname t) n (Suc s)) \<noteq> None"
proof -
  note a = mutate_single [OF m1] and b = mutate_single [OF m2]
  obtain v1 where v1: "assign_col (df t) (mutate_key (tname t) n s) v1 = Some (df t1)" using a by blast
  obtain v2 where v2: "assign_col (df t1) (mutate_key (tname t) n (Suc s)) v2 = Some (df t2)"
    using a b by (metis (no_types))
  have ne: "mutate_key (tname t) n s \<noteq> mutate_key (tname t) n (Suc s)"
    using mutate_key_inj by fastforce
  have "get_col (df t2) (mutate_key (tname t) n s) = get_col (df t1) (mutate_key (tname t) n s)"
    using get_col_assign_col [OF v2] ne by simp
  moreover have "df_name_mapping t2 s = Some (mutate_key (tname t) n s)"
    using a b by simp
  moreover have "df_name_mapping t2 (Suc s) = Some (mutate_key (tname t) n (Suc s))"
    using a b by simp
  ultimately show ?thesis
    using a b ne get_col_assign_col_same [OF v1] get_col_assign_col_same [OF v2] by simp
qed

text \<open>C20: alias gives every column of the new table a fresh identity, so no expression over a column of the original table resolves in the aliased table (the spec says alias keeps identities).\<close>

theorem alias_new_identities:
  assumes "alias_table t s name = Inr t'" and "col_uuid c < s"
  shows "\<exists>err. pd_translate t' (Leaf (Col c)) = Inl err"
proof -
  obtain f where t': "t' = pandas_init (operator_registry t) s name f"
    using assms(1) by (auto simp: alias_table_def ebind_eq_Inr)
  have "df_name_mapping t' (col_uuid c) = None"
    using assms(2) by (auto simp: t' pandas_init_def Let_def map_of_eq_None_iff dest: set_zip_leftD)
  then show ?thesis by (simp add: pd_translate_def translate_def pure_cb_def)
qed

end
