(* ===== verification/Examples.thy ===== *)
theory Examples
  imports Invariant
begin

text \<open>
  Two small tables built by the backend's own constructor from concrete frames, the
  columns they define, and the closed instances of the pandas-level theorems of
  PandasTable at these tables: each witness discharges the theorem's hypotheses by
  evaluation and states its conclusion there.  The left table \<open>l\<close> has an int column
  \<open>id\<close> (identity 0) and an object column \<open>name\<close> (1); the right table \<open>r\<close> has an int
  column \<open>rid\<close> (2) and a bool column \<open>flag\<close> (3).  The registry is the one the module
  registers: \<open>str.strip\<close> with signature \<open>object -> object\<close>.
\<close>

definition ex_reg :: "pval registry" where
  "ex_reg = (case pandas_registry of Inr r \<Rightarrow> r | Inl e \<Rightarrow> [])"

definition ex_left :: ptable where
  "ex_left = pandas_init ex_reg 0 ''l''
     \<lparr>fcols = [(''id'', [VInt 2, VInt 1, VInt 2]), (''name'', [VStr '' x'', VStr ''y '', VStr ''z''])], nrows = 3\<rparr>"

definition ex_right :: ptable where
  "ex_right = pandas_init ex_reg 2 ''r''
     \<lparr>fcols = [(''rid'', [VInt 1, VInt 2]), (''flag'', [VBool True, VBool False])], nrows = 2\<rparr>"

definition ex_id :: column where
  "ex_id = \<lparr>col_uuid = 0, col_name = ''id'', col_dtype = ''int'', col_table = ''l''\<rparr>"

definition ex_name :: column where
  "ex_name = \<lparr>col_uuid = 1, col_name = ''name'', col_dtype = ''object'', col_table = ''l''\<rparr>"

definition ex_rid :: column where
  "ex_rid = \<lparr>col_uuid = 2, col_name = ''rid'', col_dtype = ''int'', col_table = ''r''\<rparr>"

definition ex_flag :: column where
  "ex_flag = \<lparr>col_uuid = 3, col_name = ''flag'', col_dtype = ''bool'', col_table = ''r''\<rparr>"

text \<open>The left table with the window operators of \<open>window.py\<close> registered instead, with an
  implementation that returns a missing scalar.\<close>

definition ex_window :: ptable where
  "ex_window = ex_left\<lparr>operator_registry := projr (window_registry (\<lambda>xs :: pval list. Some (Scalar VNull)))\<rparr>"

lemmas reg_eval = parse_signature_def py_split_def py_strip_def is_space_def parse_dpat_def
  is_template_def register_def impls_of_def sig_ok_def pandas_registry_def

lemmas table_eval = pandas_init_def init_key_def uuid_to_str_def hex_str.simps rename_cols_def
  convert_dtype_def infer_dtype_def

lemmas translate_eval = pd_translate_def translate_def pure_cb_def get_col_def get_implementation_def
  typed_def sig_matches_def TypedValue_def impls_of_def

lemma ex_reg_eval: "ex_reg = [(''str.strip'', [\<lparr>impl_sig = \<lparr>sig_args = [DT ''object''], sig_ret = DT ''object''\<rparr>, impl_fn = str_strip, impl_ftype = FScalar\<rparr>])]"
  by (simp add: ex_reg_def reg_eval)

lemma ex_left_eval: "ex_left =
  \<lparr>tname = ''l'',
   df = \<lparr>fcols = [(''l_id_0'', [VInt 2, VInt 1, VInt 2]), (''l_name_1'', [VStr '' x'', VStr ''y '', VStr ''z''])], nrows = 3\<rparr>,
   df_name_mapping = [1 \<mapsto> ''l_name_1'', 0 \<mapsto> ''l_id_0''],
   col_dtypes = [1 \<mapsto> ''object'', 0 \<mapsto> ''int''],
   named_cols = [''name'' \<mapsto> 1, ''id'' \<mapsto> 0],
   col_expr = [1 \<mapsto> Leaf (Col ex_name), 0 \<mapsto> Leaf (Col ex_id)],
   selected_cols = [(''id'', 0), (''name'', 1)],
   operator_registry = ex_reg\<rparr>"
  by (simp add: ex_left_def ex_id_def ex_name_def table_eval)

lemma ex_right_eval: "ex_right =
  \<lparr>tname = ''r'',
   df = \<lparr>fcols = [(''r_rid_2'', [VInt 1, VInt 2]), (''r_flag_3'', [VBool True, VBool False])], nrows = 2\<rparr>,
   df_name_mapping = [3 \<mapsto> ''r_flag_3'', 2 \<mapsto> ''r_rid_2''],
   col_dtypes = [3 \<mapsto> ''bool'', 2 \<mapsto> ''int''],
   named_cols = [''flag'' \<mapsto> 3, ''rid'' \<mapsto> 2],
   col_expr = [3 \<mapsto> Leaf (Col ex_flag), 2 \<mapsto> Leaf (Col ex_rid)],
   selected_cols = [(''rid'', 2), (''flag'', 3)],
   operator_registry = ex_reg\<rparr>"
  by (simp add: ex_right_def ex_rid_def ex_flag_def table_eval eval_nat_numeral)

lemmas join_eval = join_def orient_pair_def lookup_key_def merge_def merge_pairs_def key_at_def pick_def
  eq_conj_def col_eq_def sym_eq_def get_col_def pure_cb_def translate_def uuid_to_str_def
  merge_compatible_def str_col_def num_col_def

subsection \<open>Witnesses\<close>

theorem pd_translate_call_witness:
  "pd_translate ex_left (Call ''str.strip'' [Leaf (Col ex_name)] []) =
     Inr (TypedValue (Series [VStr ''x'', VStr ''y'', VStr ''z'']) ''object'') \<and>
   (\<exists>tvs impl v.
      list_all2 (\<lambda>e tv. pd_translate ex_left e = Inr tv) [Leaf (Col ex_name)] tvs \<and>
      get_implementation (operator_registry ex_left) ''str.strip'' (map tv_dtype tvs) = Inr impl \<and>
      ti_fn impl (map tv_value tvs) = Some v \<and>
      TypedValue (Series [VStr ''x'', VStr ''y'', VStr ''z'']) ''object'' = TypedValue v (ti_rtype impl))"
proof -
  have h: "pd_translate ex_left (Call ''str.strip'' [Leaf (Col ex_name)] []) =
     Inr (TypedValue (Series [VStr ''x'', VStr ''y'', VStr ''z'']) ''object'')"
    by (simp add: ex_left_eval ex_reg_eval ex_name_def translate_eval py_strip_def is_space_def)
  show ?thesis by (intro conjI h pd_translate_call [OF h])
qed

theorem pd_translate_no_match_witness:
  "pd_translate ex_left (Call ''str.strip'' [Leaf (Col ex_id)] []) =
     Inl (TranslationFailed (Call ''str.strip'' [Leaf (Col ex_id)] [])
       (RegistryError (NoMatchingSignature ''str.strip''
         (map tv_dtype [TypedValue (Series [VInt 2, VInt 1, VInt 2]) ''int'']))))"
proof -
  have h1: "list_all2 (\<lambda>e tv. pd_translate ex_left e = Inr tv) [Leaf (Col ex_id)]
     [TypedValue (Series [VInt 2, VInt 1, VInt 2]) ''int'']"
    by (simp add: ex_left_eval ex_id_def translate_eval)
  have h2: "list_all2 (\<lambda>(k, e) (k', tv). k = k' \<and> pd_translate ex_left e = Inr tv) [] []"
    by simp
  have h3: "map_of (operator_registry ex_left) ''str.strip'' \<noteq> None"
    by (simp add: ex_left_eval ex_reg_eval)
  have h4: "\<forall>i \<in> set (impls_of (operator_registry ex_left) ''str.strip'').
      \<not> sig_matches (map tv_dtype [TypedValue (Series [VInt 2, VInt 1, VInt 2]) ''int'']) i"
    by (simp add: ex_left_eval ex_reg_eval impls_of_def sig_matches_def TypedValue_def)
  show ?thesis by (rule pd_translate_no_match [OF h1 h2 h3 h4])
qed

theorem join_rejects_non_column_witness:
  "\<exists>c. join ex_left ex_right (sym_eq (Call ''__add__'' [Leaf (Col ex_id), Leaf (Col ex_id)] []) (Leaf (Col ex_rid)))
          (Some ''inner'') =
        (Some (TranslationFailed (sym_eq (Call ''__add__'' [Leaf (Col ex_id), Leaf (Col ex_id)] []) (Leaf (Col ex_rid))) c),
         ex_left)"
proof -
  have h: "\<forall>c. Call ''__add__'' [Leaf (Col ex_id), Leaf (Col ex_id)] [] \<noteq> Leaf (Col c)" by simp
  show ?thesis by (rule join_rejects_non_column [OF h])
qed

theorem join_how_required_witness:
  "join ex_left ex_right (eq_conj (ex_id, ex_rid) []) None = (Some HowMissing, ex_left)"
proof -
  have h: "list_all (\<lambda>(c1, c2). col_expr ex_left (col_uuid c1) \<noteq> None \<and> col_expr ex_right (col_uuid c2) \<noteq> None \<or>
                       col_expr ex_left (col_uuid c2) \<noteq> None \<and> col_expr ex_right (col_uuid c1) \<noteq> None)
     [(ex_id, ex_rid)]"
    by (simp add: ex_left_eval ex_right_eval ex_id_def ex_rid_def)
  show ?thesis by (rule join_how_required [OF h])
qed

theorem join_result_witness:
  "join ex_left ex_right (eq_conj (ex_rid, ex_id) []) (Some ''inner'') = (None, snd (join ex_left ex_right (eq_conj (ex_rid, ex_id) []) (Some ''inner''))) \<and>
   (\<exists>ps on_cols lon ron.
    translate (pure_cb join_translate) () (eq_conj (ex_rid, ex_id) []) = Inr (JPairs ps, ()) \<and>
    list_all2 (\<lambda>p q. (q = p \<or> q = prod.swap p) \<and>
                     col_expr ex_left (col_uuid (fst q)) \<noteq> None \<and> col_expr ex_right (col_uuid (snd q)) \<noteq> None)
      ps on_cols \<and>
    on_cols \<noteq> [] \<and>
    emap (lookup_key ex_left) (map fst on_cols) = Inr lon \<and>
    emap (lookup_key ex_right) (map snd on_cols) = Inr ron \<and>
    merge (df ex_left) (df ex_right) ''inner'' lon ron = Some (df (snd (join ex_left ex_right (eq_conj (ex_rid, ex_id) []) (Some ''inner'')))) \<and>
    snd (join ex_left ex_right (eq_conj (ex_rid, ex_id) []) (Some ''inner'')) = ex_left\<lparr>df_name_mapping := df_name_mapping ex_left ++ df_name_mapping ex_right, df := df (snd (join ex_left ex_right (eq_conj (ex_rid, ex_id) []) (Some ''inner'')))\<rparr>)"
proof -
  have "fst (join ex_left ex_right (eq_conj (ex_rid, ex_id) []) (Some ''inner'')) = None"
    by (simp add: ex_left_eval ex_right_eval ex_id_def ex_rid_def join_eval hex_str.simps)
  then have h: "join ex_left ex_right (eq_conj (ex_rid, ex_id) []) (Some ''inner'') = (None, snd (join ex_left ex_right (eq_conj (ex_rid, ex_id) []) (Some ''inner'')))"
    by (metis prod.collapse)
  show ?thesis by (intro conjI h join_result [OF h])
qed

theorem filter_non_bool_witness:
  "pd_filter ex_left [Leaf (Col ex_id)] = (Some AssertionError, ex_left)"
proof -
  have h1: "pd_translate ex_left (foldl sym_and (Leaf (Col ex_id)) []) =
      Inr (TypedValue (Series [VInt 2, VInt 1, VInt 2]) ''int'')"
    by (simp add: ex_left_eval ex_id_def translate_eval)
  have h2: "tv_dtype (TypedValue (Series [VInt 2, VInt 1, VInt 2]) ''int'') \<noteq> ''bool''"
    by (simp add: TypedValue_def)
  show ?thesis by (rule filter_non_bool [OF h1 h2])
qed

theorem filter_atomic_witness:
  "pd_filter ex_left [Leaf (Lit (LOther ''float''))] =
     (Some (TranslationFailed (Leaf (Lit (LOther ''float''))) (NotImplemented ''float'')), snd (pd_filter ex_left [Leaf (Lit (LOther ''float''))])) \<and>
   snd (pd_filter ex_left [Leaf (Lit (LOther ''float''))]) = ex_left"
proof -
  have "fst (pd_filter ex_left [Leaf (Lit (LOther ''float''))]) =
      Some (TranslationFailed (Leaf (Lit (LOther ''float''))) (NotImplemented ''float''))"
    by (simp add: pd_filter_def translate_eval)
  then have h: "pd_filter ex_left [Leaf (Lit (LOther ''float''))] =
     (Some (TranslationFailed (Leaf (Lit (LOther ''float''))) (NotImplemented ''float'')), snd (pd_filter ex_left [Leaf (Lit (LOther ''float''))]))"
    by (metis prod.collapse)
  show ?thesis by (intro conjI h filter_atomic [OF h])
qed

theorem filter_rows_witness:
  "pd_filter ex_right [Leaf (Col ex_flag)] = (None, snd (pd_filter ex_right [Leaf (Col ex_flag)])) \<and>
   (\<exists>tv c. pd_translate ex_right (foldl sym_and (Leaf (Col ex_flag)) []) = Inr tv \<and> tv_dtype tv = ''bool'' \<and>
           tv_value tv = Series c \<and> length c = nrows (df ex_right) \<and> list_all is_vbool c \<and>
           snd (pd_filter ex_right [Leaf (Col ex_flag)]) = ex_right\<lparr>df := df (snd (pd_filter ex_right [Leaf (Col ex_flag)]))\<rparr> \<and>
           nrows (df (snd (pd_filter ex_right [Leaf (Col ex_flag)]))) = count_list (map (\<lambda>v. v = VBool True) c) True \<and>
           (\<forall>k. get_col (df (snd (pd_filter ex_right [Leaf (Col ex_flag)]))) k = map_option (mask_rows (map (\<lambda>v. v = VBool True) c)) (get_col (df ex_right) k)))"
proof -
  have "fst (pd_filter ex_right [Leaf (Col ex_flag)]) = None"
    by (simp add: ex_right_eval ex_flag_def pd_filter_def translate_eval tv_iter_def loc_mask_def Let_def)
  then have h: "pd_filter ex_right [Leaf (Col ex_flag)] = (None, snd (pd_filter ex_right [Leaf (Col ex_flag)]))"
    by (metis prod.collapse)
  show ?thesis by (intro conjI h filter_rows [OF h])
qed

theorem arrange_stable_sort_witness:
  "arrange ex_left [(ex_id, True)] = (None, snd (arrange ex_left [(ex_id, True)])) \<and>
   (\<exists>ks cols. emap (\<lambda>(c, asc). lookup_key ex_left c) [(ex_id, True)] = Inr ks \<and>
      those (map (get_col (df ex_left)) ks) = Some cols \<and>
      snd (arrange ex_left [(ex_id, True)]) = ex_left\<lparr>df := reindex (df ex_left) (sort_perm cols (map snd [(ex_id, True)]) (nrows (df ex_left)))\<rparr> \<and>
      mset (sort_perm cols (map snd [(ex_id, True)]) (nrows (df ex_left))) = mset [0..<nrows (df ex_left)] \<and>
      sorted (map (row_key cols (map snd [(ex_id, True)])) (sort_perm cols (map snd [(ex_id, True)]) (nrows (df ex_left)))) \<and>
      (\<forall>i \<in> set [0..<nrows (df ex_left)].
         filter (\<lambda>j. row_key cols (map snd [(ex_id, True)]) j = row_key cols (map snd [(ex_id, True)]) i)
           (sort_perm cols (map snd [(ex_id, True)]) (nrows (df ex_left))) =
         filter (\<lambda>j. row_key cols (map snd [(ex_id, True)]) j = row_key cols (map snd [(ex_id, True)]) i)
           [0..<nrows (df ex_left)]))"
proof -
  have "fst (arrange ex_left [(ex_id, True)]) = None"
    by (simp add: ex_left_eval ex_id_def arrange_def lookup_key_def sort_values_def get_col_def one_kind_def)
  then have h: "arrange ex_left [(ex_id, True)] = (None, snd (arrange ex_left [(ex_id, True)]))"
    by (metis prod.collapse)
  show ?thesis by (intro conjI h arrange_stable_sort [OF h])
qed

lemma ex_left_reachable: "reachable 2 ex_left"
  using reachable.init [of "\<lparr>fcols = [(''id'', [VInt 2, VInt 1, VInt 2]), (''name'', [VStr '' x'', VStr ''y '', VStr ''z''])], nrows = 3\<rparr>" 0 ex_reg "''l''"]
  by (simp add: ex_left_def frame_wf_def numeral_2_eq_2)

lemmas wf_eval = ptable_wf_def frame_wf_def key_below_def keys_ok_def key_uuid_def hex_digits_def

lemma ex_left_wf: "ptable_wf 2 ex_left"
  by (simp add: ex_left_eval ex_id_def ex_name_def wf_eval)

theorem reachable_wf_witness: "ptable_wf 2 ex_left"
  by (rule reachable_wf [OF ex_left_reachable])

theorem storage_keys_injective_witness: "inj_on (df_name_mapping ex_left) (dom (df_name_mapping ex_left))"
  by (rule storage_keys_injective [OF ex_left_reachable])

theorem mutate_never_clobbers_witness:
  "get_col (df (snd (mutate_verb ex_left 2 [(''name'', Call ''str.strip'' [Leaf (Col ex_name)] [])]))) ''l_id_0'' = get_col (df ex_left) ''l_id_0'' \<and>
   get_col (df (snd (mutate_verb ex_left 2 [(''name'', Call ''str.strip'' [Leaf (Col ex_name)] [])]))) ''l_name_1'' = get_col (df ex_left) ''l_name_1'' \<and>
   df_name_mapping (snd (mutate_verb ex_left 2 [(''name'', Call ''str.strip'' [Leaf (Col ex_name)] [])])) 1 = df_name_mapping ex_left 1"
proof -
  have h: "mutate_verb ex_left 2 [(''name'', Call ''str.strip'' [Leaf (Col ex_name)] [])] = (fst (mutate_verb ex_left 2 [(''name'', Call ''str.strip'' [Leaf (Col ex_name)] [])]), snd (mutate_verb ex_left 2 [(''name'', Call ''str.strip'' [Leaf (Col ex_name)] [])]))" by simp
  note c = mutate_never_clobbers [OF ex_left_wf h]
  have k: "''l_id_0'' \<in> set (map fst (fcols (df ex_left)))" "''l_name_1'' \<in> set (map fst (fcols (df ex_left)))"
    by (simp_all add: ex_left_eval)
  show ?thesis
    using bspec [OF conjunct1 [OF c] k(1)] bspec [OF conjunct1 [OF c] k(2)] conjunct2 [OF c] by simp
qed

lemmas mutate_eval = mutate_verb_def mutate_def dict_of_def translate_eval assign_col_def mutate_key_def
  uuid_to_str_def hex_str.simps

theorem mutate_twice_fresh_witness:
  "named_cols (snd (mutate_verb ex_left 2 [(''x'', Leaf (Lit (LInt 1)))])) ''x'' = Some 2 \<and> named_cols (snd (mutate_verb (snd (mutate_verb ex_left 2 [(''x'', Leaf (Lit (LInt 1)))])) (Suc 2) [(''x'', Leaf (Lit (LInt 2)))])) ''x'' = Some (Suc 2) \<and>
   df_name_mapping (snd (mutate_verb (snd (mutate_verb ex_left 2 [(''x'', Leaf (Lit (LInt 1)))])) (Suc 2) [(''x'', Leaf (Lit (LInt 2)))])) 2 = Some (mutate_key (tname ex_left) ''x'' 2) \<and>
   df_name_mapping (snd (mutate_verb (snd (mutate_verb ex_left 2 [(''x'', Leaf (Lit (LInt 1)))])) (Suc 2) [(''x'', Leaf (Lit (LInt 2)))])) (Suc 2) = Some (mutate_key (tname ex_left) ''x'' (Suc 2)) \<and>
   mutate_key (tname ex_left) ''x'' 2 \<noteq> mutate_key (tname ex_left) ''x'' (Suc 2) \<and>
   get_col (df (snd (mutate_verb (snd (mutate_verb ex_left 2 [(''x'', Leaf (Lit (LInt 1)))])) (Suc 2) [(''x'', Leaf (Lit (LInt 2)))]))) (mutate_key (tname ex_left) ''x'' 2) \<noteq> None \<and>
   get_col (df (snd (mutate_verb (snd (mutate_verb ex_left 2 [(''x'', Leaf (Lit (LInt 1)))])) (Suc 2) [(''x'', Leaf (Lit (LInt 2)))]))) (mutate_key (tname ex_left) ''x'' (Suc 2)) \<noteq> None"
proof -
  have "fst (mutate_verb ex_left 2 [(''x'', Leaf (Lit (LInt 1)))]) = None"
    by (simp add: ex_left_eval mutate_eval Let_def)
  then have h1: "mutate_verb ex_left 2 [(''x'', Leaf (Lit (LInt 1)))] = (None, snd (mutate_verb ex_left 2 [(''x'', Leaf (Lit (LInt 1)))]))" by (metis prod.collapse)
  have "fst (mutate_verb (snd (mutate_verb ex_left 2 [(''x'', Leaf (Lit (LInt 1)))])) (Suc 2) [(''x'', Leaf (Lit (LInt 2)))]) = None"
    by (simp add: ex_left_eval mutate_eval Let_def)
  then have h2: "mutate_verb (snd (mutate_verb ex_left 2 [(''x'', Leaf (Lit (LInt 1)))])) (Suc 2) [(''x'', Leaf (Lit (LInt 2)))] = (None, snd (mutate_verb (snd (mutate_verb ex_left 2 [(''x'', Leaf (Lit (LInt 1)))])) (Suc 2) [(''x'', Leaf (Lit (LInt 2)))]))" by (metis prod.collapse)
  show ?thesis by (rule mutate_twice_fresh [OF h1 h2])
qed

theorem alias_new_identities_witness: "\<exists>err. pd_translate (projr (alias_table ex_left 4 ''a'')) (Leaf (Col ex_id)) = Inl err"
proof -
  have "alias_table ex_left 4 ''a'' = Inr (projr (alias_table ex_left 4 ''a''))"
    by (simp add: alias_table_def collect_def ex_left_eval dict_of_def select_cols_def get_col_def
        rename_cols_def)
  moreover have "col_uuid ex_id < 4" by (simp add: ex_id_def)
  ultimately show ?thesis by (rule alias_new_identities)
qed

end
