(* ===== verification/TableView.thy ===== *)
theory TableView
  imports Examples
begin

text \<open>
  The table as its user sees it: \<open>collect\<close> (\<open>PandasTableImpl.collect\<close>) is the
  abstraction from the backend's storage (a frame under generated keys, the
  identity-to-key mapping, the selection) to the frame of the selected columns under
  their display names.  The row verbs refine their frame-level counterparts through this
  abstraction: what \<open>filter\<close> and \<open>arrange\<close> do to the stored frame, the user sees done
  to the collected frame.  \<open>alias\<close> rebuilds a table from the collected frame and gives
  it back unchanged.
\<close>

subsection \<open>Collecting after a row operation\<close>

lemma collect_map_rows:
  "collect (t\<lparr>df := map_rows g n (df t)\<rparr>) = ebind (collect t) (\<lambda>f. Inr (map_rows g n f))"
  by (simp add: collect_def Let_def select_cols_map_rows rename_cols_map_rows split: sum.splits option.splits)

lemma nrows_collect: "collect t = Inr f \<Longrightarrow> nrows f = nrows (df t)"
  by (auto simp: collect_def Let_def split: sum.splits option.splits dest: nrows_select_cols)

subsection \<open>Collecting a freshly built table\<close>

lemma emap_lookup_zip:
  "distinct us \<Longrightarrow> length ns = length us \<Longrightarrow> length ks = length us \<Longrightarrow>
   emap (\<lambda>(n, u). case map_of (zip us ks) u of None \<Rightarrow> Inl (e u) | Some k \<Rightarrow> Inr (k, n)) (zip ns us) =
     Inr (zip ks ns)"
proof (induction us arbitrary: ns ks)
  case (Cons u us)
  obtain n ns' k ks' where ns: "ns = n # ns'" and ks: "ks = k # ks'"
    using Cons.prems by (cases ns; cases ks) auto
  have "emap (\<lambda>(n, u'). case map_of (zip (u # us) (k # ks')) u' of None \<Rightarrow> Inl (e u') | Some k \<Rightarrow> Inr (k, n)) (zip ns' us) =
        emap (\<lambda>(n, u'). case map_of (zip us ks') u' of None \<Rightarrow> Inl (e u') | Some k \<Rightarrow> Inr (k, n)) (zip ns' us)"
    using Cons.prems(1) by (intro emap_cong) (auto dest: set_zip_rightD)
  then show ?case
    using Cons ns ks by simp
qed simp

lemma distinct_init_keys: "distinct (map2 (\<lambda>u (k, c). init_key name k u) [s..<s + length cs] cs)"
proof -
  define K where "K = map2 (\<lambda>u (k, c). init_key name k u) [s..<s + length cs] cs"
  have "map key_uuid K = map Some [s..<s + length cs]"
    using init_keys_uuid [of name "[s..<s + length cs]" cs] by (simp add: K_def)
  then have "distinct (map key_uuid K)" by (simp add: distinct_map)
  then have "distinct K" using distinct_map [of key_uuid K] by blast
  then show ?thesis by (simp add: K_def)
qed

lemma collect_pandas_init:
  assumes wf: "frame_wf f"
  shows "collect (pandas_init reg s name f) = Inr f"
proof -
  define cs where "cs = fcols f"
  define us where "us = [s..<s + length cs]"
  define keys where "keys = map2 (\<lambda>u (k, c). init_key name k u) us cs"
  have len: "length keys = length cs" "length us = length cs" by (simp_all add: keys_def us_def)
  have dk: "distinct keys" using distinct_init_keys [of name s cs] by (simp add: keys_def us_def)
  have dn: "distinct (map fst cs)" using wf by (simp add: frame_wf_def cs_def)
  have ren: "map (\<lambda>k. case map_of (zip (map fst cs) keys) k of None \<Rightarrow> k | Some k' \<Rightarrow> k') (map fst cs) = keys"
    using map_of_zip_rename [OF dn, of keys] len by simp
  have df: "fcols (rename_cols f (map_of (zip (map fst cs) keys))) = zip keys (map snd cs)"
    using ren by (simp add: rename_cols_def map_rename_zip cs_def)
  have sel: "emap (\<lambda>(n, u). case map_of (zip us keys) u of None \<Rightarrow> Inl (KeyError (uuid_to_str u) :: perror)
                              | Some k \<Rightarrow> Inr (k, n)) (zip (map fst cs) us) = Inr (zip keys (map fst cs))"
    using len by (intro emap_lookup_zip) (simp_all add: us_def)
  have dict: "dict_of (zip keys (map fst cs)) = zip keys (map fst cs)"
    using dk len by (intro dict_of_distinct) simp
  have gc: "get_col (rename_cols f (map_of (zip (map fst cs) keys))) = map_of (zip keys (map snd cs))"
    using df by (simp add: get_col_def fun_eq_iff)
  have th: "those (map (map_of (zip keys (map snd cs))) keys) = Some (map snd cs)"
    using dk len by (intro those_map_of_zip) simp_all
  have unren: "map (\<lambda>k. case map_of (zip keys (map fst cs)) k of None \<Rightarrow> k | Some k' \<Rightarrow> k') keys = map fst cs"
    using map_of_zip_rename [OF dk, of "map fst cs"] len by simp
  have "rename_cols ((rename_cols f (map_of (zip (map fst cs) keys)))\<lparr>fcols := zip keys (map snd cs)\<rparr>)
          (map_of (zip keys (map fst cs))) = f"
    using unren len by (simp add: rename_cols_def map_rename_zip cs_def zip_map_fst_snd)
  moreover have "selected_cols (pandas_init reg s name f) = zip (map fst cs) us"
    "df_name_mapping (pandas_init reg s name f) = map_of (zip us keys)"
    "df (pandas_init reg s name f) = rename_cols f (map_of (zip (map fst cs) keys))"
    by (simp_all add: pandas_init_def Let_def us_def keys_def cs_def)
  moreover have "map fst (zip keys (map fst cs)) = keys" using len by simp
  ultimately show ?thesis
    using sel dict gc th by (simp add: collect_def select_cols_def Let_def del: map_map)
qed

subsection \<open>The verbs seen through collect\<close>

text \<open>C23: filter refines row selection on the user's table: after a successful filter, the collected table is the collected table before, restricted by df.loc to the rows where the translated condition is True; if collecting failed before, it fails after with the same exception.\<close>

theorem filter_view:
  assumes "pd_filter t (a # as) = (None, t')"
  shows "\<exists>tv c. pd_translate t (foldl sym_and a as) = Inr tv \<and> tv_value tv = Series c \<and>
           (case collect t of
              Inl e \<Rightarrow> collect t' = Inl e
            | Inr f \<Rightarrow> \<exists>f'. loc_mask f c = Some f' \<and> collect t' = Inr f')"
proof -
  obtain tv c g where tv: "pd_translate t (foldl sym_and a as) = Inr tv" and c: "tv_value tv = Series c"
    and g: "loc_mask (df t) c = Some g" and t': "t' = t\<lparr>df := g\<rparr>"
    using assms by (auto simp: pd_filter_def tv_iter_def split: sum.splits if_splits pval.splits option.splits)
  let ?m = "map (\<lambda>v. v = VBool True) c"
  have gm: "g = map_rows (mask_rows ?m) (count_list ?m True) (df t)" using loc_mask_map_rows [OF g] .
  have ok: "length c = nrows (df t) \<and> list_all is_vbool c" using g loc_mask_Some_iff by blast
  have "case collect t of Inl e \<Rightarrow> collect t' = Inl e
          | Inr f \<Rightarrow> \<exists>f'. loc_mask f c = Some f' \<and> collect t' = Inr f'"
  proof (cases "collect t")
    case (Inl e)
    then show ?thesis using t' gm collect_map_rows by simp
  next
    case (Inr f)
    then have "loc_mask f c \<noteq> None" using ok nrows_collect [OF Inr] loc_mask_Some_iff by simp
    then obtain f' where f': "loc_mask f c = Some f'" by blast
    then have "f' = map_rows (mask_rows ?m) (count_list ?m True) f" by (rule loc_mask_map_rows)
    then show ?thesis using Inr t' gm collect_map_rows f' by simp
  qed
  then show ?thesis using tv c by blast
qed

text \<open>C24: arrange refines sorting the user's table: after a successful arrange, the collected table is the collected table before with its rows reordered by the stable sort permutation of the key columns, each in its own direction.\<close>

theorem arrange_view:
  assumes "arrange t ords = (None, t')"
  shows "\<exists>ks cols. emap (\<lambda>(c, asc). lookup_key t c) ords = Inr ks \<and>
           those (map (get_col (df t)) ks) = Some cols \<and>
           collect t' = ebind (collect t) (\<lambda>f. Inr (reindex f (sort_perm cols (map snd ords) (nrows (df t)))))"
proof -
  obtain ks cols where ks: "emap (\<lambda>(c, asc). lookup_key t c) ords = Inr ks"
    and cols: "those (map (get_col (df t)) ks) = Some cols"
    and t': "t' = t\<lparr>df := reindex (df t) (sort_perm cols (map snd ords) (nrows (df t)))\<rparr>"
    using assms by (auto simp: arrange_def sort_values_def split: if_splits sum.splits option.splits)
  then show ?thesis by (simp add: reindex_map_rows collect_map_rows)
qed

text \<open>C25: alias gives the user the same table: the table alias builds from a collected table collects back to exactly that table, columns, order, names and rows.\<close>

theorem alias_view:
  assumes "collect t = Inr f" and "frame_wf f" and "alias_table t s name = Inr t'"
  shows "collect t' = Inr f"
  using assms by (auto simp: alias_table_def collect_pandas_init)

subsection \<open>Witnesses\<close>

theorem filter_view_witness:
  "\<exists>tv c. pd_translate ex_right (foldl sym_and (Leaf (Col ex_flag)) []) = Inr tv \<and> tv_value tv = Series c \<and>
     (case collect ex_right of
        Inl e \<Rightarrow> collect (snd (pd_filter ex_right [Leaf (Col ex_flag)])) = Inl e
      | Inr f \<Rightarrow> \<exists>f'. loc_mask f c = Some f' \<and> collect (snd (pd_filter ex_right [Leaf (Col ex_flag)])) = Inr f')"
proof -
  have "fst (pd_filter ex_right [Leaf (Col ex_flag)]) = None"
    by (simp add: ex_right_eval ex_flag_def pd_filter_def translate_eval tv_iter_def loc_mask_def Let_def)
  then have h: "pd_filter ex_right [Leaf (Col ex_flag)] = (None, snd (pd_filter ex_right [Leaf (Col ex_flag)]))"
    by (metis prod.collapse)
  show ?thesis by (rule filter_view [OF h])
qed

theorem arrange_view_witness:
  "\<exists>ks cols. emap (\<lambda>(c, asc). lookup_key ex_left c) [(ex_id, True)] = Inr ks \<and>
     those (map (get_col (df ex_left)) ks) = Some cols \<and>
     collect (snd (arrange ex_left [(ex_id, True)])) =
       ebind (collect ex_left) (\<lambda>f. Inr (reindex f (sort_perm cols (map snd [(ex_id, True)]) (nrows (df ex_left)))))"
proof -
  have "fst (arrange ex_left [(ex_id, True)]) = None"
    by (simp add: ex_left_eval ex_id_def arrange_def lookup_key_def sort_values_def get_col_def one_kind_def)
  then have h: "arrange ex_left [(ex_id, True)] = (None, snd (arrange ex_left [(ex_id, True)]))"
    by (metis prod.collapse)
  show ?thesis by (rule arrange_view [OF h])
qed

theorem alias_view_witness:
  "collect (projr (alias_table ex_left 4 ''a'')) =
     Inr \<lparr>fcols = [(''id'', [VInt 2, VInt 1, VInt 2]), (''name'', [VStr '' x'', VStr ''y '', VStr ''z''])], nrows = 3\<rparr>"
proof -
  have h1: "collect ex_left =
     Inr \<lparr>fcols = [(''id'', [VInt 2, VInt 1, VInt 2]), (''name'', [VStr '' x'', VStr ''y '', VStr ''z''])], nrows = 3\<rparr>"
    by (simp add: collect_def ex_left_eval dict_of_def select_cols_def get_col_def rename_cols_def uuid_to_str_def)
  have h2: "frame_wf \<lparr>fcols = [(''id'', [VInt 2, VInt 1, VInt 2]), (''name'', [VStr '' x'', VStr ''y '', VStr ''z''])], nrows = 3\<rparr>"
    by (simp add: frame_wf_def)
  have h3: "alias_table ex_left 4 ''a'' = Inr (projr (alias_table ex_left 4 ''a''))"
    by (simp add: alias_table_def h1)
  show ?thesis by (rule alias_view [OF h1 h2 h3])
qed

end
