(* ===== verification/MutateView.thy ===== *)
theory MutateView
  imports TableView
begin

text \<open>
  \<open>mutate\<close> seen through \<open>collect\<close>: on a well-formed table, a successful
  \<open>mutate(n = e)\<close> (the abstract layer's fresh identity, then
  \<open>PandasTableImpl.mutate\<close>) is \<open>df.assign(n = value of e)\<close> on the user's table: the
  column \<open>n\<close> is replaced in place if the table shows one, appended otherwise, and every
  other column keeps its data.  The expression is translated against the table as it was.
\<close>

subsection \<open>Collecting through the storage keys\<close>

lemma emap_lookup_Inr:
  "emap (\<lambda>(n, u). case m u of None \<Rightarrow> Inl (e u) | Some k \<Rightarrow> Inr (k, n)) sel = Inr kns \<longleftrightarrow>
   (\<exists>ks. map (\<lambda>(n, u). m u) sel = map Some ks \<and> kns = zip ks (map fst sel))"
proof (induction sel arbitrary: kns)
  case (Cons p sel)
  obtain n u where p: "p = (n, u)" by (cases p)
  show ?case
  proof (cases "m u")
    case (Some k)
    have "emap (\<lambda>(n, u). case m u of None \<Rightarrow> Inl (e u) | Some k \<Rightarrow> Inr (k, n)) (p # sel) = Inr kns \<longleftrightarrow>
          (\<exists>kns'. emap (\<lambda>(n, u). case m u of None \<Rightarrow> Inl (e u) | Some k \<Rightarrow> Inr (k, n)) sel = Inr kns' \<and>
                  kns = (k, n) # kns')"
      using Some p by (auto simp: ebind_eq_Inr)
    also have "\<dots> \<longleftrightarrow> (\<exists>ks. map (\<lambda>(n, u). m u) (p # sel) = map Some ks \<and> kns = zip ks (map fst (p # sel)))"
      using Cons.IH Some p by (auto simp: Cons_eq_map_conv)
    finally show ?thesis .
  qed (use p in auto)
qed auto

lemma distinct_lookup_keys:
  assumes ok: "keys_ok s m" and d: "distinct (map snd sel)" and ks: "map (\<lambda>(n, u). m u) sel = map Some ks"
  shows "distinct ks"
proof -
  have eqf: "(\<lambda>(n, u). m u) = (\<lambda>x. m (snd x))" by auto
  have mm: "map m (map snd sel) = map Some ks" using ks unfolding eqf by (simp add: comp_def)
  have "inj_on m (set (map snd sel))"
  proof (rule inj_onI)
    fix u u' assume u: "u \<in> set (map snd sel)" and u': "u' \<in> set (map snd sel)" and eq: "m u = m u'"
    have "m u \<in> set (map Some ks)" using u mm by (metis image_eqI list.set_map)
    then obtain k where "m u = Some k" by auto
    then show "u = u'" using eq keys_ok_inj [OF ok] by metis
  qed
  then have "distinct (map m (map snd sel))" using d distinct_map [of m "map snd sel"] by blast
  then show ?thesis unfolding mm by (simp add: distinct_map)
qed

lemma collect_keys:
  assumes ok: "keys_ok s (df_name_mapping t)" and d: "distinct (map snd (selected_cols t))"
    and ks: "map (\<lambda>(n, u). df_name_mapping t u) (selected_cols t) = map Some ks"
  shows "collect t = (case those (map (get_col (df t)) ks) of
                        None \<Rightarrow> Inl (KeyError ''column'')
                      | Some cs \<Rightarrow> Inr \<lparr>fcols = zip (map fst (selected_cols t)) cs, nrows = nrows (df t)\<rparr>)"
proof -
  have len: "length ks = length (selected_cols t)" using ks by (metis length_map)
  have e: "emap (\<lambda>(n, u). case df_name_mapping t u of None \<Rightarrow> Inl (KeyError (uuid_to_str u) :: perror)
                           | Some k \<Rightarrow> Inr (k, n)) (selected_cols t) = Inr (zip ks (map fst (selected_cols t)))"
    using ks by (simp add: emap_lookup_Inr)
  have dk: "distinct ks" using distinct_lookup_keys [OF ok d ks] .
  have dict: "dict_of (zip ks (map fst (selected_cols t))) = zip ks (map fst (selected_cols t))"
    using dk len by (intro dict_of_distinct) simp
  have ren: "map (\<lambda>k. case map_of (zip ks (map fst (selected_cols t))) k of None \<Rightarrow> k | Some k' \<Rightarrow> k') ks =
             map fst (selected_cols t)"
    using map_of_zip_rename [OF dk] len by simp
  have fk: "map fst (zip ks (map fst (selected_cols t))) = ks" using len by simp
  show ?thesis
  proof (cases "those (map (get_col (df t)) ks)")
    case None
    then show ?thesis by (simp add: collect_def e dict fk select_cols_def del: map_map)
  next
    case (Some cs)
    have "length cs = length ks" using Some those_eq_Some [of "map (get_col (df t)) ks" cs] by (metis length_map)
    then show ?thesis
      using Some ren by (simp add: collect_def e dict fk select_cols_def rename_cols_def map_rename_zip del: map_map)
  qed
qed

lemma collect_Inr_keys:
  "collect t = Inr f \<Longrightarrow> \<exists>ks. map (\<lambda>(n, u). df_name_mapping t u) (selected_cols t) = map Some ks"
  by (auto simp: collect_def emap_lookup_Inr split: sum.splits)

subsection \<open>Translating against the table being mutated\<close>

text \<open>The table \<open>mutate\<close> translates against maps the fresh identity to a key that is not
  stored; a translation that succeeds there succeeds the same way against the table as it was.\<close>

lemma expr_translate_fresh:
  assumes "df t1 = df t" "operator_registry t1 = operator_registry t"
    and "df_name_mapping t1 = (df_name_mapping t)(u \<mapsto> K)" and "get_col (df t) K = None"
    and "expr_translate t1 nd = Inr a"
  shows "expr_translate t nd = Inr a"
  using assms by (cases "(t1, nd)" rule: expr_translate.cases) (auto split: option.splits if_splits)

lemma pd_translate_fresh:
  assumes "df t1 = df t" "operator_registry t1 = operator_registry t"
    and "df_name_mapping t1 = (df_name_mapping t)(u \<mapsto> K)" and "get_col (df t) K = None"
    and "pd_translate t1 e = Inr tv"
  shows "pd_translate t e = Inr tv"
proof -
  have "bottom_up_replace (pure_cb (expr_translate t1)) () e = Inr (tv, ())"
    using assms(5) by (simp add: pd_translate_Inr)
  then have "bottom_up_replace (pure_cb (expr_translate t)) () e = Inr (tv, ())"
    using bottom_up_replace_mono(1) [of "expr_translate t1" "expr_translate t"] expr_translate_fresh [OF assms(1-4)]
    by blast
  then show ?thesis by (simp add: pd_translate_Inr)
qed

lemma fresh_key_not_stored:
  "ptable_wf s t \<Longrightarrow> key_uuid K = Some u \<Longrightarrow> s \<le> u \<Longrightarrow> get_col (df t) K = None"
  by (auto simp: ptable_wf_def list_all_iff key_below_def get_col_def map_of_eq_None_iff)

lemma mutate_single_steps:
  assumes "mutate_verb t s [(n, e)] = (None, t')"
  shows "\<exists>tv t1. df t1 = df t \<and> operator_registry t1 = operator_registry t \<and>
           df_name_mapping t1 = (df_name_mapping t)(s \<mapsto> mutate_key (tname t) n s) \<and>
           pd_translate t1 e = Inr tv \<and>
           assign_col (df t) (mutate_key (tname t) n s) (tv_value tv) = Some (df t') \<and>
           selected_cols t' = AList.update n s (selected_cols t) \<and>
           df_name_mapping t' = (df_name_mapping t)(s \<mapsto> mutate_key (tname t) n s)"
proof -
  define t1 where "t1 = t\<lparr>named_cols := (named_cols t)(n \<mapsto> s), col_expr := (col_expr t)(s \<mapsto> e),
      selected_cols := AList.update n s (selected_cols t),
      df_name_mapping := (df_name_mapping t)(s \<mapsto> mutate_key (tname t) n s)\<rparr>"
  obtain tv f1 where tr: "pd_translate t1 e = Inr tv"
    and a: "assign (df t) [(mutate_key (tname t) n s, tv_value tv)] = Some f1"
    and t': "t' = t1\<lparr>df := f1, col_dtypes := col_dtypes t ++ map_of [(s, tv_dtype tv)]\<rparr>"
    using assms unfolding t1_def
    by (auto simp: mutate_verb_def mutate_def dict_of_def Let_def ebind_eq_Inr split: sum.splits option.splits)
  have "assign_col (df t) (mutate_key (tname t) n s) (tv_value tv) = Some f1"
    using a by (simp split: option.splits)
  then show ?thesis
    using tr t' by (intro exI [of _ tv] exI [of _ t1]) (simp add: t1_def)
qed

subsection \<open>The selection after the update\<close>

text \<open>Updating one selected name to a new identity whose key holds the column \<open>c\<close>, while
  every other selected identity keeps its key and data, updates the collected columns the
  same way.\<close>

lemma lookups_update:
  assumes "map (\<lambda>(n, u). m u) sel = map Some ks" and "map g ks = map Some cs"
    and "\<forall>(n', u) \<in> set sel. m' u = m u \<and> (\<forall>k. m u = Some k \<longrightarrow> g' k = g k)"
    and "m' s = Some K" and "g' K = Some c"
  shows "\<exists>ks' cs'. map (\<lambda>(n, u). m' u) (AList.update n s sel) = map Some ks' \<and> map g' ks' = map Some cs' \<and>
           zip (map fst (AList.update n s sel)) cs' = AList.update n c (zip (map fst sel) cs)"
  using assms(1-3)
proof (induction sel arbitrary: ks cs)
  case Nil
  then show ?case using assms(4,5) by (intro exI [of _ "[K]"] exI [of _ "[c]"]) simp
next
  case (Cons p sel)
  obtain n0 u0 where p: "p = (n0, u0)" by (cases p)
  obtain k0 ks1 where ks: "ks = k0 # ks1" and mk: "m u0 = Some k0"
    using Cons.prems(1) p by (auto simp: Cons_eq_map_conv)
  obtain c0 cs1 where cs: "cs = c0 # cs1" and gk: "g k0 = Some c0"
    using Cons.prems(2) ks by (auto simp: Cons_eq_map_conv)
  have old: "m' u0 = m u0" "g' k0 = g k0" using Cons.prems(3) p mk by auto
  have tl: "map (\<lambda>(n, u). m u) sel = map Some ks1" using Cons.prems(1) ks p by simp
  have same: "map (\<lambda>(n, u). m' u) sel = map (\<lambda>(n, u). m u) sel"
    using Cons.prems(3) by (auto intro!: map_cong)
  have "\<forall>k \<in> set ks1. g' k = g k"
  proof
    fix k assume "k \<in> set ks1"
    then have "Some k \<in> set (map (\<lambda>(n, u). m u) sel)" using tl by simp
    then obtain x where "x \<in> set sel" "m (snd x) = Some k" by (auto simp: case_prod_beta)
    then show "g' k = g k" using Cons.prems(3) by (cases x) auto
  qed
  then have "map g' ks1 = map g ks1" by (simp add: map_eq_conv)
  moreover have "map g ks1 = map Some cs1" using Cons.prems(2) ks cs by simp
  ultimately have tl': "map g' ks1 = map Some cs1" by simp
  show ?case
  proof (cases "n0 = n")
    case True
    show ?thesis
      using True assms(4,5) p ks cs tl same tl' by (intro exI [of _ "K # ks1"] exI [of _ "c # cs1"]) simp
  next
    case False
    obtain ks' cs' where ih: "map (\<lambda>(n, u). m' u) (AList.update n s sel) = map Some ks'"
      "map g' ks' = map Some cs'" "zip (map fst (AList.update n s sel)) cs' = AList.update n c (zip (map fst sel) cs1)"
      using Cons.IH [OF tl] Cons.prems(2,3) ks cs by auto
    show ?thesis
      using False p old mk gk ih cs by (intro exI [of _ "k0 # ks'"] exI [of _ "c0 # cs'"]) simp
  qed
qed

subsection \<open>mutate refines assign on the user's table\<close>

lemma mutate_single_view:
  assumes wf: "ptable_wf s t" and c: "collect t = Inr f" and st: "mutate_verb t s [(n, e)] = (None, t')"
  shows "\<exists>tv f'. pd_translate t e = Inr tv \<and> assign_col f n (tv_value tv) = Some f' \<and> collect t' = Inr f'"
proof -
  let ?K = "mutate_key (tname t) n s"
  obtain tv t1 where t1: "df t1 = df t" "operator_registry t1 = operator_registry t"
      "df_name_mapping t1 = (df_name_mapping t)(s \<mapsto> ?K)" "pd_translate t1 e = Inr tv"
    and a: "assign_col (df t) ?K (tv_value tv) = Some (df t')"
    and sel': "selected_cols t' = AList.update n s (selected_cols t)"
    and m': "df_name_mapping t' = (df_name_mapping t)(s \<mapsto> ?K)"
    using mutate_single_steps [OF st] by blast
  have fresh: "get_col (df t) ?K = None"
    using fresh_key_not_stored [OF wf key_uuid_mutate_key] by simp
  have tr: "pd_translate t e = Inr tv" using pd_translate_fresh [OF t1(1-3) fresh t1(4)] .
  have ok: "keys_ok s (df_name_mapping t)" and d: "distinct (map snd (selected_cols t))"
    and below: "\<forall>(n', u) \<in> set (selected_cols t). u < s"
    using wf by (auto simp: ptable_wf_def list_all_iff)
  obtain ks where ks: "map (\<lambda>(n, u). df_name_mapping t u) (selected_cols t) = map Some ks"
    using collect_Inr_keys [OF c] by blast
  obtain cs where cs: "map (get_col (df t)) ks = map Some cs"
    and f: "f = \<lparr>fcols = zip (map fst (selected_cols t)) cs, nrows = nrows (df t)\<rparr>"
    using c collect_keys [OF ok d ks] by (auto simp: those_eq_Some split: option.splits)
  let ?c = "series_of (tv_value tv) (nrows (df t))"
  have valid: "case tv_value tv of Series c \<Rightarrow> length c = nrows (df t) | Scalar x \<Rightarrow> True"
    using a by (simp add: assign_col_Some)
  have f': "assign_col f n (tv_value tv) = Some (f\<lparr>fcols := AList.update n ?c (fcols f)\<rparr>)"
  proof -
    have "nrows f = nrows (df t)" by (simp add: f)
    then show ?thesis using valid by (simp add: assign_col_Some split: pval.splits)
  qed
  have old1: "df_name_mapping t' u = df_name_mapping t u \<and>
               (\<forall>k. df_name_mapping t u = Some k \<longrightarrow> get_col (df t') k = get_col (df t) k)"
    if "(n', u) \<in> set (selected_cols t)" for n' u
  proof (intro conjI allI impI)
    have u: "u < s" using below that by blast
    then show "df_name_mapping t' u = df_name_mapping t u" using m' by simp
    fix k assume "df_name_mapping t u = Some k"
    then have "key_uuid k = Some u" using keys_okD [OF ok] by blast
    then have "k \<noteq> ?K" using u key_uuid_mutate_key [of "tname t" n s] by auto
    then show "get_col (df t') k = get_col (df t) k" using get_col_assign_col [OF a] by blast
  qed
  have old: "\<forall>(n', u) \<in> set (selected_cols t). df_name_mapping t' u = df_name_mapping t u \<and>
               (\<forall>k. df_name_mapping t u = Some k \<longrightarrow> get_col (df t') k = get_col (df t) k)"
    using old1 by blast
  have ms: "df_name_mapping t' s = Some ?K" using m' by simp
  have gK: "get_col (df t') ?K = Some ?c" using get_col_assign_col_self [OF a] .
  obtain ks' cs' where ks': "map (\<lambda>(n, u). df_name_mapping t' u) (AList.update n s (selected_cols t)) = map Some ks'"
    and cs': "map (get_col (df t')) ks' = map Some cs'"
    and z: "zip (map fst (AList.update n s (selected_cols t))) cs' = AList.update n ?c (zip (map fst (selected_cols t)) cs)"
    using lookups_update [where n = n, OF ks cs old ms gK] by blast
  have ok': "keys_ok (s + 1) (df_name_mapping t')" and d': "distinct (map snd (selected_cols t'))"
    using ptable_wf_mutate_verb [OF wf st] by (simp_all add: ptable_wf_def)
  have "collect t' = Inr \<lparr>fcols = zip (map fst (selected_cols t')) cs', nrows = nrows (df t')\<rparr>"
    using collect_keys [OF ok' d'] ks' cs' sel' by (simp add: those_map_Some)
  then have "collect t' = Inr (f\<lparr>fcols := AList.update n ?c (fcols f)\<rparr>)"
    using z sel' nrows_assign_col [OF a] by (simp add: f)
  then show ?thesis using tr f' by blast
qed

text \<open>C26: on a well-formed table whose collect succeeds, a successful mutate(n = e) translates e against the table as it was and, seen through collect, is df.assign(n = value): the collected table afterwards is the collected table before with column n replaced in place (or appended) by the translated value, a scalar broadcast to every row, and every other column unchanged.\<close>

theorem mutate_view:
  assumes wf: "ptable_wf s t" and c: "collect t = Inr f" and st: "mutate_verb t s [(n, e)] = (None, t')"
  shows "\<exists>tv f'. pd_translate t e = Inr tv \<and> assign_col f n (tv_value tv) = Some f' \<and> collect t' = Inr f'"
  using mutate_single_view [OF wf c st] .

theorem mutate_view_witness:
  "collect (snd (mutate_verb ex_left 2 [(''name'', Call ''str.strip'' [Leaf (Col ex_name)] [])])) =
     Inr \<lparr>fcols = [(''id'', [VInt 2, VInt 1, VInt 2]), (''name'', [VStr ''x'', VStr ''y'', VStr ''z''])], nrows = 3\<rparr>"
proof -
  have h1: "collect ex_left =
     Inr \<lparr>fcols = [(''id'', [VInt 2, VInt 1, VInt 2]), (''name'', [VStr '' x'', VStr ''y '', VStr ''z''])], nrows = 3\<rparr>"
    by (simp add: collect_def ex_left_eval dict_of_def select_cols_def get_col_def rename_cols_def uuid_to_str_def)
  have "fst (mutate_verb ex_left 2 [(''name'', Call ''str.strip'' [Leaf (Col ex_name)] [])]) = None"
    by (simp add: ex_left_eval ex_reg_eval ex_name_def mutate_eval Let_def py_strip_def is_space_def)
  then have h2: "mutate_verb ex_left 2 [(''name'', Call ''str.strip'' [Leaf (Col ex_name)] [])] =
      (None, snd (mutate_verb ex_left 2 [(''name'', Call ''str.strip'' [Leaf (Col ex_name)] [])]))"
    by (metis prod.collapse)
  have tr: "pd_translate ex_left (Call ''str.strip'' [Leaf (Col ex_name)] []) =
     Inr (TypedValue (Series [VStr ''x'', VStr ''y'', VStr ''z'']) ''object'')"
    by (simp add: ex_left_eval ex_reg_eval ex_name_def translate_eval py_strip_def is_space_def)
  obtain tv f' where tv0: "pd_translate ex_left (Call ''str.strip'' [Leaf (Col ex_name)] []) = Inr tv"
    and as: "assign_col \<lparr>fcols = [(''id'', [VInt 2, VInt 1, VInt 2]), (''name'', [VStr '' x'', VStr ''y '', VStr ''z''])], nrows = 3\<rparr>
           ''name'' (tv_value tv) = Some f'"
    and co: "collect (snd (mutate_verb ex_left 2 [(''name'', Call ''str.strip'' [Leaf (Col ex_name)] [])])) = Inr f'"
    using mutate_view [OF ex_left_wf h1 h2] by blast
  have "tv = TypedValue (Series [VStr ''x'', VStr ''y'', VStr ''z'']) ''object''" using tr tv0 by simp
  then show ?thesis using as co by (simp add: TypedValue_def assign_col_def)
qed

end
