(* ===== verification/Selection.thy ===== *)
theory Selection
  imports MutateView
begin

text \<open>
  The abstract layer's \<open>select\<close> verb (not under src/, modelled from the spec's table
  contract) and what the pandas backend's \<open>collect\<close> makes of it: the new selection names
  the chosen columns, possibly under new display names, and no column identity, storage
  key or stored column changes.  A column that the table does not define is a
  \<open>KeyError\<close>.  The theory also shows that \<open>arrange\<close> by selected columns of a
  well-formed table whose \<open>collect\<close> succeeds always succeeds when each key column holds
  cells of one kind.
\<close>

definition select_verb :: "ptable \<Rightarrow> (string \<times> column) list \<Rightarrow> perror + ptable" where
  "select_verb t cols =
     (case find (\<lambda>(n, c). col_expr t (col_uuid c) = None) cols of
        Some (n, c) \<Rightarrow> Inl (KeyError (col_name c))
      | None \<Rightarrow> Inr (t\<lparr>selected_cols := map (\<lambda>(n, c). (n, col_uuid c)) cols,
                       named_cols := map_of (map (\<lambda>(n, c). (n, col_uuid c)) cols)\<rparr>))"

subsection \<open>Stored columns of a collectable table\<close>

lemma collect_column_of:
  assumes wf: "ptable_wf s t" and c: "collect t = Inr f" and nu: "(n, u) \<in> set (selected_cols t)"
  shows "\<exists>k v. df_name_mapping t u = Some k \<and> get_col (df t) k = Some v \<and>
           map_of (zip (map snd (selected_cols t)) (map snd (fcols f))) u = Some v"
proof -
  have ok: "keys_ok s (df_name_mapping t)" and d: "distinct (map snd (selected_cols t))"
    using wf by (simp_all add: ptable_wf_def)
  obtain ks where ks: "map (\<lambda>(n, u). df_name_mapping t u) (selected_cols t) = map Some ks"
    using collect_Inr_keys [OF c] by blast
  obtain cs where cs: "map (get_col (df t)) ks = map Some cs"
    and f: "f = \<lparr>fcols = zip (map fst (selected_cols t)) cs, nrows = nrows (df t)\<rparr>"
    using c collect_keys [OF ok d ks] by (auto simp: those_eq_Some split: option.splits)
  have lk: "length ks = length (selected_cols t)" using ks by (metis length_map)
  have lc: "length cs = length ks" using cs by (metis length_map)
  obtain i where i: "i < length (selected_cols t)" "selected_cols t ! i = (n, u)"
    using nu by (auto simp: in_set_conv_nth)
  have "map (\<lambda>(n, u). df_name_mapping t u) (selected_cols t) ! i = map Some ks ! i" using ks by simp
  then have k: "df_name_mapping t u = Some (ks ! i)" using i lk by simp
  have "map (get_col (df t)) ks ! i = map Some cs ! i" using cs by simp
  then have v: "get_col (df t) (ks ! i) = Some (cs ! i)" using i lk lc by simp
  have "map snd (fcols f) = cs" using lk lc by (simp add: f)
  moreover have "map snd (selected_cols t) ! i = u" using i by simp
  ultimately have "map_of (zip (map snd (selected_cols t)) (map snd (fcols f))) u = Some (cs ! i)"
    using d i lk lc map_of_zip_nth [of "map snd (selected_cols t)" cs i] by simp
  then show ?thesis using k v by blast
qed

subsection \<open>The contract of select\<close>

lemma zip_map_fst_case:
  "zip (map fst xs) (map (\<lambda>(n, c). g c) xs) = map (\<lambda>(n, c). (n, g c)) xs"
  by (induction xs) auto

lemma expr_translate_same:
  "df t' = df t \<Longrightarrow> df_name_mapping t' = df_name_mapping t \<Longrightarrow> operator_registry t' = operator_registry t \<Longrightarrow>
     expr_translate t' nd = expr_translate t nd"
  by (cases "(t', nd)" rule: expr_translate.cases) (auto split: option.splits)

lemma pd_translate_same:
  assumes "df t' = df t" "df_name_mapping t' = df_name_mapping t" "operator_registry t' = operator_registry t"
  shows "pd_translate t' e = pd_translate t e"
proof -
  have "expr_translate t' nd = expr_translate t nd" for nd
    using assms by (rule expr_translate_same)
  then have "expr_translate t' = expr_translate t" by (rule ext)
  then show ?thesis by (simp add: pd_translate_def)
qed

lemma select_verb_Inr:
  "select_verb t cols = Inr t' \<Longrightarrow>
     t' = t\<lparr>selected_cols := map (\<lambda>(n, c). (n, col_uuid c)) cols,
            named_cols := map_of (map (\<lambda>(n, c). (n, col_uuid c)) cols)\<rparr>"
  by (simp add: select_verb_def split: option.splits prod.splits)

text \<open>C27: select keeps column identities: after select, every expression translates exactly as before (so expressions over the old columns still resolve to the same data); and, seen through collect, select on a well-formed table picks the chosen visible columns of the user's table by identity, in the chosen order and under the chosen names.\<close>

theorem select_view:
  assumes wf: "ptable_wf s t" and c: "collect t = Inr f" and st: "select_verb t cols = Inr t'"
    and d: "distinct (map (col_uuid \<circ> snd) cols)"
    and vis: "\<forall>(n, col) \<in> set cols. col_uuid col \<in> snd ` set (selected_cols t)"
  shows "(\<forall>e. pd_translate t' e = pd_translate t e) \<and>
         collect t' = Inr \<lparr>fcols = map (\<lambda>(n, col). (n, the (map_of (zip (map snd (selected_cols t))
                                  (map snd (fcols f))) (col_uuid col)))) cols,
                         nrows = nrows f\<rparr>"
proof -
  have t': "t' = t\<lparr>selected_cols := map (\<lambda>(n, c). (n, col_uuid c)) cols,
                  named_cols := map_of (map (\<lambda>(n, c). (n, col_uuid c)) cols)\<rparr>"
    using select_verb_Inr [OF st] .
  let ?col = "\<lambda>u. the (map_of (zip (map snd (selected_cols t)) (map snd (fcols f))) u)"
  let ?key = "\<lambda>u. the (df_name_mapping t u)"
  have each: "df_name_mapping t (col_uuid col) = Some (?key (col_uuid col)) \<and>
              get_col (df t) (?key (col_uuid col)) = Some (?col (col_uuid col))"
    if nc: "(n, col) \<in> set cols" for n col
  proof -
    have "col_uuid col \<in> snd ` set (selected_cols t)" using vis nc by blast
    then obtain n' where "(n', col_uuid col) \<in> set (selected_cols t)" by force
    then show ?thesis using collect_column_of [OF wf c] by fastforce
  qed
  have ks: "map (\<lambda>(n, u). df_name_mapping t' u) (selected_cols t') = map Some (map (\<lambda>(n, col). ?key (col_uuid col)) cols)"
    using each by (auto simp: t')
  have cs: "map (get_col (df t')) (map (\<lambda>(n, col). ?key (col_uuid col)) cols) =
            map Some (map (\<lambda>(n, col). ?col (col_uuid col)) cols)"
    using each by (auto simp: t')
  have ok: "keys_ok s (df_name_mapping t')" using wf by (simp add: ptable_wf_def t')
  have d': "distinct (map snd (selected_cols t'))" using d by (simp add: t' comp_def case_prod_beta)
  have cl: "collect t' = Inr \<lparr>fcols = zip (map fst (selected_cols t')) (map (\<lambda>(n, col). ?col (col_uuid col)) cols),
                          nrows = nrows (df t')\<rparr>"
    using collect_keys [OF ok d' ks] unfolding cs those_map_Some by simp
  have nm: "map fst (selected_cols t') = map fst cols" by (simp add: t' comp_def case_prod_beta)
  have zp: "zip (map fst cols) (map (\<lambda>(n, col). ?col (col_uuid col)) cols) =
                 map (\<lambda>(n, col). (n, ?col (col_uuid col))) cols"
    by (rule zip_map_fst_case)
  have nr: "nrows (df t') = nrows f" using nrows_collect [OF c] by (simp add: t')
  have "\<forall>e. pd_translate t' e = pd_translate t e"
    using pd_translate_same [of t' t] by (simp add: t')
  moreover have "collect t' = Inr \<lparr>fcols = map (\<lambda>(n, col). (n, ?col (col_uuid col))) cols, nrows = nrows f\<rparr>"
    unfolding cl nm zp nr ..
  ultimately show ?thesis by (rule conjI)
qed

theorem select_view_witness:
  "collect (projr (select_verb ex_left [(''nm'', ex_name), (''ident'', ex_id)])) =
     Inr \<lparr>fcols = [(''nm'', [VStr '' x'', VStr ''y '', VStr ''z'']), (''ident'', [VInt 2, VInt 1, VInt 2])], nrows = 3\<rparr>"
proof -
  have h1: "collect ex_left =
     Inr \<lparr>fcols = [(''id'', [VInt 2, VInt 1, VInt 2]), (''name'', [VStr '' x'', VStr ''y '', VStr ''z''])], nrows = 3\<rparr>"
    by (simp add: collect_def ex_left_eval dict_of_def select_cols_def get_col_def rename_cols_def uuid_to_str_def)
  have h2: "select_verb ex_left [(''nm'', ex_name), (''ident'', ex_id)] =
      Inr (projr (select_verb ex_left [(''nm'', ex_name), (''ident'', ex_id)]))"
    by (simp add: select_verb_def ex_left_eval ex_id_def ex_name_def)
  have h3: "distinct (map (col_uuid \<circ> snd) [(''nm'', ex_name), (''ident'', ex_id)])"
    by (simp add: ex_id_def ex_name_def)
  have h4: "\<forall>(n, col) \<in> set [(''nm'', ex_name), (''ident'', ex_id)]. col_uuid col \<in> snd ` set (selected_cols ex_left)"
    by (simp add: ex_left_eval ex_id_def ex_name_def)
  show ?thesis
    using select_view [OF ex_left_wf h1 h2 h3 h4] by (simp add: ex_left_eval ex_id_def ex_name_def)
qed

subsection \<open>Progress of arrange\<close>

lemma those_total: "(\<forall>x \<in> set xs. \<exists>y. f x = Some y) \<Longrightarrow> \<exists>ys. those (map f xs) = Some ys"
  by (induction xs) auto

lemma lookup_key_selected:
  assumes wf: "ptable_wf s t" and c: "collect t = Inr f" and u: "col_uuid col \<in> snd ` set (selected_cols t)"
  shows "\<exists>k v. lookup_key t col = Inr k \<and> get_col (df t) k = Some v"
proof -
  obtain n where "(n, col_uuid col) \<in> set (selected_cols t)" using u by force
  then obtain k v where "df_name_mapping t (col_uuid col) = Some k" "get_col (df t) k = Some v"
    using collect_column_of [OF wf c] by blast
  then show ?thesis by (simp add: lookup_key_def)
qed

lemma lookup_keys_stored:
  assumes wf: "ptable_wf s t" and c: "collect t = Inr f"
    and vis: "\<forall>col \<in> set cs. col_uuid col \<in> snd ` set (selected_cols t)"
  shows "\<exists>ks vs. emap (lookup_key t) cs = Inr ks \<and> those (map (get_col (df t)) ks) = Some vs"
proof -
  have each: "\<exists>k v. lookup_key t col = Inr k \<and> get_col (df t) k = Some v" if p: "col \<in> set cs" for col
    using vis p by (intro lookup_key_selected [OF wf c]) blast
  then obtain ks where ks: "emap (lookup_key t) cs = Inr ks" using emap_total by meson
  have "\<forall>k \<in> set ks. \<exists>v. get_col (df t) k = Some v"
  proof
    fix k assume "k \<in> set ks"
    then obtain col where x: "col \<in> set cs" "lookup_key t col = Inr k"
      using emap_Inr_set [OF ks] by blast
    then show "\<exists>v. get_col (df t) k = Some v" using each [OF x(1)] by auto
  qed
  then show ?thesis using ks those_total by blast
qed

lemma emap_map_fst: "emap (\<lambda>(x, y). f x) xs = emap f (map fst xs)"
  by (induction xs) auto

lemma stored_value_of_key:
  assumes "those (map (get_col g) ks) = Some vs" and "v \<in> set vs"
  shows "\<exists>k \<in> set ks. get_col g k = Some v"
proof -
  have "Some v \<in> set (map (get_col g) ks)" using assms by (simp add: those_eq_Some)
  then show ?thesis by auto
qed

lemma lookup_stored_nth:
  assumes ks: "emap (lookup_key t) cs = Inr ks" and vs: "those (map (get_col (df t)) ks) = Some vs"
    and i: "i < length cs"
  shows "length vs = length cs \<and> df_name_mapping t (col_uuid (cs ! i)) = Some (ks ! i) \<and>
         get_col (df t) (ks ! i) = Some (vs ! i)"
proof -
  have a2: "list_all2 (\<lambda>x y. lookup_key t x = Inr y) cs ks" using ks by (simp add: emap_Inr_iff)
  have m: "map (get_col (df t)) ks = map Some vs" using vs by (simp add: those_eq_Some)
  then have l: "length vs = length ks" by (metis length_map)
  have lk: "length ks = length cs" using a2 by (simp add: list_all2_lengthD)
  have "lookup_key t (cs ! i) = Inr (ks ! i)" using a2 i by (simp add: list_all2_conv_all_nth)
  then have "df_name_mapping t (col_uuid (cs ! i)) = Some (ks ! i)"
    by (simp add: lookup_key_def split: option.splits)
  moreover have "get_col (df t) (ks ! i) = Some (vs ! i)"
    using arg_cong [OF m, of "\<lambda>xs. xs ! i"] i lk l by simp
  ultimately show ?thesis using l lk by simp
qed

lemma arrange_completes:
  assumes wf: "ptable_wf s t" and c: "collect t = Inr f" and ne: "ords \<noteq> []"
    and vis: "\<forall>(col, asc) \<in> set ords. col_uuid col \<in> snd ` set (selected_cols t)"
    and kinds: "\<forall>(col, asc) \<in> set ords. \<forall>k v. df_name_mapping t (col_uuid col) = Some k \<longrightarrow>
                  get_col (df t) k = Some v \<longrightarrow> one_kind v"
  shows "\<exists>t'. arrange t ords = (None, t')"
proof -
  have "\<forall>col \<in> set (map fst ords). col_uuid col \<in> snd ` set (selected_cols t)" using vis by force
  then obtain ks vs where ks: "emap (lookup_key t) (map fst ords) = Inr ks"
    and vs: "those (map (get_col (df t)) ks) = Some vs"
    using lookup_keys_stored [OF wf c] by blast
  have "one_kind v" if v: "v \<in> set vs" for v
  proof -
    obtain k where k: "k \<in> set ks" and g: "get_col (df t) k = Some v" using stored_value_of_key [OF vs v] by blast
    obtain col where col: "col \<in> set (map fst ords)" and l: "lookup_key t col = Inr k"
      using emap_Inr_set [OF ks k] by blast
    obtain asc where o: "(col, asc) \<in> set ords" using col by force
    have "df_name_mapping t (col_uuid col) = Some k" using l by (simp add: lookup_key_def split: option.splits)
    then show ?thesis using kinds o g by blast
  qed
  then have "list_all one_kind vs" by (simp add: list_all_iff)
  then show ?thesis using ne ks vs by (simp add: arrange_def sort_values_def emap_map_fst)
qed

text \<open>C28: arrange makes progress: on a well-formed table whose collect succeeds, arrange by a non-empty list of columns of the current selection, each holding cells of one kind (ints, bools or strings, with missing values), never raises and always returns a sorted table.  A key column that mixes kinds makes sort_values raise TypeError, as Python cannot order an int against a str.\<close>

theorem arrange_progress:
  assumes wf: "ptable_wf s t" and c: "collect t = Inr f" and ne: "ords \<noteq> []"
    and vis: "\<forall>(col, asc) \<in> set ords. col_uuid col \<in> snd ` set (selected_cols t)"
    and kinds: "\<forall>(col, asc) \<in> set ords. \<forall>k v. df_name_mapping t (col_uuid col) = Some k \<longrightarrow>
                  get_col (df t) k = Some v \<longrightarrow> one_kind v"
  shows "\<exists>t'. arrange t ords = (None, t')"
  using arrange_completes [OF wf c ne vis kinds] .

theorem arrange_progress_witness: "\<exists>t'. arrange ex_left [(ex_name, False), (ex_id, True)] = (None, t')"
proof -
  have h1: "collect ex_left =
     Inr \<lparr>fcols = [(''id'', [VInt 2, VInt 1, VInt 2]), (''name'', [VStr '' x'', VStr ''y '', VStr ''z''])], nrows = 3\<rparr>"
    by (simp add: collect_def ex_left_eval dict_of_def select_cols_def get_col_def rename_cols_def uuid_to_str_def)
  have h2: "\<forall>(col, asc) \<in> set [(ex_name, False), (ex_id, True)]. col_uuid col \<in> snd ` set (selected_cols ex_left)"
    by (simp add: ex_left_eval ex_id_def ex_name_def)
  have h3: "\<forall>(col, asc) \<in> set [(ex_name, False), (ex_id, True)]. \<forall>k v. df_name_mapping ex_left (col_uuid col) = Some k \<longrightarrow>
                  get_col (df ex_left) k = Some v \<longrightarrow> one_kind v"
    by (simp add: ex_left_eval ex_id_def ex_name_def get_col_def one_kind_def)
  show ?thesis by (rule arrange_progress [OF ex_left_wf h1 _ h2 h3]) simp
qed

end
