(* ===== verification/MutateBatch.thy ===== *)
theory MutateBatch
  imports Progress
begin

text \<open>
  \<open>mutate\<close> with several keyword arguments.  A Python call \<open>mutate(n1=e1, ..., nk=ek)\<close>
  has distinct names.  The abstract layer gives the names the fresh identities
  \<open>s, ..., s + k - 1\<close>; \<open>PandasTableImpl.mutate\<close> then maps every identity to its storage
  key, translates every expression against that table, and assigns all the values in one
  \<open>df.assign\<close>.  This theory computes that call for distinct names and shows it equal to
  the k single-name mutates one after the other, each on the table the previous one left
  and with the next identity (\<open>mutate_seq\<close>, the reference).  Seen through \<open>collect\<close>, the
  call is \<open>df.assign\<close> of all the translated values on the user's table, in the order
  written.  \<open>mutate_table\<close> and \<open>mutate_keys\<close> name the intermediate table and the storage
  keys of \<open>mutate_verb\<close>, for the proofs.  A failing single-name mutate leaves the table
  with a selected column whose storage key was never stored, so that its \<open>collect\<close>
  raises.  Last, the two verbs compose: the column a mutate creates can at once be
  sorted by, when its cells are of one kind.
\<close>

subsection \<open>The table mutate translates against\<close>

definition mutate_keys :: "ptable \<Rightarrow> nat \<Rightarrow> (string \<times> pexpr) list \<Rightarrow> string list" where
  "mutate_keys t s kws = map2 (\<lambda>u (n, e). mutate_key (tname t) n u) [s..<s + length kws] kws"

definition mutate_table :: "ptable \<Rightarrow> nat \<Rightarrow> (string \<times> pexpr) list \<Rightarrow> ptable" where
  "mutate_table t s kws =
     t\<lparr>named_cols := named_cols t ++ map_of (zip (map fst kws) [s..<s + length kws]),
       col_expr := col_expr t ++ map_of (zip [s..<s + length kws] (map snd kws)),
       selected_cols := foldl (\<lambda>sel (nm, u). AList.update nm u sel) (selected_cols t)
                          (zip (map fst kws) [s..<s + length kws]),
       df_name_mapping := df_name_mapping t ++ map_of (zip [s..<s + length kws] (mutate_keys t s kws))\<rparr>"

text \<open>The reference: the names one at a time, each single-name mutate on the table the
  previous one left, with the next identity, stopping at the first exception.\<close>

fun mutate_seq :: "ptable \<Rightarrow> nat \<Rightarrow> (string \<times> pexpr) list \<Rightarrow> perror option \<times> ptable" where
  "mutate_seq t s [] = (None, t)"
| "mutate_seq t s (kw # kws) =
     (case mutate_verb t s [kw] of
        (None, t1) \<Rightarrow> mutate_seq t1 (Suc s) kws
      | (Some err, t1) \<Rightarrow> (Some err, t1))"

lemma mutate_lookup_names:
  assumes "distinct (map fst kws)"
  shows "emap (\<lambda>(k, v). case (named_cols t ++ map_of (zip (map fst kws) [s..<s + length kws])) k of
                          None \<Rightarrow> Inl (KeyError k) | Some u \<Rightarrow> Inr (u, k, v)) kws =
         Inr (zip [s..<s + length kws] kws)"
proof -
  have "list_all2 (\<lambda>x y. (\<lambda>(k, v). case (named_cols t ++ map_of (zip (map fst kws) [s..<s + length kws])) k of
                          None \<Rightarrow> Inl (KeyError k) | Some u \<Rightarrow> Inr (u, k, v)) x = Inr y)
          kws (zip [s..<s + length kws] kws)"
  proof (rule list_all2_all_nthI)
    fix i assume i: "i < length kws"
    have "map_of (zip (map fst kws) [s..<s + length kws]) (map fst kws ! i) = Some ([s..<s + length kws] ! i)"
      using assms i by (intro map_of_zip_nth) simp_all
    then show "(\<lambda>(k, v). case (named_cols t ++ map_of (zip (map fst kws) [s..<s + length kws])) k of
                          None \<Rightarrow> Inl (KeyError k) | Some u \<Rightarrow> Inr (u, k, v)) (kws ! i) =
               Inr (zip [s..<s + length kws] kws ! i)"
      using i by (cases "kws ! i") simp
  qed simp
  then show ?thesis by (simp add: emap_Inr_iff)
qed

lemma zip_keys:
  "map (\<lambda>(u, k, v). (u, g k u)) (zip us kws) = zip us (map2 (\<lambda>u (n, e). g n u) us kws)"
  by (induction us arbitrary: kws) (auto simp: zip_Cons1 split: list.splits)

lemma mutate_verb_distinct:
  assumes "distinct (map fst kws)"
  shows "mutate_verb t s kws =
    (case emap (\<lambda>(u, k, v). ebind (pd_translate (mutate_table t s kws) v) (\<lambda>tv. Inr (u, k, tv)))
                (zip [s..<s + length kws] kws) of
       Inl e \<Rightarrow> (Some e, mutate_table t s kws)
     | Inr tvs \<Rightarrow>
         (case assign (df t) (map (\<lambda>(u, k, tv). (mutate_key (tname t) k u, tv_value tv)) tvs) of
            None \<Rightarrow> (Some (ValueError ''Length of values does not match''), mutate_table t s kws)
          | Some f \<Rightarrow> (None, (mutate_table t s kws)\<lparr>df := f,
                        col_dtypes := col_dtypes t ++ map_of (map (\<lambda>(u, k, tv). (u, tv_dtype tv)) tvs)\<rparr>)))"
proof -
  have d: "dict_of (zip [s..<s + length kws] kws) = zip [s..<s + length kws] kws"
    by (intro dict_of_distinct) simp
  show ?thesis
    unfolding mutate_verb_def mutate_def Let_def
    by (simp add: mutate_lookup_names [OF assms] d zip_keys mutate_table_def mutate_keys_def
        cong: sum.case_cong option.case_cong)
qed

lemma emap_translate_zip:
  "length us = length kws \<Longrightarrow>
   emap (\<lambda>(u, k, v). ebind (f v) (\<lambda>tv. Inr (u, k, tv))) (zip us kws) = Inr r \<longleftrightarrow>
   (\<exists>tvs. list_all2 (\<lambda>(n, e) tv. f e = Inr tv) kws tvs \<and> r = zip us (zip (map fst kws) tvs))"
proof (induction kws arbitrary: us r)
  case Nil
  then show ?case by auto
next
  case (Cons kw kws)
  then obtain u us' where us: "us = u # us'" and l: "length us' = length kws" by (cases us) auto
  show ?case
    using Cons.IH [OF l] by (cases kw) (fastforce simp: us ebind_eq_Inr list_all2_Cons1)
qed

lemma zip_triples_keys:
  "length us = length kws \<Longrightarrow> length tvs = length kws \<Longrightarrow>
   map (\<lambda>(u, k, tv). (g k u, h tv)) (zip us (zip (map fst kws) tvs)) =
   zip (map2 (\<lambda>u (n, e). g n u) us kws) (map h tvs)"
  by (induction kws arbitrary: us tvs) (auto simp: length_Suc_conv)

lemma zip_triples_dtypes:
  "length us = length kws \<Longrightarrow> length tvs = length kws \<Longrightarrow>
   map (\<lambda>(u, k, tv). (u, h tv)) (zip us (zip (map fst kws) tvs)) = zip us (map h tvs)"
  by (induction kws arbitrary: us tvs) (auto simp: length_Suc_conv)

lemma mutate_verb_None_iff:
  assumes "distinct (map fst kws)"
  shows "mutate_verb t s kws = (None, t') \<longleftrightarrow>
    (\<exists>tvs F. list_all2 (\<lambda>(n, e) tv. pd_translate (mutate_table t s kws) e = Inr tv) kws tvs \<and>
       assign (df t) (zip (mutate_keys t s kws) (map tv_value tvs)) = Some F \<and>
       t' = (mutate_table t s kws)\<lparr>df := F,
              col_dtypes := col_dtypes t ++ map_of (zip [s..<s + length kws] (map tv_dtype tvs))\<rparr>)"
    (is "?l \<longleftrightarrow> ?r")
proof
  assume ?l
  then obtain r F where e: "emap (\<lambda>(u, k, v). ebind (pd_translate (mutate_table t s kws) v) (\<lambda>tv. Inr (u, k, tv)))
                (zip [s..<s + length kws] kws) = Inr r"
    and a: "assign (df t) (map (\<lambda>(u, k, tv). (mutate_key (tname t) k u, tv_value tv)) r) = Some F"
    and t': "t' = (mutate_table t s kws)\<lparr>df := F,
                        col_dtypes := col_dtypes t ++ map_of (map (\<lambda>(u, k, tv). (u, tv_dtype tv)) r)\<rparr>"
    unfolding mutate_verb_distinct [OF assms] by (auto split: sum.splits option.splits)
  obtain tvs where tvs: "list_all2 (\<lambda>(n, e) tv. pd_translate (mutate_table t s kws) e = Inr tv) kws tvs"
    and r: "r = zip [s..<s + length kws] (zip (map fst kws) tvs)"
    using e emap_translate_zip [of "[s..<s + length kws]" kws] by auto
  have l: "length tvs = length kws" using tvs by (simp add: list_all2_lengthD)
  have k: "map (\<lambda>(u, k, tv). (mutate_key (tname t) k u, tv_value tv)) r = zip (mutate_keys t s kws) (map tv_value tvs)"
    unfolding r mutate_keys_def by (rule zip_triples_keys) (simp_all add: l)
  have dt: "map (\<lambda>(u, k, tv). (u, tv_dtype tv)) r = zip [s..<s + length kws] (map tv_dtype tvs)"
    unfolding r by (rule zip_triples_dtypes) (simp_all add: l)
  show ?r using a t' tvs unfolding k dt by blast
next
  assume ?r
  then obtain tvs F where tvs: "list_all2 (\<lambda>(n, e) tv. pd_translate (mutate_table t s kws) e = Inr tv) kws tvs"
    and a: "assign (df t) (zip (mutate_keys t s kws) (map tv_value tvs)) = Some F"
    and t': "t' = (mutate_table t s kws)\<lparr>df := F,
              col_dtypes := col_dtypes t ++ map_of (zip [s..<s + length kws] (map tv_dtype tvs))\<rparr>"
    by blast
  have l: "length tvs = length kws" using tvs by (simp add: list_all2_lengthD)
  have e: "emap (\<lambda>(u, k, v). ebind (pd_translate (mutate_table t s kws) v) (\<lambda>tv. Inr (u, k, tv)))
                (zip [s..<s + length kws] kws) = Inr (zip [s..<s + length kws] (zip (map fst kws) tvs))"
    using emap_translate_zip [of "[s..<s + length kws]" kws] tvs by auto
  have k: "map (\<lambda>(u, k, tv). (mutate_key (tname t) k u, tv_value tv)) (zip [s..<s + length kws] (zip (map fst kws) tvs)) =
           zip (mutate_keys t s kws) (map tv_value tvs)"
    unfolding mutate_keys_def by (rule zip_triples_keys) (simp_all add: l)
  have dt: "map (\<lambda>(u, k, tv). (u, tv_dtype tv)) (zip [s..<s + length kws] (zip (map fst kws) tvs)) =
            zip [s..<s + length kws] (map tv_dtype tvs)"
    by (rule zip_triples_dtypes) (simp_all add: l)
  show ?l
    unfolding mutate_verb_distinct [OF assms] e sum.case k dt a option.case t' ..
qed

subsection \<open>Translations that only read stored columns\<close>

text \<open>A successful translation reads a column only through a mapped key whose column is
  stored; any table that maps those identities to the same keys, stores the same columns
  under them and has the same registry translates the expression the same way.\<close>

lemma expr_translate_agree:
  assumes "operator_registry t' = operator_registry t"
    and "\<forall>u k c. df_name_mapping t u = Some k \<and> get_col (df t) k = Some c \<longrightarrow>
                 df_name_mapping t' u = Some k \<and> get_col (df t') k = Some c"
    and "expr_translate t nd = Inr a"
  shows "expr_translate t' nd = Inr a"
  using assms by (cases "(t, nd)" rule: expr_translate.cases) (auto split: option.splits)

lemma pd_translate_agree:
  assumes "operator_registry t' = operator_registry t"
    and "\<forall>u k c. df_name_mapping t u = Some k \<and> get_col (df t) k = Some c \<longrightarrow>
                 df_name_mapping t' u = Some k \<and> get_col (df t') k = Some c"
    and "pd_translate t e = Inr tv"
  shows "pd_translate t' e = Inr tv"
proof -
  have "bottom_up_replace (pure_cb (expr_translate t)) () e = Inr (tv, ())"
    using assms(3) by (simp add: pd_translate_Inr)
  then have "bottom_up_replace (pure_cb (expr_translate t')) () e = Inr (tv, ())"
    using bottom_up_replace_mono(1) [of "expr_translate t" "expr_translate t'"] expr_translate_agree [OF assms(1,2)]
    by blast
  then show ?thesis by (simp add: pd_translate_Inr)
qed

lemma set_zip_map2_key:
  "(u, k) \<in> set (zip us (map2 (\<lambda>u (n, e). g n u) us kws)) \<Longrightarrow> \<exists>n. k = g n u"
proof (induction us arbitrary: kws)
  case (Cons u' us)
  then show ?case by (cases kws) (auto split: prod.splits)
qed simp

lemma mapping_mutate_table:
  "df_name_mapping (mutate_table t s kws) =
     df_name_mapping t ++ map_of (zip [s..<s + length kws] (mutate_keys t s kws))"
  by (simp add: mutate_table_def)

lemma mutate_table_old:
  assumes wf: "ptable_wf s t"
    and m: "df_name_mapping (mutate_table t s kws) u = Some k" and g: "get_col (df t) k = Some c"
  shows "df_name_mapping t u = Some k \<and> u < s"
proof (cases "map_of (zip [s..<s + length kws] (mutate_keys t s kws)) u")
  case None
  then have mu: "df_name_mapping t u = Some k" using m unfolding mapping_mutate_table by (simp add: map_add_Some_iff)
  have "keys_ok s (df_name_mapping t)" using wf by (simp add: ptable_wf_def)
  then show ?thesis using mu keys_okD by blast
next
  case (Some k')
  then have "k' = k" using m unfolding mapping_mutate_table by simp
  then have z: "(u, k) \<in> set (zip [s..<s + length kws] (mutate_keys t s kws))" using Some by (blast dest: map_of_SomeD)
  then have "u \<in> set [s..<s + length kws]" by (blast dest: set_zip_leftD)
  then have su: "s \<le> u" by simp
  have "(u, k) \<in> set (zip [s..<s + length kws] (map2 (\<lambda>u (n, e). mutate_key (tname t) n u) [s..<s + length kws] kws))"
    using z by (simp only: mutate_keys_def)
  then obtain n where "k = mutate_key (tname t) n u" by (blast dest: set_zip_map2_key)
  then have "get_col (df t) k = None" using fresh_key_not_stored [OF wf key_uuid_mutate_key su] by simp
  then show ?thesis using g by simp
qed

lemma mapping_mutate_table_below:
  "u < s \<Longrightarrow> df_name_mapping (mutate_table t s kws) u = df_name_mapping t u"
proof -
  assume u: "u < s"
  have "u \<notin> set [s..<s + length kws]" using u by simp
  then have "map_of (zip [s..<s + length kws] (mutate_keys t s kws)) u = None"
    by (auto simp: map_of_eq_None_iff dest: set_zip_leftD)
  then show ?thesis unfolding mapping_mutate_table by (simp add: map_add_def)
qed

lemma registry_mutate_table [simp]: "operator_registry (mutate_table t s kws) = operator_registry t"
  by (simp add: mutate_table_def)

lemma df_mutate_table [simp]: "df (mutate_table t s kws) = df t"
  by (simp add: mutate_table_def)

lemma tname_mutate_table [simp]: "tname (mutate_table t s kws) = tname t"
  by (simp add: mutate_table_def)

text \<open>A translation against the table of a batch succeeds the same way against any table
  that keeps the old identities' keys and the stored columns.\<close>

lemma mutate_table_translate:
  assumes wf: "ptable_wf s t" and tr: "pd_translate (mutate_table t s kws) e = Inr tv"
    and reg: "operator_registry t' = operator_registry t"
    and old: "\<And>u. u < s \<Longrightarrow> df_name_mapping t' u = df_name_mapping t u"
    and stored: "\<And>k c. get_col (df t) k = Some c \<Longrightarrow> get_col (df t') k = Some c"
  shows "pd_translate t' e = Inr tv"
proof (rule pd_translate_agree [OF _ _ tr])
  show "operator_registry t' = operator_registry (mutate_table t s kws)" using reg by simp
  show "\<forall>u k c. df_name_mapping (mutate_table t s kws) u = Some k \<and> get_col (df (mutate_table t s kws)) k = Some c \<longrightarrow>
                 df_name_mapping t' u = Some k \<and> get_col (df t') k = Some c"
  proof (intro allI impI)
    fix u k c
    assume "df_name_mapping (mutate_table t s kws) u = Some k \<and> get_col (df (mutate_table t s kws)) k = Some c"
    then have m: "df_name_mapping (mutate_table t s kws) u = Some k" and g: "get_col (df t) k = Some c" by simp_all
    have "df_name_mapping t u = Some k \<and> u < s" by (rule mutate_table_old [OF wf m g])
    then show "df_name_mapping t' u = Some k \<and> get_col (df t') k = Some c" using old stored [OF g] by simp
  qed
qed

lemma upt_Suc_Cons_nf: "[s..<Suc (s + m)] = s # [Suc s..<Suc (s + m)]"
  by (simp add: upt_conv_Cons del: upt_Suc)

lemma upt_single: "[s..<Suc s] = [s]"
  by simp

lemma upt_batch_Cons: "[s..<s + Suc m] = s # [Suc s..<Suc s + m]"
  by (simp add: upt_conv_Cons del: upt_Suc)

lemma fields_mutate_table [simp]:
  "named_cols (mutate_table t s kws) = named_cols t ++ map_of (zip (map fst kws) [s..<s + length kws])"
  "col_expr (mutate_table t s kws) = col_expr t ++ map_of (zip [s..<s + length kws] (map snd kws))"
  "selected_cols (mutate_table t s kws) =
     foldl (\<lambda>sel (nm, u). AList.update nm u sel) (selected_cols t) (zip (map fst kws) [s..<s + length kws])"
  "col_dtypes (mutate_table t s kws) = col_dtypes t"
  "ptable.more (mutate_table t s kws) = ptable.more t"
  by (simp_all add: mutate_table_def)

lemma mutate_keys_Cons:
  "mutate_keys t s ((n, e) # kws) = mutate_key (tname t) n s # mutate_keys t (Suc s) kws"
  unfolding mutate_keys_def by (simp only: length_Cons upt_batch_Cons) simp

lemma not_dom_zip_above: "s \<notin> dom (map_of (zip [Suc s..<j] xs))"
  by (auto simp: dom_map_of_conv_image_fst dest: set_zip_leftD)

lemma not_dom_zip_names: "n \<notin> set ns \<Longrightarrow> n \<notin> dom (map_of (zip ns us))"
  by (auto simp: dom_map_of_conv_image_fst dest: set_zip_leftD)

subsection \<open>A batch is a sequence of single-name mutates\<close>

lemma mutate_verb_Cons:
  assumes wf: "ptable_wf s t" and d: "distinct (map fst ((n, e) # kws))"
    and st: "mutate_verb t s ((n, e) # kws) = (None, t')"
  shows "\<exists>ta. mutate_verb t s [(n, e)] = (None, ta) \<and> mutate_verb ta (Suc s) kws = (None, t')"
proof -
  let ?T = "mutate_table t s ((n, e) # kws)"
  let ?K = "mutate_key (tname t) n s"
  obtain tvs F where tr: "list_all2 (\<lambda>(n, e) tv. pd_translate ?T e = Inr tv) ((n, e) # kws) tvs"
    and a: "assign (df t) (zip (mutate_keys t s ((n, e) # kws)) (map tv_value tvs)) = Some F"
    and t': "t' = ?T\<lparr>df := F, col_dtypes := col_dtypes t ++
                      map_of (zip [s..<s + length ((n, e) # kws)] (map tv_dtype tvs))\<rparr>"
    using st mutate_verb_None_iff [OF d] by blast
  obtain tv tvs' where tvs: "tvs = tv # tvs'" and tr1: "pd_translate ?T e = Inr tv"
    and tr': "list_all2 (\<lambda>(n, e) tv. pd_translate ?T e = Inr tv) kws tvs'"
    using tr by (auto simp: list_all2_Cons1)
  obtain f1 where a1: "assign_col (df t) ?K (tv_value tv) = Some f1"
    and a': "assign f1 (zip (mutate_keys t (Suc s) kws) (map tv_value tvs')) = Some F"
    using a by (auto simp: tvs mutate_keys_Cons split: option.splits)
  define ta where "ta = (mutate_table t s [(n, e)])\<lparr>df := f1,
                          col_dtypes := col_dtypes t ++ map_of (zip [s..<s + length [(n, e)]] (map tv_dtype [tv]))\<rparr>"
  have fresh: "get_col (df t) ?K = None" using fresh_key_not_stored [OF wf key_uuid_mutate_key] by simp
  have step1: "mutate_verb t s [(n, e)] = (None, ta)"
  proof -
    have "pd_translate (mutate_table t s [(n, e)]) e = Inr tv"
      by (rule mutate_table_translate [OF wf tr1]) (simp_all add: mapping_mutate_table_below)
    moreover have "assign (df t) (zip (mutate_keys t s [(n, e)]) (map tv_value [tv])) = Some f1"
      using a1 by (simp add: mutate_keys_def)
    ultimately have "\<exists>tvs F. list_all2 (\<lambda>(n', e') tv. pd_translate (mutate_table t s [(n, e)]) e' = Inr tv) [(n, e)] tvs \<and>
        assign (df t) (zip (mutate_keys t s [(n, e)]) (map tv_value tvs)) = Some F \<and>
        ta = (mutate_table t s [(n, e)])\<lparr>df := F,
               col_dtypes := col_dtypes t ++ map_of (zip [s..<s + length [(n, e)]] (map tv_dtype tvs))\<rparr>"
      by (intro exI [of _ "[tv]"] exI [of _ f1]) (simp add: ta_def)
    then show ?thesis by (subst mutate_verb_None_iff) simp_all
  qed
  have d': "distinct (map fst kws)" using d by simp
  have tr2: "list_all2 (\<lambda>(n, e) tv. pd_translate (mutate_table ta (Suc s) kws) e = Inr tv) kws tvs'"
  proof (rule list_all2_mono [OF tr'])
    fix kw tv' assume h: "(\<lambda>(n, e) tv. pd_translate ?T e = Inr tv) kw tv'"
    obtain n' e' where kw: "kw = (n', e')" by (cases kw)
    have "pd_translate (mutate_table ta (Suc s) kws) e' = Inr tv'"
    proof (rule mutate_table_translate [OF wf])
      show "pd_translate ?T e' = Inr tv'" using h kw by simp
      show "operator_registry (mutate_table ta (Suc s) kws) = operator_registry t" by (simp add: ta_def)
      show "df_name_mapping (mutate_table ta (Suc s) kws) u = df_name_mapping t u" if "u < s" for u
        using that by (simp add: mapping_mutate_table_below ta_def)
      show "get_col (df (mutate_table ta (Suc s) kws)) k = Some c" if "get_col (df t) k = Some c" for k c
      proof -
        have "k \<noteq> ?K" using that fresh by auto
        then show ?thesis using get_col_assign_col [OF a1] that by (simp add: ta_def)
      qed
    qed
    then show "(\<lambda>(n, e) tv. pd_translate (mutate_table ta (Suc s) kws) e = Inr tv) kw tv'" using kw by simp
  qed
  have n: "n \<notin> set (map fst kws)" using d by simp
  have a2: "assign (df ta) (zip (mutate_keys ta (Suc s) kws) (map tv_value tvs')) = Some F"
    using a' by (simp add: ta_def mutate_keys_def)
  have "t' = (mutate_table ta (Suc s) kws)\<lparr>df := F,
              col_dtypes := col_dtypes ta ++ map_of (zip [Suc s..<Suc s + length kws] (map tv_dtype tvs'))\<rparr>"
    unfolding t' ta_def tvs
  proof (rule ptable.equality)
  qed (simp_all del: upt_Suc add: upt_Suc_Cons_nf upt_single mapping_mutate_table mutate_keys_def
         not_dom_zip_above map_add_upd_left [OF not_dom_zip_names [OF n]] map_add_upd_left)
  then have step2: "mutate_verb ta (Suc s) kws = (None, t')"
    using mutate_verb_None_iff [OF d'] tr2 a2 by blast
  show ?thesis using step1 step2 by blast
qed

lemma mutate_verb_Nil: "mutate_verb t s [] = (None, t)"
proof -
  have "mutate_verb t s [] = (None, (mutate_table t s [])\<lparr>df := df t, col_dtypes := col_dtypes t ++ map_of []\<rparr>)"
    by (simp add: mutate_verb_None_iff)
  moreover have "(mutate_table t s [])\<lparr>df := df t, col_dtypes := col_dtypes t ++ map_of []\<rparr> = t"
    by (rule ptable.equality) (simp_all add: mapping_mutate_table)
  ultimately show ?thesis by simp
qed

text \<open>C31: a successful mutate with several (distinct) names, n1 = e1, ..., nk = ek, gives exactly the table that the k single-name mutates give one after the other, each on the table the previous one left and with the next fresh identity: the batch's translations against one shared table and its single df.assign are the sequence of one-column assigns.\<close>

theorem mutate_batch_sequential:
  assumes "ptable_wf s t" and "distinct (map fst kws)" and "mutate_verb t s kws = (None, t')"
  shows "mutate_seq t s kws = (None, t')"
  using assms
proof (induction kws arbitrary: t s)
  case Nil
  then show ?case by (simp add: mutate_verb_Nil)
next
  case (Cons kw kws)
  obtain n e where kw: "kw = (n, e)" by (cases kw)
  obtain ta where s1: "mutate_verb t s [(n, e)] = (None, ta)" and s2: "mutate_verb ta (Suc s) kws = (None, t')"
    using mutate_verb_Cons [OF Cons.prems(1)] Cons.prems(2,3) kw by blast
  have "ptable_wf (Suc s) ta" using ptable_wf_mutate_verb [OF Cons.prems(1) s1] by simp
  then have "mutate_seq ta (Suc s) kws = (None, t')" using Cons.IH Cons.prems(2) s2 by simp
  then show ?case using s1 kw by simp
qed

subsection \<open>A batch seen through collect\<close>

lemma translations_unique:
  "list_all2 (\<lambda>(n, e) tv. f e = Inr tv) kws xs \<Longrightarrow> list_all2 (\<lambda>(n, e) tv. f e = Inr tv) kws ys \<Longrightarrow> xs = ys"
proof (induction kws arbitrary: xs ys)
  case (Cons kw kws)
  then show ?case by (cases kw) (auto simp: list_all2_Cons1)
qed simp

lemma mutate_batch_translations:
  assumes wf: "ptable_wf s t" and d: "distinct (map fst kws)" and st: "mutate_verb t s kws = (None, t')"
  shows "\<exists>tvs. list_all2 (\<lambda>(n, e) tv. pd_translate t e = Inr tv) kws tvs"
proof -
  obtain tvs where tr: "list_all2 (\<lambda>(n, e) tv. pd_translate (mutate_table t s kws) e = Inr tv) kws tvs"
    using st mutate_verb_None_iff [OF d] by blast
  have "list_all2 (\<lambda>(n, e) tv. pd_translate t e = Inr tv) kws tvs"
  proof (rule list_all2_mono [OF tr])
    fix kw tv assume h: "(\<lambda>(n, e) tv. pd_translate (mutate_table t s kws) e = Inr tv) kw tv"
    obtain n e where kw: "kw = (n, e)" by (cases kw)
    have "pd_translate t e = Inr tv"
      by (rule mutate_table_translate [OF wf]) (use h kw in simp_all)
    then show "(\<lambda>(n, e) tv. pd_translate t e = Inr tv) kw tv" using kw by simp
  qed
  then show ?thesis by blast
qed

lemma mutate_single_keeps:
  assumes wf: "ptable_wf s t" and st: "mutate_verb t s [(n, e)] = (None, ta)" and tr: "pd_translate t e' = Inr tv"
  shows "pd_translate ta e' = Inr tv"
proof -
  let ?K = "mutate_key (tname t) n s"
  obtain tvs F where a: "assign (df t) (zip (mutate_keys t s [(n, e)]) (map tv_value tvs)) = Some F"
    and ta: "ta = (mutate_table t s [(n, e)])\<lparr>df := F,
              col_dtypes := col_dtypes t ++ map_of (zip [s..<s + length [(n, e)]] (map tv_dtype tvs))\<rparr>"
    and l: "list_all2 (\<lambda>(n', e') tv. pd_translate (mutate_table t s [(n, e)]) e' = Inr tv) [(n, e)] tvs"
    using st mutate_verb_None_iff [of "[(n, e)]" t s ta] by auto
  obtain tv1 where tvs: "tvs = [tv1]" using l by (auto simp: list_all2_Cons1)
  have a1: "assign_col (df t) ?K (tv_value tv1) = Some F"
    using a by (simp add: tvs mutate_keys_def split: option.splits)
  have fresh: "get_col (df t) ?K = None" using fresh_key_not_stored [OF wf key_uuid_mutate_key] by simp
  have ok: "keys_ok s (df_name_mapping t)" using wf by (simp add: ptable_wf_def)
  show ?thesis
  proof (rule pd_translate_agree [OF _ _ tr])
    show "operator_registry ta = operator_registry t" by (simp add: ta)
    show "\<forall>u k c. df_name_mapping t u = Some k \<and> get_col (df t) k = Some c \<longrightarrow>
                 df_name_mapping ta u = Some k \<and> get_col (df ta) k = Some c"
    proof (intro allI impI)
      fix u k c assume h: "df_name_mapping t u = Some k \<and> get_col (df t) k = Some c"
      then have "u < s" using keys_okD [OF ok] by blast
      moreover have "k \<noteq> ?K" using h fresh by auto
      ultimately show "df_name_mapping ta u = Some k \<and> get_col (df ta) k = Some c"
        using h get_col_assign_col [OF a1] by (simp add: ta mapping_mutate_table_below)
    qed
  qed
qed

text \<open>C32: on a well-formed table whose collect succeeds, a successful mutate(n1 = e1, ..., nk = ek) with distinct names translates every ei against the table as it was and, seen through collect, is df.assign(n1 = v1, ..., nk = vk) on the user's table: the columns are assigned in the order written, each name replacing its column in place or appending a new one.\<close>

theorem mutate_many_view:
  assumes "ptable_wf s t" and "collect t = Inr f" and "distinct (map fst kws)" and "mutate_verb t s kws = (None, t')"
  shows "\<exists>tvs f'. list_all2 (\<lambda>(n, e) tv. pd_translate t e = Inr tv) kws tvs \<and>
           assign f (zip (map fst kws) (map tv_value tvs)) = Some f' \<and> collect t' = Inr f'"
  using assms
proof (induction kws arbitrary: t s f)
  case Nil
  then show ?case by (simp add: mutate_verb_Nil)
next
  case (Cons kw kws)
  obtain n e where kw: "kw = (n, e)" by (cases kw)
  note wf = Cons.prems(1)
  have d: "distinct (map fst ((n, e) # kws))" using Cons.prems(3) kw by simp
  obtain ta where s1: "mutate_verb t s [(n, e)] = (None, ta)" and s2: "mutate_verb ta (Suc s) kws = (None, t')"
    using mutate_verb_Cons [OF wf d] Cons.prems(4) kw by blast
  obtain tv f1 where tr1: "pd_translate t e = Inr tv" and a1: "assign_col f n (tv_value tv) = Some f1"
    and c1: "collect ta = Inr f1"
    using mutate_single_view [OF wf Cons.prems(2) s1] by blast
  have wfa: "ptable_wf (Suc s) ta" using ptable_wf_mutate_verb [OF wf s1] by simp
  obtain tvs' f' where tr': "list_all2 (\<lambda>(n, e) tv. pd_translate ta e = Inr tv) kws tvs'"
    and a': "assign f1 (zip (map fst kws) (map tv_value tvs')) = Some f'" and c': "collect t' = Inr f'"
    using Cons.IH [OF wfa c1 _ s2] d by auto
  obtain tvsB where trB: "list_all2 (\<lambda>(n, e) tv. pd_translate t e = Inr tv) ((n, e) # kws) tvsB"
    using mutate_batch_translations [OF wf d] Cons.prems(4) kw by blast
  then obtain tvB tvsB' where tvsB: "tvsB = tvB # tvsB'"
    and trB': "list_all2 (\<lambda>(n, e) tv. pd_translate t e = Inr tv) kws tvsB'"
    by (auto simp: list_all2_Cons1)
  have "list_all2 (\<lambda>(n, e) tv. pd_translate ta e = Inr tv) kws tvsB'"
  proof (rule list_all2_mono [OF trB'])
    fix kw' tv' assume h: "(\<lambda>(n, e) tv. pd_translate t e = Inr tv) kw' tv'"
    obtain n' e' where kw': "kw' = (n', e')" by (cases kw')
    have "pd_translate ta e' = Inr tv'" using mutate_single_keeps [OF wf s1] h kw' by simp
    then show "(\<lambda>(n, e) tv. pd_translate ta e = Inr tv) kw' tv'" using kw' by simp
  qed
  then have "tvs' = tvsB'" using translations_unique [OF tr'] by blast
  then have "list_all2 (\<lambda>(n, e) tv. pd_translate t e = Inr tv) ((n, e) # kws) (tv # tvs')"
    using tr1 trB' by simp
  moreover have "assign f (zip (map fst ((n, e) # kws)) (map tv_value (tv # tvs'))) = Some f'"
    using a1 a' by simp
  ultimately show ?case using c' kw by blast
qed


subsection \<open>A failing mutate breaks the table\<close>

lemma update_selects: "(k, v) \<in> set (AList.update k v al)"
  using map_of_SomeD [of "AList.update k v al" k v] by (simp add: update_conv')

lemma mutate_verb_single_Some:
  "mutate_verb t s [(n, e)] = (Some err, t') \<Longrightarrow> t' = mutate_table t s [(n, e)]"
  using mutate_verb_distinct [of "[(n, e)]" t s] by (auto split: sum.splits option.splits)

text \<open>C21: a failing mutate(n = e) does not leave the table's prior state valid: whether the translation of e raises or the assignment does, the table keeps the name n selected under the new identity, whose storage key is mapped but was never stored, so every later collect (and alias) of the table raises; the spec requires a failing verb to leave the prior state valid.\<close>

theorem mutate_failure_breaks_collect:
  assumes wf: "ptable_wf s t" and st: "mutate_verb t s [(n, e)] = (Some err, t')"
  shows "df t' = df t \<and> df_name_mapping t' s = Some (mutate_key (tname t) n s) \<and>
         get_col (df t') (mutate_key (tname t) n s) = None \<and> (n, s) \<in> set (selected_cols t') \<and>
         (\<exists>err'. collect t' = Inl err')"
proof -
  let ?K = "mutate_key (tname t) n s"
  have t': "t' = mutate_table t s [(n, e)]" by (rule mutate_verb_single_Some [OF st])
  have d: "df t' = df t" by (simp add: t')
  have fresh: "get_col (df t) ?K = None" using fresh_key_not_stored [OF wf key_uuid_mutate_key] by simp
  have m: "df_name_mapping t' s = Some ?K" by (simp add: t' mapping_mutate_table mutate_keys_def)
  have sel: "(n, s) \<in> set (selected_cols t')" by (simp add: t' update_selects)
  have wf': "ptable_wf (s + 1) t'" using ptable_wf_mutate_verb [OF wf st] by simp
  have "collect t' \<noteq> Inr f" for f
  proof
    assume c: "collect t' = Inr f"
    obtain k v where "df_name_mapping t' s = Some k" and "get_col (df t') k = Some v"
      using collect_column_of [OF wf' c sel] by blast
    then show False using m d fresh by simp
  qed
  then obtain err' where "collect t' = Inl err'" by (cases "collect t'") auto
  then show ?thesis using d m fresh sel by simp
qed

subsection \<open>mutate, then arrange by the new column\<close>

text \<open>C33: the identity a mutate creates is at once usable by the other verbs: after a successful mutate(n = e) on a well-formed table whose collect succeeds, where e evaluates to a column of one kind (a broadcast scalar always is), arrange by the new column (any column value carrying the new identity, in either direction) always completes.\<close>

theorem mutate_then_arrange:
  assumes wf: "ptable_wf s t" and c: "collect t = Inr f" and st: "mutate_verb t s [(n, e)] = (None, t1)"
    and kind: "\<forall>tv. pd_translate t e = Inr tv \<longrightarrow> one_kind (series_of (tv_value tv) (nrows (df t)))"
    and u: "col_uuid col = s"
  shows "\<exists>t2. arrange t1 [(col, asc)] = (None, t2)"
proof -
  let ?K = "mutate_key (tname t) n s"
  obtain f1 where c1: "collect t1 = Inr f1"
    using mutate_single_view [OF wf c st] by blast
  have wf1: "ptable_wf (s + 1) t1" using ptable_wf_mutate_verb [OF wf st] by simp
  obtain tv ta where ta: "df ta = df t" "operator_registry ta = operator_registry t"
      "df_name_mapping ta = (df_name_mapping t)(s \<mapsto> ?K)" and tra: "pd_translate ta e = Inr tv"
    and a: "assign_col (df t) ?K (tv_value tv) = Some (df t1)"
    and sel: "selected_cols t1 = AList.update n s (selected_cols t)"
    and m: "df_name_mapping t1 = (df_name_mapping t)(s \<mapsto> ?K)"
    using mutate_single_steps [OF st] by blast
  have fresh: "get_col (df t) ?K = None" using fresh_key_not_stored [OF wf key_uuid_mutate_key] by simp
  have "pd_translate t e = Inr tv" by (rule pd_translate_fresh [OF ta fresh tra])
  then have ok: "one_kind (series_of (tv_value tv) (nrows (df t)))" using kind by blast
  have g: "get_col (df t1) ?K = Some (series_of (tv_value tv) (nrows (df t)))"
    by (rule get_col_assign_col_self [OF a])
  have kinds: "\<forall>(col', asc') \<in> set [(col, asc)]. \<forall>k v. df_name_mapping t1 (col_uuid col') = Some k \<longrightarrow>
                  get_col (df t1) k = Some v \<longrightarrow> one_kind v"
    using u m g ok by simp
  have "(n, s) \<in> set (selected_cols t1)" using sel by (simp add: update_selects)
  then have "col_uuid col \<in> snd ` set (selected_cols t1)" using u by force
  then show ?thesis by (intro arrange_completes [OF wf1 c1 _ _ kinds]) auto
qed

subsection \<open>Witnesses\<close>

theorem mutate_batch_sequential_witness:
  "mutate_seq ex_left 2 [(''a'', Leaf (Col ex_id)), (''b'', Leaf (Lit (LInt 7)))] =
     (None, snd (mutate_verb ex_left 2 [(''a'', Leaf (Col ex_id)), (''b'', Leaf (Lit (LInt 7)))]))"
proof -
  have "fst (mutate_verb ex_left 2 [(''a'', Leaf (Col ex_id)), (''b'', Leaf (Lit (LInt 7)))]) = None"
    by (simp add: ex_left_eval ex_id_def mutate_eval Let_def)
  then have h: "mutate_verb ex_left 2 [(''a'', Leaf (Col ex_id)), (''b'', Leaf (Lit (LInt 7)))] =
      (None, snd (mutate_verb ex_left 2 [(''a'', Leaf (Col ex_id)), (''b'', Leaf (Lit (LInt 7)))]))"
    by (metis prod.collapse)
  show ?thesis by (rule mutate_batch_sequential [OF ex_left_wf _ h]) simp
qed

theorem mutate_many_view_witness:
  "collect (snd (mutate_verb ex_left 2 [(''a'', Leaf (Col ex_id)), (''name'', Leaf (Lit (LInt 7)))])) =
     Inr \<lparr>fcols = [(''id'', [VInt 2, VInt 1, VInt 2]), (''name'', [VInt 7, VInt 7, VInt 7]),
                     (''a'', [VInt 2, VInt 1, VInt 2])], nrows = 3\<rparr>"
proof -
  have c: "collect ex_left =
     Inr \<lparr>fcols = [(''id'', [VInt 2, VInt 1, VInt 2]), (''name'', [VStr '' x'', VStr ''y '', VStr ''z''])], nrows = 3\<rparr>"
    by (simp add: collect_def ex_left_eval dict_of_def select_cols_def get_col_def rename_cols_def uuid_to_str_def)
  have "fst (mutate_verb ex_left 2 [(''a'', Leaf (Col ex_id)), (''name'', Leaf (Lit (LInt 7)))]) = None"
    by (simp add: ex_left_eval ex_id_def mutate_eval Let_def)
  then have h: "mutate_verb ex_left 2 [(''a'', Leaf (Col ex_id)), (''name'', Leaf (Lit (LInt 7)))] =
      (None, snd (mutate_verb ex_left 2 [(''a'', Leaf (Col ex_id)), (''name'', Leaf (Lit (LInt 7)))]))"
    by (metis prod.collapse)
  have tr1: "pd_translate ex_left (Leaf (Col ex_id)) = Inr (TypedValue (Series [VInt 2, VInt 1, VInt 2]) ''int'')"
    by (simp add: ex_left_eval ex_id_def translate_eval)
  have tr2: "pd_translate ex_left (Leaf (Lit (LInt 7))) = Inr (TypedValue (Scalar (VInt 7)) ''int'')"
    by (simp add: translate_eval)
  obtain tvs f' where l: "list_all2 (\<lambda>(n, e) tv. pd_translate ex_left e = Inr tv)
        [(''a'', Leaf (Col ex_id)), (''name'', Leaf (Lit (LInt 7)))] tvs"
    and a: "assign \<lparr>fcols = [(''id'', [VInt 2, VInt 1, VInt 2]), (''name'', [VStr '' x'', VStr ''y '', VStr ''z''])], nrows = 3\<rparr>
              (zip [''a'', ''name''] (map tv_value tvs)) = Some f'"
    and c': "collect (snd (mutate_verb ex_left 2 [(''a'', Leaf (Col ex_id)), (''name'', Leaf (Lit (LInt 7)))])) = Inr f'"
    using mutate_many_view [OF ex_left_wf c _ h] by auto
  have "tvs = [TypedValue (Series [VInt 2, VInt 1, VInt 2]) ''int'', TypedValue (Scalar (VInt 7)) ''int'']"
    using l tr1 tr2 by (auto simp: list_all2_Cons1)
  then have "f' = \<lparr>fcols = [(''id'', [VInt 2, VInt 1, VInt 2]), (''name'', [VInt 7, VInt 7, VInt 7]),
                     (''a'', [VInt 2, VInt 1, VInt 2])], nrows = 3\<rparr>"
    using a by (simp add: assign_col_def TypedValue_def numeral_3_eq_3)
  then show ?thesis using c' by simp
qed

theorem mutate_then_arrange_witness:
  "\<exists>t2. arrange (snd (mutate_verb ex_left 2 [(''a'', Leaf (Col ex_id))]))
          [(\<lparr>col_uuid = 2, col_name = ''a'', col_dtype = ''int'', col_table = ''l''\<rparr>, False)] = (None, t2)"
proof -
  have c: "collect ex_left =
     Inr \<lparr>fcols = [(''id'', [VInt 2, VInt 1, VInt 2]), (''name'', [VStr '' x'', VStr ''y '', VStr ''z''])], nrows = 3\<rparr>"
    by (simp add: collect_def ex_left_eval dict_of_def select_cols_def get_col_def rename_cols_def uuid_to_str_def)
  have "fst (mutate_verb ex_left 2 [(''a'', Leaf (Col ex_id))]) = None"
    by (simp add: ex_left_eval ex_id_def mutate_eval Let_def)
  then have h: "mutate_verb ex_left 2 [(''a'', Leaf (Col ex_id))] =
      (None, snd (mutate_verb ex_left 2 [(''a'', Leaf (Col ex_id))]))"
    by (metis prod.collapse)
  have k: "\<forall>tv. pd_translate ex_left (Leaf (Col ex_id)) = Inr tv \<longrightarrow>
      one_kind (series_of (tv_value tv) (nrows (df ex_left)))"
    by (simp add: ex_left_eval ex_id_def translate_eval TypedValue_def series_of_def one_kind_def)
  show ?thesis by (rule mutate_then_arrange [OF ex_left_wf c h k]) simp
qed

theorem mutate_failure_breaks_collect_witness:
  "df (snd (mutate_verb ex_left 2 [(''id'', Leaf (Lit (LOther ''float'')))])) = df ex_left \<and>
   df_name_mapping (snd (mutate_verb ex_left 2 [(''id'', Leaf (Lit (LOther ''float'')))])) 2 =
     Some (mutate_key (tname ex_left) ''id'' 2) \<and>
   get_col (df (snd (mutate_verb ex_left 2 [(''id'', Leaf (Lit (LOther ''float'')))]))) (mutate_key (tname ex_left) ''id'' 2) = None \<and>
   (''id'', 2) \<in> set (selected_cols (snd (mutate_verb ex_left 2 [(''id'', Leaf (Lit (LOther ''float'')))]))) \<and>
   (\<exists>err'. collect (snd (mutate_verb ex_left 2 [(''id'', Leaf (Lit (LOther ''float'')))])) = Inl err')"
proof -
  have h: "mutate_verb ex_left 2 [(''id'', Leaf (Lit (LOther ''float'')))] =
      (Some (TranslationFailed (Leaf (Lit (LOther ''float''))) (NotImplemented ''float'')),
       snd (mutate_verb ex_left 2 [(''id'', Leaf (Lit (LOther ''float'')))]))"
    by (simp add: ex_left_eval mutate_eval Let_def)
  show ?thesis by (rule mutate_failure_breaks_collect [OF ex_left_wf h])
qed

end
