(* ===== verification/Spec2Isabelle.thy ===== *)
theory Spec2Isabelle
  imports Translator PandasTable Examples TableView MutateView Selection Progress MutateBatch
begin

text \<open>
  \<^bold>\<open>pdtransform: the expression translation engine and its pandas backend.\<close>

  \<^medskip>\<^noindent>\<^bold>\<open>The program.\<close>  User code builds symbolic column expressions (trees of columns,
  literals and function calls).  A table verb (\<open>mutate\<close>, \<open>filter\<close>, \<open>join\<close>,
  \<open>arrange\<close>, \<open>alias\<close>) hands an expression to a translator, which rewrites the tree
  bottom-up (\<open>bottom_up_replace\<close>) and gives every node to a node-level callback.  The
  pandas backend's callback reads a column's series from the frame through the table's
  identity-to-storage-key mapping, resolves a call's implementation in the operator
  registry by the dtypes of its translated arguments and applies it, and types
  literals.  The verbs then update the stored frame and the bookkeeping.

  \<^medskip>\<^noindent>\<^bold>\<open>Theories, in import order.\<close>
  \<^item> \<open>Prelude\<close>: the model's base types (\<open>uuid\<close>, \<open>dtype\<close>, \<open>opname\<close> as
    \<open>nat\<close> and \<open>string\<close>), Python exceptions as the left side of a sum (\<open>ebind\<close>,
    \<open>sbind\<close> sequence computations that may raise, the second also threading a state),
    comprehensions (\<open>emap\<close>, \<open>dict_of\<close>), \<open>str.strip\<close> and \<open>str.split\<close>.
  \<^item> \<open>Expressions\<close>: columns (\<open>column\<close> record), literals, the nested datatype
    \<open>expr\<close> of leaves and calls with positional and keyword arguments, the node type the
    callback sees, and the lambda-column getter of \<open>core/expressions/lambda_getter.py\<close>.
  \<^item> \<open>Registry\<close>: the operator registry (not under src/, modelled from the spec):
    signature strings with template parameters, registration with duplicate detection,
    resolution \<open>get_implementation\<close> (exact signature first, then the unique template
    match); the window operators \<open>Shift\<close> and \<open>RowNumber\<close> of \<open>core/ops/window.py\<close>.
  \<^item> \<open>Translator\<close>: all of \<open>core/expressions/translator.py\<close>: \<open>TypedValue\<close>,
    \<open>Translator.translate\<close> (wrapping every failure into one chained \<open>ValueError\<close>),
    \<open>DelegatingTranslator._translate\<close> with its three hooks as a record, and
    \<open>bottom_up_replace\<close> as three mutually recursive functions over the tree whose
    callback threads a state and may raise; the post-order stack machine
    \<open>postfix\<close>/\<open>exec\<close> the design notes propose instead.
  \<^item> \<open>Values\<close>, \<open>Frame\<close>: the pandas primitives the backend calls (a library, modelled
    as its documented behaviour): column-major frames, \<open>assign\<close>, \<open>loc\<close> with a bool
    mask, stable multi-key \<open>sort_values\<close> (missing values last; it raises \<open>TypeError\<close>
    when a key column mixes ints, bools and strings, as Python cannot order them), \<open>merge\<close>
    for inner, left and right joins (it raises \<open>ValueError\<close> when a string key column
    meets a numeric one), column selection and renaming.  A cell's kind (\<open>val_kind\<close>)
    decides both checks.
  \<^item> \<open>PandasTable\<close>: all of \<open>eager/pandas_table.py\<close>.  The table is the record
    \<open>ptable\<close> (name, frame, \<open>df_name_mapping\<close>, and the bookkeeping inherited from the
    abstract table layer); \<open>pandas_init\<close>, \<open>collect\<close>, \<open>alias_table\<close>, \<open>mutate\<close>,
    \<open>join\<close> (with \<open>orient_pair\<close> for its loop), \<open>pd_filter\<close>, \<open>arrange\<close>, the
    \<open>ExpressionTranslator\<close> (\<open>expr_translate\<close>, \<open>pd_translate\<close>), the
    \<open>JoinTranslator\<close> (\<open>join_translate\<close>), \<open>_convert_dtype\<close> and the registered
    \<open>str.strip\<close> (pandas' \<open>Series.str.strip\<close>: non-string cells become missing, and a
    column without strings raises).  Verbs change the table in place in the source; here each returns
    the exception it raised, if any, and the table after the call, so that what a verb
    changed before raising stays visible.  \<open>mutate_verb\<close> adds the abstract layer's part of
    \<open>mutate\<close> (fresh identities, selection) from the spec.  \<open>key_uuid\<close> decodes a storage key.
  \<^item> \<open>Invariant\<close>: the well-formedness \<open>ptable_wf s t\<close> of a table relative to the
    identity supply \<open>s\<close>, the inductive \<open>reachable s t\<close> of every table a program can
    build with the constructor and the verbs (failing calls included), and rule induction.
  \<^item> \<open>Examples\<close>: two concrete tables built by the constructor, a registry as the module
    registers it, and the closed instances (witnesses) of the backend's theorems.
  \<^item> \<open>TableView\<close>: \<open>collect\<close> as the abstraction from storage to the user's table; the
    row verbs and \<open>alias\<close> against it.
  \<^item> \<open>MutateView\<close>: \<open>mutate\<close> against the collected table (it is \<open>df.assign\<close>).
  \<^item> \<open>Selection\<close>: the abstract layer's \<open>select\<close> (\<open>select_verb\<close>, from the spec)
    against the collected table, and the progress of \<open>arrange\<close> on key columns of one
    kind.
  \<^item> \<open>MutateBatch\<close>: \<open>mutate\<close> with several names: equal to the single-name mutates in
    sequence (\<open>mutate_seq\<close>), and \<open>df.assign\<close> of all the values through \<open>collect\<close>;
    the state a failing \<open>mutate\<close> leaves behind.
  \<^item> \<open>Progress\<close>: \<open>join\<close> and \<open>mutate\<close> complete.
  \<^item> this theory: properties that span the registry, the window operators and the
    pandas translator, and the verbs on empty argument lists.

  \<^medskip>\<^noindent>\<^bold>\<open>What is proved.\<close>
  \<^item> Translator: the rewrite is a post-order walk, each node handed to the callback once,
    positional before keyword arguments, left to right (\<open>bottom_up_replace_trace\<close>);
    it is equivalent to the post-order stack machine (\<open>exec_postfix_equiv\<close>);
    \<open>translate\<close> wraps every failure once (\<open>translate_error_wrapped\<close>); the delegating
    dispatch of a call (\<open>delegating_call\<close>).
  \<^item> Pandas translator: calls, literals, the failure on an unmatched signature; the
    window operators' types (\<open>pd_translate_window_types\<close>, here).
  \<^item> Verbs: the join translator's pairs, the result and the errors of \<open>join\<close>; the rows
    \<open>filter\<close> keeps, its errors and its atomicity; \<open>arrange\<close> as the stable
    multi-key sort; storage keys decode to their identity.
  \<^item> Invariant: every reachable table is well formed (\<open>reachable_wf\<close>: storage keys decode
    to identities below the supply, the frame is rectangular with distinct keys, and the
    selection has distinct names and distinct identities); on every reachable table no
    two identities share a storage key (\<open>storage_keys_injective\<close>); \<open>mutate\<close> never overwrites a stored column or remaps an identity, and two
    mutates of one name give two identities and two keys; alias gives new identities.
  \<^item> Refinement and bounds: \<open>filter\<close> and \<open>arrange\<close> do to the collected table what
    \<open>loc\<close> and the stable sort do to a frame; \<open>alias\<close> collects back to the same table;
    a successful \<open>mutate(n = e)\<close> is
    \<open>df.assign\<close> of the translated \<open>e\<close> on the collected table (\<open>mutate_view\<close>);
    \<open>select\<close> keeps every translation and picks the chosen columns by identity
    (\<open>select_view\<close>); a successful \<open>mutate\<close> with several distinct names is the
    sequence of single-name mutates with successive identities (\<open>mutate_batch_sequential\<close>)
    and, through \<open>collect\<close>, \<open>df.assign\<close> of all the translated values in the order
    written (\<open>mutate_many_view\<close>).  A failing \<open>mutate(n = e)\<close> leaves the name
    selected under an identity whose storage key was never stored, so every later
    \<open>collect\<close> raises (\<open>mutate_failure_breaks_collect\<close>, a finding).
  \<^item> Progress: on a well-formed table whose \<open>collect\<close> succeeds, \<open>arrange\<close> by
    selected columns each holding cells of one kind always completes
    (\<open>arrange_progress\<close>); so does \<open>join\<close> on equalities between shown columns of two
    such tables without common storage keys, whose key columns never match strings
    against numbers, in each of the three modes (\<open>join_progress\<close>); so does
    \<open>mutate(n = e)\<close> when \<open>e\<close> translates against the table to a scalar or a series of
    the frame's length (\<open>mutate_progress\<close>); and the verbs compose: after a successful
    \<open>mutate\<close> whose value is of one kind, arrange by the new column completes
    (\<open>mutate_then_arrange\<close>).  The hypotheses on kinds are exactly where pandas raises.
  \<^item> Boundaries (a lemma, here): \<open>filter()\<close> and \<open>mutate()\<close> with no arguments change
    nothing, and \<open>arrange([])\<close> raises the \<open>ValueError\<close> of unpacking an empty
    \<open>zip\<close> (\<open>verbs_empty_arguments\<close>).

  \<^medskip>\<^noindent>\<^bold>\<open>Fresh identities.\<close>  \<open>uuid.uuid4()\<close> is a global source of identities that
  never repeat.  The model passes the next unused identity \<open>s\<close> explicitly: an operation
  that creates \<open>n\<close> columns uses \<open>s, ..., s + n - 1\<close> and the caller continues with
  \<open>s + n\<close> (the rules of \<open>reachable\<close>); for a join, the larger of the two supplies.
  Identities are natural numbers and \<open>uuid_to_str\<close> their hexadecimal text, so key
  decoding is exact.  No loop of the program needs fuel: the source's loops run over
  finite lists (arguments, keyword arguments, selected columns, join pairs, rows), so
  every recursion of the model is structural and total by construction, except
  \<open>hex_str\<close>, which terminates on \<open>n div 16\<close>.  What is left to prove is that the
  verbs complete rather than raise (\<open>arrange_progress\<close>, \<open>join_progress\<close>,
  \<open>mutate_progress\<close>).

  \<^medskip>\<^noindent>\<^bold>\<open>Not modelled.\<close>
  \<^item> pandas and numpy themselves: only the behaviour the backend relies on is modelled
    (\<open>Frame\<close>), without an index, floats, outer or cross merges (the model refuses any
    mode but inner, left and right) or dtype inference beyond ints, bools, ints with
    missing values and objects.  The kind checks approximate pandas: an object column
    mixing ints and bools is refused by the model's \<open>sort_values\<close> although Python
    orders bools as ints, and \<open>merge\<close> checks only strings against numbers, not the
    finer dtype rules of \<open>pandas.merge\<close>.
  \<^item> The abstract and eager table layers, the expression classes and the operator registry
    are not under src/; they are modelled from the spec where the backend calls them
    (fresh identities, \<open>select\<close>, signature resolution, \<open>uuid_to_str\<close>); their
    other verbs (\<open>summarise\<close>, \<open>group_by\<close>, \<open>slice_head\<close>, export) have no
    backend code under src/ whose meaning they would fix.
  \<^item> The lines of src/ outside the map are imports, \<open>__all__\<close>, class headers,
    docstrings, comments and blank lines, the module-level instance of
    \<open>LambdaColumnGetter\<close> (its two getters are modelled as functions) and the base
    \<open>Translator._translate\<close>, which only raises.
  \<^item> The equivalence of a batch \<open>mutate\<close> with the single-name sequence is proved from
    the batch to the sequence: the converse needs the expressions not to read the fresh
    identities, which a user's columns never do but the model does not exclude; a failing
    batch keeps its partial update (a finding) and so differs from the sequence.
  \<^item> \<open>join\<close> is not related to \<open>collect\<close>: which columns a joined table shows is decided
    by the abstract layer, which is not under src/.
  \<^item> Two defects of the source would stop it before any verb runs:
    \<open>Translator['PandasTableImpl', TypedValue]\<close> subscripts a generic of one parameter
    with two, and \<open>self.JoinTranslator(self)\<close> passes an argument no \<open>__init__\<close>
    accepts.  The model gives both translators the meaning their \<open>_translate\<close> intends
    and passes the table explicitly.
  \<^item> The base \<open>Translator._translate\<close> and the unimplemented hooks of
    \<open>DelegatingTranslator\<close> only raise \<open>NotImplementedError\<close>; the backends override them.
\<close>

subsection \<open>Window operators through the pandas translator\<close>

text \<open>C22: with the window operators of window.py registered, the pandas expression translator types shift(x, n) with the dtype of x (the template T binds to it), accepts a fill value only of that same dtype and otherwise fails with NoMatchingSignature, and types row_number() as int; every result carries the scalar function kind although both operators are registered as window operators.\<close>

theorem pd_translate_window_types:
  assumes reg: "window_registry fn = Inr (operator_registry t)"
    and x: "pd_translate t x = Inr tvx" and y: "pd_translate t y = Inr tvy"
  shows "pd_translate t (Call ''shift'' [x, Leaf (Lit (LInt k))] []) =
           (case fn [tv_value tvx, Scalar (VInt k)] of
              None \<Rightarrow> Inl (TranslationFailed (Call ''shift'' [x, Leaf (Lit (LInt k))] []) (ImplementationError ''shift''))
            | Some v \<Rightarrow> Inr (TypedValue v (tv_dtype tvx))) \<and>
         pd_translate t (Call ''shift'' [x, Leaf (Lit (LInt k)), y] []) =
           (if tv_dtype tvy \<noteq> tv_dtype tvx
            then Inl (TranslationFailed (Call ''shift'' [x, Leaf (Lit (LInt k)), y] [])
                        (RegistryError (NoMatchingSignature ''shift'' [tv_dtype tvx, ''int'', tv_dtype tvy])))
            else case fn [tv_value tvx, Scalar (VInt k), tv_value tvy] of
              None \<Rightarrow> Inl (TranslationFailed (Call ''shift'' [x, Leaf (Lit (LInt k)), y] []) (ImplementationError ''shift''))
            | Some v \<Rightarrow> Inr (TypedValue v (tv_dtype tvx))) \<and>
         pd_translate t (Call ''row_number'' [] []) =
           (case fn [] of
              None \<Rightarrow> Inl (TranslationFailed (Call ''row_number'' [] []) (ImplementationError ''row_number''))
            | Some v \<Rightarrow> Inr (TypedValue v ''int''))"
proof -
  from reg have r: "operator_registry t = projr (window_registry fn)" by simp
  have bx: "bottom_up_replace (pure_cb (expr_translate t)) () x = Inr (tvx, ())" using x by (simp add: pd_translate_Inr)
  have by': "bottom_up_replace (pure_cb (expr_translate t)) () y = Inr (tvy, ())" using y by (simp add: pd_translate_Inr)
  have tv: "tv_value (TypedValue v d) = v" "tv_dtype (TypedValue v d) = d" for v :: pval and d
    by (simp_all add: TypedValue_def)
  note defs = pd_translate_def translate_def bx by' pure_cb_def r window_registry_eval get_implementation_def
    typed_def sig_matches_def
  show ?thesis
    by (intro conjI) (simp_all add: defs tv split: option.splits)
qed

text \<open>the verbs on empty argument lists: filter() with no condition returns at once and leaves the table as it was; mutate() with no names leaves the table as it was; arrange([]) raises the ValueError of unpacking an empty zip and leaves the table as it was.\<close>

lemma verbs_empty_arguments:
  "pd_filter t [] = (None, t) \<and> mutate_verb t s [] = (None, t) \<and>
   arrange t [] = (Some (ValueError ''not enough values to unpack''), t)"
  by (simp add: pd_filter_def arrange_def MutateBatch.mutate_verb_Nil)

theorem pd_translate_window_types_witness:
  "pd_translate ex_window (Call ''shift'' [Leaf (Col ex_id), Leaf (Lit (LInt 1))] []) = Inr (TypedValue (Scalar VNull) ''int'') \<and>
   pd_translate ex_window (Call ''shift'' [Leaf (Col ex_id), Leaf (Lit (LInt 1)), Leaf (Col ex_name)] []) =
     Inl (TranslationFailed (Call ''shift'' [Leaf (Col ex_id), Leaf (Lit (LInt 1)), Leaf (Col ex_name)] [])
            (RegistryError (NoMatchingSignature ''shift'' [''int'', ''int'', ''object'']))) \<and>
   pd_translate ex_window (Call ''row_number'' [] []) = Inr (TypedValue (Scalar VNull) ''int'')"
proof -
  have h1: "window_registry (\<lambda>xs :: pval list. Some (Scalar VNull)) = Inr (operator_registry ex_window)"
    by (simp add: ex_window_def window_registry_eval)
  have h2: "pd_translate ex_window (Leaf (Col ex_id)) = Inr (TypedValue (Series [VInt 2, VInt 1, VInt 2]) ''int'')"
    by (simp add: ex_window_def ex_left_eval ex_id_def translate_eval)
  have h3: "pd_translate ex_window (Leaf (Col ex_name)) =
      Inr (TypedValue (Series [VStr '' x'', VStr ''y '', VStr ''z'']) ''object'')"
    by (simp add: ex_window_def ex_left_eval ex_name_def translate_eval)
  show ?thesis
    using pd_translate_window_types [OF h1 h2 h3, of 1] by (simp add: TypedValue_def)
qed

end
